theory Spec2Isabelle
  imports Main "HOL-Library.Product_Lexorder"
begin

text \<open>
  A model of the task-to-action framework of the Shopee agent: the locator tables, the
  page session, the store, the three actions with the template method that wraps them,
  and the worker that claims tasks and runs them. Each definition follows the Python
  function of the same name; what the functions do outside the process is an event in a
  history, answered by an environment that is a parameter of the model.
\<close>

section \<open>Values\<close>

text \<open>
  Payloads are Python dictionaries decoded from JSON. A dictionary is an association list
  read with \<open>map_of\<close>: \<open>key in d\<close> is \<open>map_of d key \<noteq> None\<close> and
  \<open>d.get(key, default)\<close> is a case distinction on \<open>map_of d key\<close>. A float is kept
  as mantissa and exponent; only whether it is zero is ever read.
\<close>

datatype jval =
    JNull
  | JBool bool
  | JInt int
  | JFloat int int
  | JStr string
  | JArr "jval list"
  | JObj "(string \<times> jval) list"

type_synonym payload = "(string \<times> jval) list"

text \<open>Python truth value of a decoded JSON value (\<open>if keyword:\<close>).\<close>

fun truthy :: "jval \<Rightarrow> bool" where
  "truthy JNull = False"
| "truthy (JBool b) = b"
| "truthy (JInt i) = (i \<noteq> 0)"
| "truthy (JFloat m e) = (m \<noteq> 0)"
| "truthy (JStr s) = (s \<noteq> [])"
| "truthy (JArr xs) = (xs \<noteq> [])"
| "truthy (JObj kvs) = (kvs \<noteq> [])"

text \<open>Whether a value can be a dictionary key: lists and dictionaries are unhashable.\<close>

fun hashable :: "jval \<Rightarrow> bool" where
  "hashable (JArr xs) = False"
| "hashable (JObj kvs) = False"
| "hashable v = True"

section \<open>Locator tables (actions/locators.py)\<close>

text \<open>
  A locator table is a nested dictionary whose leaves are strings. \<open>SHOPEE_ID\<close> is the
  table of the Indonesian site, the only complete one; the other five sites carry a
  \<open>base_url\<close> only.
\<close>

datatype lval = LStr string | LDict "(string \<times> lval) list"

type_synonym locators = "(string \<times> lval) list"

definition SHOPEE_ID :: locators where
  "SHOPEE_ID =
    [(''base_url'', LStr ''https://seller.shopee.co.id''),
     (''login_url'', LStr ''https://seller.shopee.co.id/account/signin''),
     (''login_check'', LDict
       [(''logged_in'', LStr ''css:.navbar-username''),
        (''login_form'', LStr ''css:input[name='loginKey']'')]),
     (''ads_center'', LDict
       [(''entry_url'', LStr ''https://seller.shopee.co.id/portal/marketing/pas/assembly''),
        (''summary_section'', LStr ''css:.ads-summary, .marketing-summary''),
        (''total_spend'', LStr ''css:[data-testid='total-spend'], .spend-value''),
        (''total_impressions'', LStr ''css:[data-testid='impressions'], .impressions-value''),
        (''total_clicks'', LStr ''css:[data-testid='clicks'], .clicks-value''),
        (''total_orders'', LStr ''css:[data-testid='orders'], .orders-value''),
        (''roas'', LStr ''css:[data-testid='roas'], .roas-value''),
        (''date_picker'', LStr ''css:.date-range-picker, [data-testid='date-picker']''),
        (''date_today'', LStr ''css:button:has-text('Hari ini'), button:has-text('Today')''),
        (''date_7days'', LStr ''css:button:has-text('7 hari'), button:has-text('7 days')''),
        (''date_30days'', LStr ''css:button:has-text('30 hari'), button:has-text('30 days')'')]),
     (''product_list'', LDict
       [(''entry_url'', LStr ''https://seller.shopee.co.id/portal/product/list/all''),
        (''search_input'', LStr ''css:input[placeholder*='Cari'], input[placeholder*='Search']''),
        (''search_button'', LStr ''css:button[type='submit'], .search-btn''),
        (''product_table'', LStr ''css:.product-table, table''),
        (''product_row'', LStr ''css:.product-row, tr.product-item''),
        (''product_name'', LStr ''css:.product-name, .product-title''),
        (''product_sku'', LStr ''css:.product-sku''),
        (''product_price'', LStr ''css:.product-price''),
        (''product_stock'', LStr ''css:.product-stock''),
        (''edit_btn'', LStr ''css:button:has-text('Ubah'), button:has-text('Edit')''),
        (''more_actions_btn'', LStr ''css:.more-actions, .dropdown-toggle'')]),
     (''product_edit'', LDict
       [(''title_input'', LStr
          ''css:input[name='name'], input[placeholder*='Nama produk'], textarea[name='name']''),
        (''description_textarea'', LStr
          ''css:textarea[name='description'], .product-description textarea''),
        (''price_input'', LStr ''css:input[name='price'], input[type='number'][placeholder*='Harga']''),
        (''stock_input'', LStr ''css:input[name='stock'], input[type='number'][placeholder*='Stok']''),
        (''sku_input'', LStr ''css:input[name='sku']''),
        (''save_btn'', LStr
          ''css:button:has-text('Simpan'), button:has-text('Save'), button[type='submit']''),
        (''save_and_publish_btn'', LStr ''css:button:has-text('Simpan & Tampilkan')''),
        (''cancel_btn'', LStr ''css:button:has-text('Batal'), button:has-text('Cancel')''),
        (''success_toast'', LStr
          ''css:.toast-success, [role='alert']:has-text('Berhasil'), .ant-message-success''),
        (''error_toast'', LStr
          ''css:.toast-error, [role='alert']:has-text('Gagal'), .ant-message-error'')]),
     (''order_list'', LDict
       [(''entry_url'', LStr ''https://seller.shopee.co.id/portal/sale/order''),
        (''tab_all'', LStr ''css:[data-tab='all']''),
        (''tab_pending'', LStr ''css:[data-tab='toship']''),
        (''tab_shipping'', LStr ''css:[data-tab='shipping']''),
        (''tab_completed'', LStr ''css:[data-tab='completed']''),
        (''order_table'', LStr ''css:.order-table, table''),
        (''order_row'', LStr ''css:.order-row, tr.order-item''),
        (''order_id'', LStr ''css:.order-id''),
        (''order_status'', LStr ''css:.order-status''),
        (''order_total'', LStr ''css:.order-total'')])]"

definition SHOPEE_MY :: locators where
  "SHOPEE_MY = [(''base_url'', LStr ''https://seller.shopee.com.my'')]"

definition SHOPEE_TH :: locators where
  "SHOPEE_TH = [(''base_url'', LStr ''https://seller.shopee.co.th'')]"

definition SHOPEE_VN :: locators where
  "SHOPEE_VN = [(''base_url'', LStr ''https://banhang.shopee.vn'')]"

definition SHOPEE_PH :: locators where
  "SHOPEE_PH = [(''base_url'', LStr ''https://seller.shopee.ph'')]"

definition SHOPEE_SG :: locators where
  "SHOPEE_SG = [(''base_url'', LStr ''https://seller.shopee.sg'')]"

definition sites :: "(string \<times> locators) list" where
  "sites =
    [(''id'', SHOPEE_ID), (''my'', SHOPEE_MY), (''th'', SHOPEE_TH),
     (''vn'', SHOPEE_VN), (''ph'', SHOPEE_PH), (''sg'', SHOPEE_SG)]"

text \<open>\<open>get_locators\<close>: \<open>sites.get(site, SHOPEE_ID)\<close>.\<close>

definition get_locators :: "string \<Rightarrow> locators" where
  "get_locators site = (case map_of sites site of None \<Rightarrow> SHOPEE_ID | Some t \<Rightarrow> t)"

datatype By = CSS_SELECTOR | XPATH | ID | NAME

type_synonym locator = "By \<times> string"

text \<open>\<open>parse_locator\<close>: the prefix chain of the source, in its order.\<close>

definition startswith :: "string \<Rightarrow> string \<Rightarrow> bool" where
  "startswith s p = (take (length p) s = p)"

definition parse_locator :: "string \<Rightarrow> locator" where
  "parse_locator locator_str =
    (if startswith locator_str ''css:'' then (CSS_SELECTOR, drop 4 locator_str)
     else if startswith locator_str ''xpath:'' then (XPATH, drop 6 locator_str)
     else if startswith locator_str ''id:'' then (ID, drop 3 locator_str)
     else if startswith locator_str ''name:'' then (NAME, drop 5 locator_str)
     else (CSS_SELECTOR, locator_str))"

text \<open>
  The exceptions of the model. The first three are raised outside the process, by the
  automation driver, by the store client and by the file system, and carry the text the
  environment gives them; the others are raised by the Python code itself:
  \<open>TypeError\<close>, \<open>AttributeError\<close>, \<open>KeyError\<close>, the \<open>ValueError\<close> of
  \<open>get_action_class\<close> for an unknown name, and the \<open>Exception\<close> of \<open>execute_task\<close>
  for a shop without a browser.
\<close>

datatype exn =
    Driver_error string
  | Store_error string
  | Os_error string
  | Type_error string
  | Attribute_error string
  | Key_error string
  | Unknown_action string
  | No_browser string

text \<open>
  Whether \<open>str(e)\<close> is a non-empty string. An exception raised outside the process may
  carry an empty text; the texts of the exceptions the Python code raises are never empty.
\<close>

fun has_text :: "exn \<Rightarrow> bool" where
  "has_text (Driver_error s) = (s \<noteq> [])"
| "has_text (Store_error s) = (s \<noteq> [])"
| "has_text (Os_error s) = (s \<noteq> [])"
| "has_text e = True"

text \<open>
  \<open>BaseAction.loc\<close>: walk the table along the keys with \<open>config.get(key, {})\<close>; a
  string reached before the keys are used up has no \<open>get\<close> and raises. A string at the
  end is parsed, anything else gives \<open>None\<close>.
\<close>

fun loc_walk :: "lval \<Rightarrow> string list \<Rightarrow> exn + lval" where
  "loc_walk config [] = Inr config"
| "loc_walk (LDict d) (key # keys) =
     loc_walk (case map_of d key of None \<Rightarrow> LDict [] | Some v \<Rightarrow> v) keys"
| "loc_walk (LStr s) (key # keys) = Inl (Attribute_error ''get'')"

definition loc :: "locators \<Rightarrow> string list \<Rightarrow> exn + locator option" where
  "loc locators keys =
    (case loc_walk (LDict locators) keys of
       Inl e \<Rightarrow> Inl e
     | Inr (LStr s) \<Rightarrow> Inr (Some (parse_locator s))
     | Inr (LDict d) \<Rightarrow> Inr None)"

text \<open>\<open>self.locators.get(section, {}).get(key)\<close>, as the actions read an entry URL.\<close>

definition section_get :: "locators \<Rightarrow> string \<Rightarrow> string \<Rightarrow> exn + lval option" where
  "section_get locators sec key =
    (case map_of locators sec of
       None \<Rightarrow> Inr None
     | Some (LDict d) \<Rightarrow> Inr (map_of d key)
     | Some (LStr s) \<Rightarrow> Inl (Attribute_error ''get''))"

fun lval_truthy :: "lval option \<Rightarrow> bool" where
  "lval_truthy None = False"
| "lval_truthy (Some (LStr s)) = (s \<noteq> [])"
| "lval_truthy (Some (LDict d)) = (d \<noteq> [])"

section \<open>Outcomes (core/browser_controller.py, ActionResult)\<close>

text \<open>
  The messages of the source are Chinese string literals and f-strings. Each literal is one
  constructor of \<open>message\<close>, and each value an f-string interpolates is a field of its
  constructor: \<open>Missing_field f\<close> is the message of \<open>_validate_payload\<close> that ends with
  the field name \<open>f\<close>, and \<open>Exception_text e\<close> is \<open>str(e)\<close>.
\<close>

datatype message =
    Missing_field string
  | Dry_run_note
  | Cannot_open_product_list
  | Search_failed jval
  | Product_not_found jval
  | Cannot_update_title_field
  | Save_button_not_configured
  | Cannot_click_save
  | Save_succeeded
  | Save_failed_with "string option"
  | Save_done_no_toast
  | Ads_url_not_configured
  | Cannot_navigate_to "lval option"
  | Cannot_extract_ads_data
  | No_products_found
  | Title_unavailable
  | Exception_text exn

text \<open>
  The truth value of a message (\<open>if error:\<close>): every literal and every f-string of the
  source is non-empty, so only the text of an exception can be empty.
\<close>

fun message_truthy :: "message \<Rightarrow> bool" where
  "message_truthy (Exception_text e) = has_text e"
| "message_truthy m = True"

text \<open>
  A screenshot path: the name handed to \<open>screenshot\<close> and the timestamp that the file
  name carries. It is never an empty string.
\<close>

datatype path = Png string nat

text \<open>
  One entry of the \<open>products\<close> list of a snapshot. The key \<open>status\<close> is always
  \<open>None\<close> and is left out; \<open>p_product_id\<close> is \<open>None\<close> when the key is absent.
\<close>

record product =
  p_index :: nat
  p_name :: "string option"
  p_sku :: "string option"
  p_price :: "string option"
  p_stock :: "string option"
  p_product_id :: "string option option"

text \<open>
  \<open>_parse_number\<close> works on floats and is not modelled: a metric is kept as the text
  that was read, under the constructor \<open>Parse_number\<close>.
\<close>

datatype number = Parse_number string

datatype dval =
    DJson jval
  | DMsg message
  | DText string
  | DCount nat
  | DProducts "product list"
  | DMetrics "(string \<times> number) list"

record ActionResult =
  ok :: bool
  action :: string
  data :: "(string \<times> dval) list option"
  error_code :: "string option"
  error_message :: "message option"
  evidence :: "(string \<times> path option) list option"
  timing_ms :: "int option"

definition succeeded :: "string \<Rightarrow> (string \<times> dval) list \<Rightarrow> ActionResult" where
  "succeeded a d =
    \<lparr>ok = True, action = a, data = Some d, error_code = None, error_message = None,
     evidence = None, timing_ms = None\<rparr>"

definition failed :: "string \<Rightarrow> string \<Rightarrow> message \<Rightarrow> ActionResult" where
  "failed a c m =
    \<lparr>ok = False, action = a, data = None, error_code = Some c, error_message = Some m,
     evidence = None, timing_ms = None\<rparr>"

text \<open>The field \<open>extra\<close> of the context is never read and is left out.\<close>

record ActionContext =
  task_id :: string
  run_id :: string
  shop_id :: string
  site :: string
  dry_run :: bool

section \<open>The world outside the process\<close>

text \<open>
  Every call that leaves the process is an event, appended to the history when the call is
  issued: the calls of a page session (tagged with the controller object that issues them),
  the start call of the session provider, and the writes of the store. Timeouts and sleeps
  are not part of an event.
\<close>

type_synonym element = nat

datatype keys = Key_return | Key_text jval

datatype call =
    Navigate "lval option"
  | Wait_for_element locator
  | Wait_and_click locator
  | Safe_send_keys locator jval
  | Get_text locator
  | Screenshot string
  | Execute_script string
  | Check_element_exists locator
  | Scroll_to_element locator
  | Send_keys element keys
  | Find_elements locator
  | Page_source

datatype TaskStatus = QUEUED | RUNNING | SUCCESS | FAILED

datatype ArtifactType = BEFORE | AFTER | ERROR | TRACE

datatype task_error = Code_and_message "string option" "message option" | Str_of exn

text \<open>
  The truth value of the error text of a task: \<open>Code_and_message\<close> is the f-string
  that joins the error code and the message with a colon, \<open>Str_of e\<close> is \<open>str(e)\<close>.
\<close>

fun error_truthy :: "task_error \<Rightarrow> bool" where
  "error_truthy (Code_and_message code msg) = True"
| "error_truthy (Str_of e) = has_text e"

datatype run_result = Empty_result | Result_of ActionResult

datatype event =
    Page nat call
  | Start_browser string bool
  | Create_controller int string
  | Connect nat
  | Update_task_status string TaskStatus "task_error option"
  | Create_run string string string
  | Complete_run string run_result "message option"
  | Save_artifact string ArtifactType path

text \<open>What one row of a product listing shows: a field is \<open>None\<close> when reading it raised.\<close>

record row =
  row_name :: "string option"
  row_sku :: "string option"
  row_price :: "string option"
  row_stock :: "string option"
  row_product_id :: "string option option"

datatype start_reply =
    Started int "string option" "jval option" "string option"
  | Start_failed string

text \<open>
  The environment answers each call from the history so far and the call itself, so the
  same call may be answered differently at different times. \<open>bool_reply\<close> answers the
  calls that return a truth value and swallow every exception (navigate, click, type,
  scroll, connect); \<open>unit_reply\<close> the calls that return nothing useful but may raise.
\<close>

record env =
  bool_reply :: "event list \<Rightarrow> event \<Rightarrow> bool"
  text_reply :: "event list \<Rightarrow> event \<Rightarrow> string option"
  element_reply :: "event list \<Rightarrow> event \<Rightarrow> exn + element option"
  exists_reply :: "event list \<Rightarrow> event \<Rightarrow> exn + bool"
  unit_reply :: "event list \<Rightarrow> event \<Rightarrow> exn option"
  shot_reply :: "event list \<Rightarrow> event \<Rightarrow> exn + nat"
  rows_reply :: "event list \<Rightarrow> event \<Rightarrow> exn + row list"
  start_browser_reply :: "event list \<Rightarrow> event \<Rightarrow> start_reply"
  uuid4 :: "event list \<Rightarrow> string"
  elapsed_ms :: "event list \<Rightarrow> int"

record task_row =
  t_id :: string
  t_shop_id :: string
  t_action :: string
  t_payload :: "payload option"
  t_status :: TaskStatus
  t_priority :: int
  t_dry_run :: bool
  t_created_at :: nat
  t_error :: "task_error option"

record run_row =
  r_id :: string
  r_task_id :: string
  r_worker_id :: string
  r_result :: "run_result option"
  r_error :: "message option"

record artifact_row =
  a_id :: string
  a_run_id :: string
  a_type :: ArtifactType
  a_url :: path

record world =
  events :: "event list"
  agent_tasks :: "task_row list"
  agent_runs :: "run_row list"
  agent_artifacts :: "artifact_row list"

text \<open>
  A computation takes the world and returns the new world with either a value or the
  exception that was raised.
\<close>

type_synonym 'a comp = "world \<Rightarrow> (exn + 'a) \<times> world"

definition return_ex :: "'a \<Rightarrow> 'a comp" where
  "return_ex x w = (Inr x, w)"

definition raise_ex :: "exn \<Rightarrow> 'a comp" where
  "raise_ex e w = (Inl e, w)"

definition bind_ex :: "'a comp \<Rightarrow> ('a \<Rightarrow> 'b comp) \<Rightarrow> 'b comp" where
  "bind_ex m f w = (case m w of (Inl e, w') \<Rightarrow> (Inl e, w') | (Inr x, w') \<Rightarrow> f x w')"

definition of_sum :: "exn + 'a \<Rightarrow> 'a comp" where
  "of_sum r w = (r, w)"

definition issue :: "event \<Rightarrow> world \<Rightarrow> world" where
  "issue ev w = w\<lparr>events := events w @ [ev]\<rparr>"

definition total :: "(world \<Rightarrow> 'a \<times> world) \<Rightarrow> 'a comp" where
  "total m w = (case m w of (x, w') \<Rightarrow> (Inr x, w'))"

definition ask :: "(event list \<Rightarrow> event \<Rightarrow> 'a) \<Rightarrow> event \<Rightarrow> world \<Rightarrow> 'a \<times> world" where
  "ask reply ev w = (reply (events w) ev, issue ev w)"

definition raised :: "exn option \<Rightarrow> exn + unit" where
  "raised r = (case r of None \<Rightarrow> Inr () | Some e \<Rightarrow> Inl e)"

section \<open>Page session (core/browser_controller.py)\<close>

record BrowserController =
  obj :: nat
  debugging_port :: int
  core_version :: string

definition navigate :: "env \<Rightarrow> BrowserController \<Rightarrow> lval option \<Rightarrow> bool comp" where
  "navigate E c url = total (ask (bool_reply E) (Page (obj c) (Navigate url)))"

definition wait_for_element :: "env \<Rightarrow> BrowserController \<Rightarrow> locator \<Rightarrow> element option comp" where
  "wait_for_element E c l = ask (element_reply E) (Page (obj c) (Wait_for_element l))"

definition wait_and_click :: "env \<Rightarrow> BrowserController \<Rightarrow> locator \<Rightarrow> bool comp" where
  "wait_and_click E c l = total (ask (bool_reply E) (Page (obj c) (Wait_and_click l)))"

definition safe_send_keys :: "env \<Rightarrow> BrowserController \<Rightarrow> locator \<Rightarrow> jval \<Rightarrow> bool comp" where
  "safe_send_keys E c l txt = total (ask (bool_reply E) (Page (obj c) (Safe_send_keys l txt)))"

definition get_text :: "env \<Rightarrow> BrowserController \<Rightarrow> locator \<Rightarrow> string option comp" where
  "get_text E c l = total (ask (text_reply E) (Page (obj c) (Get_text l)))"

definition screenshot :: "env \<Rightarrow> BrowserController \<Rightarrow> string \<Rightarrow> path comp" where
  "screenshot E c nm =
    bind_ex (ask (shot_reply E) (Page (obj c) (Screenshot nm))) (\<lambda>stamp. return_ex (Png nm stamp))"

definition screenshot_evidence :: "env \<Rightarrow> BrowserController \<Rightarrow> string \<Rightarrow> string \<Rightarrow> path comp" where
  "screenshot_evidence E c run stage = screenshot E c (run @ ''_'' @ stage)"

definition execute_script :: "env \<Rightarrow> BrowserController \<Rightarrow> string \<Rightarrow> unit comp" where
  "execute_script E c script w =
    (case ask (unit_reply E) (Page (obj c) (Execute_script script)) w of (r, w') \<Rightarrow> (raised r, w'))"

text \<open>
  \<open>execute_script\<close> is declared with the script as its only parameter. A call that passes
  an element as well raises \<open>TypeError\<close> before anything reaches the driver.
\<close>

definition execute_script_with :: "env \<Rightarrow> BrowserController \<Rightarrow> string \<Rightarrow> element \<Rightarrow> unit comp" where
  "execute_script_with E c script el = raise_ex (Type_error ''execute_script'')"

definition check_element_exists :: "env \<Rightarrow> BrowserController \<Rightarrow> locator \<Rightarrow> bool comp" where
  "check_element_exists E c l = ask (exists_reply E) (Page (obj c) (Check_element_exists l))"

definition scroll_to_element :: "env \<Rightarrow> BrowserController \<Rightarrow> locator \<Rightarrow> bool comp" where
  "scroll_to_element E c l = total (ask (bool_reply E) (Page (obj c) (Scroll_to_element l)))"

text \<open>\<open>element.send_keys\<close>, called on an element that \<open>wait_for_element\<close> returned.\<close>

definition element_send_keys :: "env \<Rightarrow> BrowserController \<Rightarrow> element \<Rightarrow> keys \<Rightarrow> unit comp" where
  "element_send_keys E c el k w =
    (case ask (unit_reply E) (Page (obj c) (Send_keys el k)) w of (r, w') \<Rightarrow> (raised r, w'))"

definition find_elements :: "env \<Rightarrow> BrowserController \<Rightarrow> locator \<Rightarrow> row list comp" where
  "find_elements E c l = ask (rows_reply E) (Page (obj c) (Find_elements l))"

definition page_source :: "env \<Rightarrow> BrowserController \<Rightarrow> unit comp" where
  "page_source E c w =
    (case ask (unit_reply E) (Page (obj c) Page_source) w of (r, w') \<Rightarrow> (raised r, w'))"

section \<open>Store (core/supabase_store.py)\<close>

text \<open>
  The three tables are lists of rows. The task table and the run table are taken to be
  reliable: their operations are total updates. Of the store only the insert of an
  artifact record may raise, and then it inserts nothing; this is the failure of evidence
  persistence that the template method has to be judged against. \<open>update_task_status\<close>
  and \<open>complete_run\<close> write the error column only \<open>if error:\<close>, that is when an error
  text is given and is not empty. Timestamp columns other than \<open>created_at\<close> are left
  out.
\<close>

definition update_task_status ::
  "string \<Rightarrow> TaskStatus \<Rightarrow> task_error option \<Rightarrow> world \<Rightarrow> world" where
  "update_task_status tid st err w =
    (issue (Update_task_status tid st err) w)
      \<lparr>agent_tasks :=
         map (\<lambda>t. if t_id t = tid
                   then t\<lparr>t_status := st,
                          t_error := (case err of
                                        None \<Rightarrow> t_error t
                                      | Some e \<Rightarrow>
                                          if error_truthy e then Some e else t_error t)\<rparr>
                   else t)
             (agent_tasks w)\<rparr>"

definition create_run :: "env \<Rightarrow> string \<Rightarrow> string \<Rightarrow> world \<Rightarrow> string \<times> world" where
  "create_run E tid wid w =
    (let rid = uuid4 E (events w)
     in (rid,
         (issue (Create_run rid tid wid) w)
           \<lparr>agent_runs := agent_runs w @
              [\<lparr>r_id = rid, r_task_id = tid, r_worker_id = wid,
                r_result = None, r_error = None\<rparr>]\<rparr>))"

definition complete_run :: "string \<Rightarrow> run_result \<Rightarrow> message option \<Rightarrow> world \<Rightarrow> world" where
  "complete_run rid res err w =
    (issue (Complete_run rid res err) w)
      \<lparr>agent_runs :=
         map (\<lambda>r. if r_id r = rid
                   then r\<lparr>r_result := Some res,
                          r_error := (case err of
                                        None \<Rightarrow> r_error r
                                      | Some m \<Rightarrow>
                                          if message_truthy m then Some m else r_error r)\<rparr>
                   else r)
             (agent_runs w)\<rparr>"

definition save_artifact_record :: "env \<Rightarrow> string \<Rightarrow> ArtifactType \<Rightarrow> path \<Rightarrow> unit comp" where
  "save_artifact_record E run ty local_path w =
    (let artifact_id = uuid4 E (events w);
         ev = Save_artifact run ty local_path
     in case unit_reply E (events w) ev of
          Some e \<Rightarrow> (Inl e, issue ev w)
        | None \<Rightarrow>
            (Inr (),
             (issue ev w)
               \<lparr>agent_artifacts := agent_artifacts w @
                  [\<lparr>a_id = artifact_id, a_run_id = run, a_type = ty, a_url = local_path\<rparr>]\<rparr>))"

text \<open>
  \<open>get_next_task\<close>: the rows with status \<open>queued\<close>, ordered by priority descending and
  then by \<open>created_at\<close> ascending, limited to one. The payload column is decoded, an empty
  column giving the empty dictionary.
\<close>

definition get_next_task :: "world \<Rightarrow> task_row option" where
  "get_next_task w =
    (case sort_key (\<lambda>t. (- t_priority t, t_created_at t))
            (filter (\<lambda>t. t_status t = QUEUED) (agent_tasks w)) of
       [] \<Rightarrow> None
     | t # ts \<Rightarrow> Some (t\<lparr>t_payload := Some (case t_payload t of None \<Rightarrow> [] | Some pl \<Rightarrow> pl)\<rparr>))"

section \<open>Actions\<close>

subsection \<open>BaseAction helpers (actions/base_action.py)\<close>

fun validate_payload :: "payload \<Rightarrow> string list \<Rightarrow> message option" where
  "validate_payload pl [] = None"
| "validate_payload pl (field # required_fields) =
     (if map_of pl field = None then Some (Missing_field field)
      else validate_payload pl required_fields)"

text \<open>\<open>payload[key]\<close> raises \<open>KeyError\<close> on an absent key.\<close>

definition subscript :: "payload \<Rightarrow> string \<Rightarrow> exn + jval" where
  "subscript pl key = (case map_of pl key of None \<Rightarrow> Inl (Key_error key) | Some v \<Rightarrow> Inr v)"

definition get_or :: "payload \<Rightarrow> string \<Rightarrow> jval \<Rightarrow> jval" where
  "get_or pl key dflt = (case map_of pl key of None \<Rightarrow> dflt | Some v \<Rightarrow> v)"

subsection \<open>update_title (actions/update_title.py)\<close>

definition UpdateTitleAction_search_product ::
  "env \<Rightarrow> BrowserController \<Rightarrow> locators \<Rightarrow> jval \<Rightarrow> bool comp" where
  "UpdateTitleAction_search_product E c locs keyword =
    bind_ex (of_sum (loc locs [''product_list'', ''search_input''])) (\<lambda>search_input_loc.
    bind_ex (of_sum (loc locs [''product_list'', ''search_button''])) (\<lambda>search_btn_loc.
      case search_input_loc of
        None \<Rightarrow> return_ex False
      | Some inp \<Rightarrow>
          bind_ex (safe_send_keys E c inp keyword) (\<lambda>sent.
            if \<not> sent then return_ex False
            else
              bind_ex
                (case search_btn_loc of
                   Some btn \<Rightarrow> bind_ex (wait_and_click E c btn) (\<lambda>clicked. return_ex ())
                 | None \<Rightarrow>
                     bind_ex (wait_for_element E c inp) (\<lambda>found.
                       case found of
                         None \<Rightarrow> return_ex ()
                       | Some el \<Rightarrow> element_send_keys E c el Key_return))
                (\<lambda>u. return_ex True))))"

definition click_edit_button :: "env \<Rightarrow> BrowserController \<Rightarrow> locators \<Rightarrow> dval option comp" where
  "click_edit_button E c locs =
    bind_ex (of_sum (loc locs [''product_list'', ''product_name''])) (\<lambda>product_name_loc.
    bind_ex
      (case product_name_loc of
         None \<Rightarrow> return_ex None
       | Some l \<Rightarrow> get_text E c l) (\<lambda>old_title.
    bind_ex (of_sum (loc locs [''product_list'', ''edit_btn''])) (\<lambda>edit_btn_loc.
      case edit_btn_loc of
        None \<Rightarrow> return_ex None
      | Some btn \<Rightarrow>
          bind_ex (wait_and_click E c btn) (\<lambda>clicked.
            if \<not> clicked then return_ex None
            else return_ex
              (Some (case old_title of
                       None \<Rightarrow> DMsg Title_unavailable
                     | Some t \<Rightarrow> if t = [] then DMsg Title_unavailable else DText t))))))"

definition script_clear_value :: string where
  "script_clear_value = ''arguments[0].value = '' @ [CHR 0x27, CHR 0x27] @ '';''"

definition script_input_event :: string where
  "script_input_event =
    ''arguments[0].dispatchEvent(new Event('input', { bubbles: true }));''"

definition script_scroll_bottom :: string where
  "script_scroll_bottom = ''window.scrollTo(0, document.body.scrollHeight);''"

definition update_title_field ::
  "env \<Rightarrow> BrowserController \<Rightarrow> locators \<Rightarrow> jval \<Rightarrow> bool comp" where
  "update_title_field E c locs new_title =
    bind_ex (of_sum (loc locs [''product_edit'', ''title_input''])) (\<lambda>title_input_loc.
      case title_input_loc of
        None \<Rightarrow> return_ex False
      | Some l \<Rightarrow>
          bind_ex (wait_for_element E c l) (\<lambda>found.
            case found of
              None \<Rightarrow> return_ex False
            | Some el \<Rightarrow>
                bind_ex (scroll_to_element E c l) (\<lambda>scrolled.
                bind_ex (execute_script_with E c script_clear_value el) (\<lambda>u1.
                bind_ex (element_send_keys E c el (Key_text new_title)) (\<lambda>u2.
                bind_ex (execute_script_with E c script_input_event el) (\<lambda>u3.
                  return_ex True))))))"

definition click_save :: "env \<Rightarrow> BrowserController \<Rightarrow> locators \<Rightarrow> (bool \<times> message) comp" where
  "click_save E c locs =
    bind_ex (of_sum (loc locs [''product_edit'', ''save_btn''])) (\<lambda>save_btn_loc.
      case save_btn_loc of
        None \<Rightarrow> return_ex (False, Save_button_not_configured)
      | Some btn \<Rightarrow>
          bind_ex (execute_script E c script_scroll_bottom) (\<lambda>u.
          bind_ex (wait_and_click E c btn) (\<lambda>clicked.
            if \<not> clicked then return_ex (False, Cannot_click_save)
            else
              bind_ex (of_sum (loc locs [''product_edit'', ''success_toast''])) (\<lambda>success_toast_loc.
              bind_ex (of_sum (loc locs [''product_edit'', ''error_toast''])) (\<lambda>error_toast_loc.
              bind_ex
                (case success_toast_loc of
                   None \<Rightarrow> return_ex False
                 | Some l \<Rightarrow> check_element_exists E c l) (\<lambda>success_shown.
                if success_shown then return_ex (True, Save_succeeded)
                else
                  bind_ex
                    (case error_toast_loc of
                       None \<Rightarrow> return_ex False
                     | Some l \<Rightarrow> check_element_exists E c l) (\<lambda>error_shown.
                    if error_shown
                    then (case error_toast_loc of
                            None \<Rightarrow> return_ex (True, Save_done_no_toast)
                          | Some l \<Rightarrow>
                              bind_ex (get_text E c l) (\<lambda>error_text.
                                return_ex (False, Save_failed_with error_text)))
                    else return_ex (True, Save_done_no_toast))))))))"

definition UpdateTitleAction_do_action ::
  "env \<Rightarrow> BrowserController \<Rightarrow> locators \<Rightarrow> ActionContext \<Rightarrow> payload \<Rightarrow> ActionResult comp" where
  "UpdateTitleAction_do_action E c locs context pl =
    (case validate_payload pl [''product_id'', ''new_title''] of
       Some validation_error \<Rightarrow>
         return_ex (failed ''update_title'' ''VALIDATION_ERROR'' validation_error)
     | None \<Rightarrow>
         bind_ex (of_sum (subscript pl ''product_id'')) (\<lambda>pid.
         bind_ex (of_sum (subscript pl ''new_title'')) (\<lambda>new_title.
           let product_name = get_or pl ''product_name'' pid in
           if dry_run context
           then return_ex
             (succeeded ''update_title''
                [(''product_id'', DJson pid), (''new_title'', DJson new_title),
                 (''dry_run'', DJson (JBool True)), (''message'', DMsg Dry_run_note)])
           else
             bind_ex (of_sum (section_get locs ''product_list'' ''entry_url'')) (\<lambda>product_list_url.
             bind_ex (navigate E c product_list_url) (\<lambda>opened.
               if \<not> opened
               then return_ex (failed ''update_title'' ''NAVIGATION_ERROR'' Cannot_open_product_list)
               else
                 bind_ex (UpdateTitleAction_search_product E c locs product_name) (\<lambda>searched.
                   if \<not> searched
                   then return_ex
                     (failed ''update_title'' ''SEARCH_ERROR'' (Search_failed product_name))
                   else
                     bind_ex (click_edit_button E c locs) (\<lambda>old_title.
                       case old_title of
                         None \<Rightarrow> return_ex
                           (failed ''update_title'' ''PRODUCT_NOT_FOUND'' (Product_not_found pid))
                       | Some before_title \<Rightarrow>
                           bind_ex (update_title_field E c locs new_title) (\<lambda>updated.
                             if \<not> updated
                             then return_ex
                               (failed ''update_title'' ''UPDATE_ERROR'' Cannot_update_title_field)
                             else
                               bind_ex (click_save E c locs) (\<lambda>save_result.
                                 if \<not> fst save_result
                                 then return_ex
                                   (failed ''update_title'' ''SAVE_ERROR'' (snd save_result))
                                 else return_ex
                                   (succeeded ''update_title''
                                      [(''product_id'', DJson pid),
                                       (''before_title'', before_title),
                                       (''after_title'', DJson new_title)]))))))))))"

subsection \<open>fetch_product_snapshot (actions/fetch_product_snapshot.py)\<close>

text \<open>
  \<open>str.strip()\<close> removes the characters for which \<open>str.isspace()\<close> holds. A character
  of the model is a code point below 256; among these the white space is 9 to 13, 28 to
  32, 133 and 160.
\<close>

definition is_space :: "char \<Rightarrow> bool" where
  "is_space ch = ((of_char ch :: nat) \<in> {9, 10, 11, 12, 13, 28, 29, 30, 31, 32, 133, 160})"

definition strip :: "string \<Rightarrow> string" where
  "strip s = rev (dropWhile is_space (rev (dropWhile is_space s)))"

text \<open>\<open>rows[:limit]\<close>: a slice bound must be \<open>None\<close> or an integer (a bool counts as one).\<close>

fun slice_to :: "jval \<Rightarrow> 'a list \<Rightarrow> exn + 'a list" where
  "slice_to JNull xs = Inr xs"
| "slice_to (JInt n) xs =
     Inr (if 0 \<le> n then take (nat n) xs else take (length xs - nat (- n)) xs)"
| "slice_to (JBool b) xs = Inr (take (if b then 1 else 0) xs)"
| "slice_to v xs = Inl (Type_error ''slice'')"

definition FetchProductSnapshotAction_search_product ::
  "env \<Rightarrow> BrowserController \<Rightarrow> locators \<Rightarrow> jval \<Rightarrow> bool comp" where
  "FetchProductSnapshotAction_search_product E c locs keyword =
    bind_ex (of_sum (loc locs [''product_list'', ''search_input''])) (\<lambda>search_input_loc.
      case search_input_loc of
        None \<Rightarrow> return_ex False
      | Some inp \<Rightarrow>
          bind_ex (safe_send_keys E c inp keyword) (\<lambda>sent.
            if \<not> sent then return_ex False
            else
              bind_ex (wait_for_element E c inp) (\<lambda>found.
              bind_ex
                (case found of
                   None \<Rightarrow> return_ex ()
                 | Some el \<Rightarrow> element_send_keys E c el Key_return)
                (\<lambda>u. return_ex True))))"

definition extract_product_from_row :: "row \<Rightarrow> nat \<Rightarrow> product option" where
  "extract_product_from_row r i =
    (case row_name r of
       None \<Rightarrow> None
     | Some t \<Rightarrow>
         if strip t = [] then None
         else Some \<lparr>p_index = i, p_name = Some (strip t),
                    p_sku = map_option strip (row_sku r),
                    p_price = map_option strip (row_price r),
                    p_stock = map_option strip (row_stock r),
                    p_product_id = row_product_id r\<rparr>)"

definition fallback_row_locator :: locator where
  "fallback_row_locator = (CSS_SELECTOR, ''tr[data-product-id], .product-item'')"

definition extract_products ::
  "env \<Rightarrow> BrowserController \<Rightarrow> locators \<Rightarrow> jval \<Rightarrow> product list comp" where
  "extract_products E c locs limit =
    bind_ex (of_sum (loc locs [''product_list'', ''product_row''])) (\<lambda>configured.
      let product_row_loc = (case configured of None \<Rightarrow> fallback_row_locator | Some l \<Rightarrow> l) in
      (\<lambda>w. case find_elements E c product_row_loc w of
              (Inl e, w') \<Rightarrow> (Inr [], w')
            | (Inr rows, w') \<Rightarrow>
                (case slice_to limit rows of
                   Inl e \<Rightarrow> (Inr [], w')
                 | Inr some_rows \<Rightarrow>
                     (Inr (List.map_filter (\<lambda>(i, r). extract_product_from_row r i)
                             (List.enumerate 0 some_rows)), w'))))"

definition FetchProductSnapshotAction_do_action ::
  "env \<Rightarrow> BrowserController \<Rightarrow> locators \<Rightarrow> ActionContext \<Rightarrow> payload \<Rightarrow> ActionResult comp" where
  "FetchProductSnapshotAction_do_action E c locs context pl =
    (let keyword = get_or pl ''keyword'' (JStr []);
         limit = get_or pl ''limit'' (JInt 10)
     in
       bind_ex (of_sum (section_get locs ''product_list'' ''entry_url'')) (\<lambda>product_list_url.
       bind_ex (navigate E c product_list_url) (\<lambda>opened.
         if \<not> opened
         then return_ex
           (failed ''fetch_product_snapshot'' ''NAVIGATION_ERROR'' Cannot_open_product_list)
         else
           bind_ex
             (if truthy keyword
              then FetchProductSnapshotAction_search_product E c locs keyword
              else return_ex False) (\<lambda>searched.
           bind_ex (extract_products E c locs limit) (\<lambda>products.
             if products \<noteq> []
             then return_ex
               (succeeded ''fetch_product_snapshot''
                  [(''keyword'', DJson keyword), (''count'', DCount (length products)),
                   (''products'', DProducts products)])
             else return_ex
               (failed ''fetch_product_snapshot'' ''NO_PRODUCTS'' No_products_found))))))"

subsection \<open>fetch_ads_summary (actions/fetch_ads_summary.py)\<close>

definition range_key_map :: "(string \<times> string) list" where
  "range_key_map =
    [(''today'', ''date_today''), (''7days'', ''date_7days''), (''30days'', ''date_30days'')]"

text \<open>\<open>range_key_map.get(date_range, "date_today")\<close>: an unhashable key raises.\<close>

definition range_key :: "jval \<Rightarrow> exn + string" where
  "range_key date_range =
    (if \<not> hashable date_range then Inl (Type_error ''unhashable'')
     else Inr (case date_range of
                 JStr s \<Rightarrow> (case map_of range_key_map s of None \<Rightarrow> ''date_today'' | Some k \<Rightarrow> k)
               | _ \<Rightarrow> ''date_today''))"

definition select_date_range ::
  "env \<Rightarrow> BrowserController \<Rightarrow> locators \<Rightarrow> jval \<Rightarrow> unit comp" where
  "select_date_range E c locs date_range =
    bind_ex (of_sum (loc locs [''ads_center'', ''date_picker''])) (\<lambda>date_picker_loc.
      case date_picker_loc of
        None \<Rightarrow> return_ex ()
      | Some picker \<Rightarrow>
          bind_ex (wait_and_click E c picker) (\<lambda>opened.
            if \<not> opened then return_ex ()
            else
              bind_ex (of_sum (range_key date_range)) (\<lambda>key.
              bind_ex (of_sum (loc locs [''ads_center'', key])) (\<lambda>range_loc.
                case range_loc of
                  None \<Rightarrow> return_ex ()
                | Some l \<Rightarrow> bind_ex (wait_and_click E c l) (\<lambda>clicked. return_ex ())))))"

definition metric_fields :: "(string \<times> string) list" where
  "metric_fields =
    [(''spend'', ''total_spend''), (''impressions'', ''total_impressions''),
     (''clicks'', ''total_clicks''), (''orders'', ''total_orders''), (''roas'', ''roas'')]"

fun collect_metrics ::
  "env \<Rightarrow> BrowserController \<Rightarrow> locators \<Rightarrow> (string \<times> string) list \<Rightarrow>
   (string \<times> number) list \<Rightarrow> (string \<times> number) list comp" where
  "collect_metrics E c locs [] metrics w = (Inr metrics, w)"
| "collect_metrics E c locs ((metric_name, locator_key) # remaining) metrics w =
     (case loc locs [''ads_center'', locator_key] of
        Inl e \<Rightarrow> (Inl e, w)
      | Inr None \<Rightarrow> collect_metrics E c locs remaining metrics w
      | Inr (Some l) \<Rightarrow>
          (case get_text E c l w of
             (Inl e, w') \<Rightarrow> (Inl e, w')
           | (Inr None, w') \<Rightarrow> collect_metrics E c locs remaining metrics w'
           | (Inr (Some txt), w') \<Rightarrow>
               collect_metrics E c locs remaining
                 (if txt = [] then metrics else metrics @ [(metric_name, Parse_number txt)]) w'))"

text \<open>\<open>_extract_by_fallback\<close> reads the page source, swallows any exception, and returns
  the empty dictionary.\<close>

definition extract_by_fallback ::
  "env \<Rightarrow> BrowserController \<Rightarrow> (string \<times> number) list comp" where
  "extract_by_fallback E c w = (case page_source E c w of (r, w') \<Rightarrow> (Inr [], w'))"

definition extract_summary_data ::
  "env \<Rightarrow> BrowserController \<Rightarrow> locators \<Rightarrow> (string \<times> number) list option comp" where
  "extract_summary_data E c locs =
    bind_ex (collect_metrics E c locs metric_fields []) (\<lambda>metrics.
      if metrics = []
      then bind_ex (extract_by_fallback E c) (\<lambda>metrics'.
             return_ex (if metrics' = [] then None else Some metrics'))
      else return_ex (Some metrics))"

definition FetchAdsSummaryAction_do_action ::
  "env \<Rightarrow> BrowserController \<Rightarrow> locators \<Rightarrow> ActionContext \<Rightarrow> payload \<Rightarrow> ActionResult comp" where
  "FetchAdsSummaryAction_do_action E c locs context pl =
    (let date_range = get_or pl ''date_range'' (JStr ''today'') in
       bind_ex (of_sum (section_get locs ''ads_center'' ''entry_url'')) (\<lambda>ads_url.
         if \<not> lval_truthy ads_url
         then return_ex (failed ''fetch_ads_summary'' ''CONFIG_ERROR'' Ads_url_not_configured)
         else
           bind_ex (navigate E c ads_url) (\<lambda>opened.
             if \<not> opened
             then return_ex
               (failed ''fetch_ads_summary'' ''NAVIGATION_ERROR'' (Cannot_navigate_to ads_url))
             else
               bind_ex (select_date_range E c locs date_range) (\<lambda>u.
               bind_ex (extract_summary_data E c locs) (\<lambda>extracted.
                 case extracted of
                   Some metrics \<Rightarrow> return_ex
                     (succeeded ''fetch_ads_summary''
                        [(''date_range'', DJson date_range), (''metrics'', DMetrics metrics)])
                 | None \<Rightarrow> return_ex
                     (failed ''fetch_ads_summary'' ''DATA_EXTRACTION_ERROR''
                        Cannot_extract_ads_data))))))"

subsection \<open>Registry (actions/__init__.py)\<close>

datatype action_class = FetchAdsSummaryAction | UpdateTitleAction | FetchProductSnapshotAction

definition ACTION_REGISTRY :: "(string \<times> action_class) list" where
  "ACTION_REGISTRY =
    [(''fetch_ads_summary'', FetchAdsSummaryAction),
     (''update_title'', UpdateTitleAction),
     (''fetch_product_snapshot'', FetchProductSnapshotAction)]"

definition get_action_class :: "string \<Rightarrow> exn + action_class" where
  "get_action_class nm =
    (case map_of ACTION_REGISTRY nm of
       None \<Rightarrow> Inl (Unknown_action nm)
     | Some cls \<Rightarrow> Inr cls)"

fun action_name :: "action_class \<Rightarrow> string" where
  "action_name FetchAdsSummaryAction = ''fetch_ads_summary''"
| "action_name UpdateTitleAction = ''update_title''"
| "action_name FetchProductSnapshotAction = ''fetch_product_snapshot''"

fun do_action ::
  "action_class \<Rightarrow> env \<Rightarrow> BrowserController \<Rightarrow> locators \<Rightarrow> ActionContext \<Rightarrow> payload \<Rightarrow>
   ActionResult comp" where
  "do_action FetchAdsSummaryAction = FetchAdsSummaryAction_do_action"
| "do_action UpdateTitleAction = UpdateTitleAction_do_action"
| "do_action FetchProductSnapshotAction = FetchProductSnapshotAction_do_action"

subsection \<open>The template method (BaseAction.execute)\<close>

text \<open>
  \<open>execute\<close> takes the name and the inner \<open>_do_action\<close> of the subclass, the controller,
  and whether a store is attached. The capture before the action stands outside the
  \<open>try\<close>; the capture after it stands inside, so that its exceptions reach the handler as
  those of the inner action do; the capture of the handler is not guarded.
\<close>

definition capture ::
  "env \<Rightarrow> BrowserController \<Rightarrow> string \<Rightarrow> string \<Rightarrow> ArtifactType \<Rightarrow> path comp" where
  "capture E c run stage ty =
    bind_ex (screenshot_evidence E c run stage) (\<lambda>shot.
    bind_ex (save_artifact_record E run ty shot) (\<lambda>u. return_ex shot))"

text \<open>A capture that is taken only when a store is attached.\<close>

definition capture_if ::
  "env \<Rightarrow> BrowserController \<Rightarrow> bool \<Rightarrow> string \<Rightarrow> string \<Rightarrow> ArtifactType \<Rightarrow>
   path option comp" where
  "capture_if E c store run stage ty =
    (if store
     then bind_ex (capture E c run stage ty) (\<lambda>shot. return_ex (Some shot))
     else return_ex None)"

definition try_block ::
  "env \<Rightarrow> (locators \<Rightarrow> ActionContext \<Rightarrow> payload \<Rightarrow> ActionResult comp) \<Rightarrow>
   BrowserController \<Rightarrow> bool \<Rightarrow> path option \<Rightarrow> ActionContext \<Rightarrow> payload \<Rightarrow> ActionResult comp" where
  "try_block E inner c store before_screenshot context pl =
    bind_ex (inner (get_locators (site context)) context pl) (\<lambda>result.
    bind_ex
      (if store \<and> ok result
       then bind_ex (capture E c (run_id context) ''after'' AFTER) (\<lambda>after_screenshot.
              return_ex
                (result\<lparr>evidence :=
                   Some [(''before_png'', before_screenshot),
                         (''after_png'', Some after_screenshot)]\<rparr>))
       else return_ex result) (\<lambda>result'.
      (\<lambda>w. return_ex (result'\<lparr>timing_ms := Some (elapsed_ms E (events w))\<rparr>) w)))"

definition handler ::
  "env \<Rightarrow> string \<Rightarrow> BrowserController \<Rightarrow> bool \<Rightarrow> ActionContext \<Rightarrow> exn \<Rightarrow> ActionResult comp" where
  "handler E a_name c store context e =
    bind_ex (capture_if E c store (run_id context) ''error'' ERROR) (\<lambda>error_screenshot.
      (\<lambda>w. return_ex
         \<lparr>ok = False, action = a_name, data = None, error_code = Some ''EXCEPTION'',
          error_message = Some (Exception_text e),
          evidence = (case error_screenshot of
                        None \<Rightarrow> None
                      | Some shot \<Rightarrow> Some [(''error_png'', Some shot)]),
          timing_ms = Some (elapsed_ms E (events w))\<rparr> w))"

definition execute ::
  "env \<Rightarrow> string \<Rightarrow> (locators \<Rightarrow> ActionContext \<Rightarrow> payload \<Rightarrow> ActionResult comp) \<Rightarrow>
   BrowserController \<Rightarrow> bool \<Rightarrow> ActionContext \<Rightarrow> payload \<Rightarrow> ActionResult comp" where
  "execute E a_name inner c store context pl =
    bind_ex (capture_if E c store (run_id context) ''before'' BEFORE) (\<lambda>before_screenshot.
      (\<lambda>w. case try_block E inner c store before_screenshot context pl w of
              (Inr result, w') \<Rightarrow> (Inr result, w')
            | (Inl e, w') \<Rightarrow> handler E a_name c store context e w'))"

text \<open>An instance of a registered class: its own name and its own \<open>_do_action\<close>.\<close>

definition run_action ::
  "env \<Rightarrow> action_class \<Rightarrow> BrowserController \<Rightarrow> bool \<Rightarrow> ActionContext \<Rightarrow> payload \<Rightarrow>
   ActionResult comp" where
  "run_action E cls c store context pl =
    execute E (action_name cls) (do_action cls E c) c store context pl"

section \<open>Worker (worker.py)\<close>

text \<open>
  \<open>Start_browser\<close> is the start call of the session provider; its reply is what
  \<open>ZiNiaoClient.start_browser\<close> builds a \<open>StartBrowserResult\<close> from: \<open>Started\<close> with
  the debugging port, core type, core version and download path when the status code is
  zero, \<open>Start_failed\<close> with the error text otherwise, also when the call raised.
  \<open>objects\<close> counts the controller objects created so far, and gives each its identity.
\<close>

record Worker =
  worker_id :: string
  shop_browser_map :: "(string \<times> string) list"
  active_browsers :: "(string \<times> BrowserController) list"
  objects :: nat

definition headless :: bool where
  "headless = False"

definition start_browser :: "env \<Rightarrow> string \<Rightarrow> bool \<Rightarrow> world \<Rightarrow> start_reply \<times> world" where
  "start_browser E browser_id hl = ask (start_browser_reply E) (Start_browser browser_id hl)"

text \<open>\<open>result.core_version.split('.')[0] if result.core_version else "131"\<close>.\<close>

definition core_major :: "jval option \<Rightarrow> exn + string" where
  "core_major cv =
    (case cv of
       None \<Rightarrow> Inr ''131''
     | Some v \<Rightarrow>
         if \<not> truthy v then Inr ''131''
         else (case v of
                 JStr s \<Rightarrow> Inr (takeWhile (\<lambda>ch. ch \<noteq> CHR ''.'') s)
               | _ \<Rightarrow> Inl (Attribute_error ''split'')))"

definition get_browser_for_shop ::
  "env \<Rightarrow> string \<Rightarrow> Worker \<Rightarrow> world \<Rightarrow> (exn + BrowserController option) \<times> Worker \<times> world" where
  "get_browser_for_shop E shop wk w =
    (case map_of (active_browsers wk) shop of
       Some c \<Rightarrow> (Inr (Some c), wk, w)
     | None \<Rightarrow>
         (case map_of (shop_browser_map wk) shop of
            None \<Rightarrow> (Inr None, wk, w)
          | Some browser_id \<Rightarrow>
              if browser_id = [] then (Inr None, wk, w)
              else
                (case start_browser E browser_id headless w of
                   (Start_failed err, w1) \<Rightarrow> (Inr None, wk, w1)
                 | (Started port ctype cversion dl, w1) \<Rightarrow>
                     (case core_major cversion of
                        Inl e \<Rightarrow> (Inl e, wk, w1)
                      | Inr major \<Rightarrow>
                          (case ask (unit_reply E) (Create_controller port major) w1 of
                             (Some e, w2) \<Rightarrow> (Inl e, wk, w2)
                           | (None, w2) \<Rightarrow>
                               (let controller =
                                      \<lparr>obj = objects wk, debugging_port = port,
                                       core_version = major\<rparr>;
                                    wk1 = wk\<lparr>objects := Suc (objects wk)\<rparr>
                                in case ask (bool_reply E) (Connect (obj controller)) w2 of
                                     (False, w3) \<Rightarrow> (Inr None, wk1, w3)
                                   | (True, w3) \<Rightarrow>
                                       (Inr (Some controller),
                                        wk1\<lparr>active_browsers :=
                                              active_browsers wk @ [(shop, controller)]\<rparr>,
                                        w3)))))))"

text \<open>
  \<open>payload.get("locale", "id").split("-")[0]\<close>, on the payload the task carries. The
  payload is returned with the site, for the call of \<open>execute\<close> that follows; a task
  whose payload is \<open>None\<close> raises here.
\<close>

definition locale_site :: "payload option \<Rightarrow> exn + string \<times> payload" where
  "locale_site plo =
    (case plo of
       None \<Rightarrow> Inl (Attribute_error ''get'')
     | Some pl \<Rightarrow>
         (case map_of pl ''locale'' of
            None \<Rightarrow> Inr (''id'', pl)
          | Some (JStr s) \<Rightarrow> Inr (takeWhile (\<lambda>ch. ch \<noteq> CHR ''-'') s, pl)
          | Some v \<Rightarrow> Inl (Attribute_error ''split'')))"

text \<open>The \<open>except\<close> branch of \<open>execute_task\<close>.\<close>

definition task_raised :: "string \<Rightarrow> string \<Rightarrow> exn \<Rightarrow> world \<Rightarrow> world" where
  "task_raised tid rid e w =
    update_task_status tid FAILED (Some (Str_of e))
      (complete_run rid Empty_result (Some (Exception_text e)) w)"

definition execute_task :: "env \<Rightarrow> task_row \<Rightarrow> Worker \<Rightarrow> world \<Rightarrow> bool \<times> Worker \<times> world" where
  "execute_task E task wk w =
    (let tid = t_id task; shop = t_shop_id task; a_name = t_action task;
         plo = t_payload task; dry = t_dry_run task;
         w1 = update_task_status tid RUNNING None w;
         (rid, w2) = create_run E tid (worker_id wk) w1
     in case get_browser_for_shop E shop wk w2 of
          (Inl e, wk', w3) \<Rightarrow> (False, wk', task_raised tid rid e w3)
        | (Inr None, wk', w3) \<Rightarrow> (False, wk', task_raised tid rid (No_browser shop) w3)
        | (Inr (Some browser), wk', w3) \<Rightarrow>
            (case get_action_class a_name of
               Inl e \<Rightarrow> (False, wk', task_raised tid rid e w3)
             | Inr cls \<Rightarrow>
                 (case locale_site plo of
                    Inl e \<Rightarrow> (False, wk', task_raised tid rid e w3)
                  | Inr (st, pl) \<Rightarrow>
                      (let context =
                             \<lparr>task_id = tid, run_id = rid, shop_id = shop, site = st,
                              dry_run = dry\<rparr>
                       in case run_action E cls browser True context pl w3 of
                            (Inl e, w4) \<Rightarrow> (False, wk', task_raised tid rid e w4)
                          | (Inr result, w4) \<Rightarrow>
                              (let w5 = complete_run rid (Result_of result)
                                          (if \<not> ok result then error_message result else None) w4
                               in if ok result
                                  then (True, wk', update_task_status tid SUCCESS None w5)
                                  else (False, wk',
                                        update_task_status tid FAILED
                                          (Some (Code_and_message (error_code result)
                                                   (error_message result))) w5))))))"

definition run_once :: "env \<Rightarrow> Worker \<Rightarrow> world \<Rightarrow> bool \<times> Worker \<times> world" where
  "run_once E wk w =
    (case get_next_task w of
       None \<Rightarrow> (False, wk, w)
     | Some task \<Rightarrow> (case execute_task E task wk w of (r, wk', w') \<Rightarrow> (True, wk', w')))"

text \<open>
  \<open>run_loop\<close> calls \<open>run_once\<close> again and again until it is stopped; \<open>run_cycles\<close> is
  its first \<open>n\<close> cycles.
\<close>

fun run_cycles :: "env \<Rightarrow> nat \<Rightarrow> Worker \<Rightarrow> world \<Rightarrow> Worker \<times> world" where
  "run_cycles E 0 wk w = (wk, w)"
| "run_cycles E (Suc n) wk w =
     (case run_once E wk w of (has_task, wk', w') \<Rightarrow> run_cycles E n wk' w')"

section \<open>Traces\<close>

text \<open>
  The events a computation issued are those of the final history beyond the initial one.
  \<open>only m R\<close> says that the world after \<open>m\<close> is always related by \<open>R\<close> to the world
  before it; \<open>page_only n\<close> relates two worlds that differ by calls of the page session
  of controller \<open>n\<close> and by nothing else.
\<close>

definition new_events :: "world \<Rightarrow> world \<Rightarrow> event list" where
  "new_events w w' = drop (length (events w)) (events w')"

definition page_only :: "nat \<Rightarrow> world \<Rightarrow> world \<Rightarrow> bool" where
  "page_only n w w' \<longleftrightarrow> (\<exists>cs. w' = w\<lparr>events := events w @ map (Page n) cs\<rparr>)"

definition only :: "'a comp \<Rightarrow> (world \<Rightarrow> world \<Rightarrow> bool) \<Rightarrow> bool" where
  "only m R \<longleftrightarrow> (\<forall>w. R w (snd (m w)))"

definition preorder_on_worlds :: "(world \<Rightarrow> world \<Rightarrow> bool) \<Rightarrow> bool" where
  "preorder_on_worlds R \<longleftrightarrow> (\<forall>w. R w w) \<and> (\<forall>a b c. R a b \<longrightarrow> R b c \<longrightarrow> R a c)"

text \<open>The calls that write to the page: click, type, key presses and scripts.\<close>

fun mutating :: "call \<Rightarrow> bool" where
  "mutating (Wait_and_click l) = True"
| "mutating (Safe_send_keys l txt) = True"
| "mutating (Send_keys el k) = True"
| "mutating (Execute_script scr) = True"
| "mutating cl = False"

fun mutating_event :: "event \<Rightarrow> bool" where
  "mutating_event (Page n cl) = mutating cl"
| "mutating_event ev = False"

text \<open>The calls of a capture: a screenshot, and the insert of an artifact record.\<close>

fun capture_event :: "event \<Rightarrow> bool" where
  "capture_event (Page n (Screenshot nm)) = True"
| "capture_event (Save_artifact run ty shot) = True"
| "capture_event ev = False"

fun is_page :: "event \<Rightarrow> bool" where
  "is_page (Page n cl) = True"
| "is_page ev = False"

fun is_start_browser :: "event \<Rightarrow> bool" where
  "is_start_browser (Start_browser b hl) = True"
| "is_start_browser ev = False"

fun is_status_write :: "event \<Rightarrow> bool" where
  "is_status_write (Update_task_status tid st err) = True"
| "is_status_write ev = False"

definition extends :: "(event \<Rightarrow> bool) \<Rightarrow> world \<Rightarrow> world \<Rightarrow> bool" where
  "extends P w w' \<longleftrightarrow> (\<exists>es. events w' = events w @ es \<and> list_all P es)"

text \<open>
  A tenant is \<open>mapped\<close> when the table gives it a non-empty identifier;
  \<open>provisioning_calls\<close> counts the start calls a computation issued.
\<close>

definition mapped :: "Worker \<Rightarrow> string \<Rightarrow> bool" where
  "mapped wk shop \<longleftrightarrow> (\<exists>b. map_of (shop_browser_map wk) shop = Some b \<and> b \<noteq> [])"

definition provisioning_calls :: "world \<Rightarrow> world \<Rightarrow> nat" where
  "provisioning_calls w w' = length (filter is_start_browser (new_events w w'))"

text \<open>
  \<open>quiet\<close> relates two worlds that differ by events other than status writes, with the
  task and run tables unchanged. \<open>status_writes\<close> are the status writes a computation
  issued, in order; \<open>status_step\<close> is one step of the task life cycle.
\<close>

definition quiet :: "world \<Rightarrow> world \<Rightarrow> bool" where
  "quiet w w' \<longleftrightarrow>
     agent_tasks w' = agent_tasks w \<and> agent_runs w' = agent_runs w
     \<and> extends (\<lambda>ev. \<not> is_status_write ev) w w'"

fun write_of :: "event \<Rightarrow> (string \<times> TaskStatus) option" where
  "write_of (Update_task_status tid st err) = Some (tid, st)"
| "write_of ev = None"

definition status_writes :: "world \<Rightarrow> world \<Rightarrow> (string \<times> TaskStatus) list" where
  "status_writes w w' = List.map_filter write_of (new_events w w')"

fun status_step :: "TaskStatus \<Rightarrow> TaskStatus \<Rightarrow> bool" where
  "status_step QUEUED RUNNING = True"
| "status_step RUNNING SUCCESS = True"
| "status_step RUNNING FAILED = True"
| "status_step a b = False"

text \<open>
  \<open>action_outcome\<close>: what the \<open>try\<close> statement of \<open>execute_task\<close> computes before
  it writes anything, for a task, a worker and the world in which the task is taken up.
  It is the outcome that the action named by the task returns when the template method
  runs it, with a store attached, on the session of the task's tenant, in the context of
  this task and of the run created for it, and with the task's payload; or the exception
  raised on the way. \<open>finishes\<close>: the final world is reached from a world that is
  \<open>quiet\<close> after the creation of the run by completing the run and writing a terminal
  status.
\<close>

definition action_outcome :: "env \<Rightarrow> task_row \<Rightarrow> Worker \<Rightarrow> world \<Rightarrow> exn + ActionResult" where
  "action_outcome E task wk w =
    (let (rid, w2) = create_run E (t_id task) (worker_id wk)
                       (update_task_status (t_id task) RUNNING None w)
     in case get_browser_for_shop E (t_shop_id task) wk w2 of
          (Inl e, wk', w3) \<Rightarrow> Inl e
        | (Inr None, wk', w3) \<Rightarrow> Inl (No_browser (t_shop_id task))
        | (Inr (Some browser), wk', w3) \<Rightarrow>
            (case get_action_class (t_action task) of
               Inl e \<Rightarrow> Inl e
             | Inr cls \<Rightarrow>
                 (case locale_site (t_payload task) of
                    Inl e \<Rightarrow> Inl e
                  | Inr (st, pl) \<Rightarrow>
                      fst (run_action E cls browser True
                             \<lparr>task_id = t_id task, run_id = rid, shop_id = t_shop_id task,
                              site = st, dry_run = t_dry_run task\<rparr> pl w3))))"

definition finishes :: "string \<Rightarrow> string \<Rightarrow> world \<Rightarrow> world \<Rightarrow> TaskStatus \<Rightarrow> bool" where
  "finishes tid rid w2 w' st \<longleftrightarrow>
    (\<exists>wX res rerr err.
       w' = update_task_status tid st err (complete_run rid res rerr wX)
     \<and> quiet w2 wX
     \<and> (st = SUCCESS \<and> err = None \<or> st = FAILED \<and> err \<noteq> None))"

text \<open>
  \<open>pool_ok\<close>: every tenant with a live session is mapped. It holds when no session is
  live, and every cycle of the worker keeps it.
\<close>

definition pool_ok :: "Worker \<Rightarrow> bool" where
  "pool_ok wk \<longleftrightarrow> (\<forall>s h. map_of (active_browsers wk) s = Some h \<longrightarrow> mapped wk s)"

text \<open>
  \<open>capture_succeeds\<close>: at every moment, the screenshot of the given stage and the insert
  of its artifact record both succeed. \<open>new_artifacts\<close> are the rows a computation added.
\<close>

definition capture_succeeds ::
  "env \<Rightarrow> BrowserController \<Rightarrow> string \<Rightarrow> string \<Rightarrow> ArtifactType \<Rightarrow> bool" where
  "capture_succeeds E c run stage ty \<longleftrightarrow>
    (\<forall>h. (\<exists>stamp. shot_reply E h (Page (obj c) (Screenshot (run @ ''_'' @ stage))) = Inr stamp)
       \<and> (\<forall>shot. unit_reply E h (Save_artifact run ty shot) = None))"

definition new_artifacts :: "world \<Rightarrow> world \<Rightarrow> artifact_row list" where
  "new_artifacts w w' = drop (length (agent_artifacts w)) (agent_artifacts w')"

section \<open>Example inputs\<close>

text \<open>
  An environment in which every call succeeds, a world with empty tables, a controller and
  a context, for evaluating the definitions on concrete inputs.
\<close>

definition shirt_row :: row where
  "shirt_row =
    \<lparr>row_name = Some '' shirt '', row_sku = None, row_price = Some ''1'', row_stock = None,
     row_product_id = Some (Some ''9'')\<rparr>"

definition env_ok :: env where
  "env_ok =
    \<lparr>bool_reply = (\<lambda>h ev. True),
     text_reply = (\<lambda>h ev. Some ''x''),
     element_reply = (\<lambda>h ev. Inr (Some 0)),
     exists_reply = (\<lambda>h ev. Inr True),
     unit_reply = (\<lambda>h ev. None),
     shot_reply = (\<lambda>h ev. Inr (length h)),
     rows_reply = (\<lambda>h ev. Inr [shirt_row]),
     start_browser_reply = (\<lambda>h ev. Started 9222 None (Some (JStr ''131.0.1'')) None),
     uuid4 = (\<lambda>h. ''u''),
     elapsed_ms = (\<lambda>h. 5)\<rparr>"

definition world0 :: world where
  "world0 = \<lparr>events = [], agent_tasks = [], agent_runs = [], agent_artifacts = []\<rparr>"

definition controller0 :: BrowserController where
  "controller0 = \<lparr>obj = 0, debugging_port = 9222, core_version = ''131''\<rparr>"

definition context0 :: ActionContext where
  "context0 = \<lparr>task_id = ''t'', run_id = ''r'', shop_id = ''s'', site = ''id'', dry_run = False\<rparr>"

text \<open>
  Three environments that differ from \<open>env_ok\<close> in the screenshots: one in which every
  screenshot raises, as on a session that has died; one in which only the screenshot
  taken after the action raises; and one in which the session dies after the first call,
  so that only a screenshot taken on an empty history succeeds.
\<close>

definition env_dead_session :: env where
  "env_dead_session = env_ok\<lparr>shot_reply := (\<lambda>h ev. Inl (Driver_error ''no such window''))\<rparr>"

definition env_after_fails :: env where
  "env_after_fails =
    env_ok\<lparr>shot_reply :=
      (\<lambda>h ev. if ev = Page 0 (Screenshot ''r_after'') then Inl (Driver_error ''timeout'')
               else Inr (length h))\<rparr>"

definition env_session_dies :: env where
  "env_session_dies =
    env_ok\<lparr>shot_reply :=
      (\<lambda>h ev. if h = [] then Inr 0 else Inl (Driver_error ''no such window''))\<rparr>"

text \<open>Three queued tasks: t1 and t3 at priority 5, t2 at priority 1, created in this order.\<close>

definition queued_task :: "string \<Rightarrow> int \<Rightarrow> nat \<Rightarrow> task_row" where
  "queued_task tid prio created =
    \<lparr>t_id = tid, t_shop_id = ''shop'', t_action = ''update_title'', t_payload = None,
     t_status = QUEUED, t_priority = prio, t_dry_run = False, t_created_at = created,
     t_error = None\<rparr>"

definition three_tasks :: world where
  "three_tasks =
    world0\<lparr>agent_tasks := [queued_task ''t1'' 5 1, queued_task ''t2'' 1 2, queued_task ''t3'' 5 3]\<rparr>"

text \<open>A worker after \<open>setup\<close>, with one tenant mapped and no live session.\<close>

definition worker0 :: Worker where
  "worker0 =
    \<lparr>worker_id = ''worker-01'', shop_browser_map = [(''shop_a'', ''101'')],
     active_browsers = [], objects = 0\<rparr>"

text \<open>The task that \<open>get_next_task\<close> returns first from \<open>three_tasks\<close>.\<close>

definition task1 :: task_row where
  "task1 = (queued_task ''t1'' 5 1)\<lparr>t_payload := Some []\<rparr>"

section \<open>Properties\<close>

subsection \<open>Sequencing and frames\<close>

lemma bind_return [simp]: "bind_ex (return_ex x) f w = f x w"
  by (simp add: bind_ex_def return_ex_def)

lemma bind_raise [simp]: "bind_ex (raise_ex e) f w = (Inl e, w)"
  by (simp add: bind_ex_def raise_ex_def)

lemma bind_of_sum_Inr [simp]: "bind_ex (of_sum (Inr x)) f w = f x w"
  by (simp add: bind_ex_def of_sum_def)

lemma bind_of_sum_Inl [simp]: "bind_ex (of_sum (Inl e)) f w = (Inl e, w)"
  by (simp add: bind_ex_def of_sum_def)

lemma only_I: "(\<And>w r w'. m w = (r, w') \<Longrightarrow> R w w') \<Longrightarrow> only m R"
  by (metis only_def prod.collapse)

lemma only_D: "only m R \<Longrightarrow> m w = (r, w') \<Longrightarrow> R w w'"
  by (metis only_def snd_conv)

lemma only_return: "preorder_on_worlds R \<Longrightarrow> only (return_ex x) R"
  by (simp add: only_def return_ex_def preorder_on_worlds_def)

lemma only_raise: "preorder_on_worlds R \<Longrightarrow> only (raise_ex x) R"
  by (simp add: only_def raise_ex_def preorder_on_worlds_def)

lemma only_of_sum: "preorder_on_worlds R \<Longrightarrow> only (of_sum x) R"
  by (simp add: only_def of_sum_def preorder_on_worlds_def)

lemma only_bind:
  assumes "preorder_on_worlds R" "only m R" "\<And>x. only (f x) R"
  shows "only (bind_ex m f) R"
proof -
  have "R w (snd (bind_ex m f w))" for w
  proof (cases "m w")
    case (Pair r w1)
    have 1: "R w w1" using assms(2) Pair by (metis only_def snd_conv)
    show ?thesis
    proof (cases r)
      case (Inl e)
      then show ?thesis using Pair 1 by (simp add: bind_ex_def)
    next
      case (Inr x)
      have "R w1 (snd (f x w1))" using assms(3) by (simp add: only_def)
      then show ?thesis using Pair Inr 1 assms(1)
        by (auto simp: bind_ex_def preorder_on_worlds_def)
    qed
  qed
  then show ?thesis by (simp add: only_def)
qed

lemma page_only_preorder: "preorder_on_worlds (page_only n)"
proof -
  have "page_only n w w" for w
    unfolding page_only_def by (rule exI [of _ "[]"]) simp
  moreover have "page_only n a c" if "page_only n a b" "page_only n b c" for a b c
  proof -
    from that obtain cs ds where "b = a\<lparr>events := events a @ map (Page n) cs\<rparr>"
      "c = b\<lparr>events := events b @ map (Page n) ds\<rparr>" unfolding page_only_def by blast
    then have "c = a\<lparr>events := events a @ map (Page n) (cs @ ds)\<rparr>" by simp
    then show ?thesis unfolding page_only_def by blast
  qed
  ultimately show ?thesis unfolding preorder_on_worlds_def by blast
qed

lemma page_only_ask: "page_only n w (snd (ask reply (Page n cl) w))"
  unfolding page_only_def ask_def issue_def by (rule exI [of _ "[cl]"]) simp

lemma only_total_ask: "only (total (ask reply (Page n cl))) (page_only n)"
proof -
  have "snd (total (ask reply (Page n cl)) w) = snd (ask reply (Page n cl) w)" for w
    by (simp add: total_def split: prod.splits)
  then show ?thesis using page_only_ask [of n _ reply cl] by (simp add: only_def)
qed

lemma only_ask: "only (ask reply (Page n cl)) (page_only n)"
  using page_only_ask [of n _ reply cl] by (simp add: only_def)

lemma only_raised_ask:
  "only (\<lambda>w. case ask reply (Page n cl) w of (r, w') \<Rightarrow> (g r, w')) (page_only n)"
proof -
  have "snd (case ask reply (Page n cl) w of (r, w') \<Rightarrow> (g r, w')) = snd (ask reply (Page n cl) w)" for w
    by (simp split: prod.splits)
  then show ?thesis using page_only_ask [of n _ reply cl] by (simp add: only_def)
qed

lemma only_prims:
  "only (navigate E c url) (page_only (obj c))"
  "only (wait_and_click E c l) (page_only (obj c))"
  "only (safe_send_keys E c l txt) (page_only (obj c))"
  "only (get_text E c l) (page_only (obj c))"
  "only (scroll_to_element E c l) (page_only (obj c))"
  "only (wait_for_element E c l) (page_only (obj c))"
  "only (check_element_exists E c l) (page_only (obj c))"
  "only (find_elements E c l) (page_only (obj c))"
  "only (execute_script E c scr) (page_only (obj c))"
  "only (element_send_keys E c el k) (page_only (obj c))"
  "only (page_source E c) (page_only (obj c))"
  "only (execute_script_with E c scr el) (page_only (obj c))"
  unfolding navigate_def wait_and_click_def safe_send_keys_def get_text_def
    scroll_to_element_def wait_for_element_def check_element_exists_def find_elements_def
    execute_script_def element_send_keys_def page_source_def execute_script_with_def
  by (rule only_total_ask only_ask only_raised_ask only_raise [OF page_only_preorder])+

lemmas only_rules =
  only_bind [OF page_only_preorder] only_return [OF page_only_preorder]
  only_raise [OF page_only_preorder] only_of_sum [OF page_only_preorder] only_prims

lemma only_if: "only a R \<Longrightarrow> only b R \<Longrightarrow> only (if p then a else b) R"
  by simp

lemma only_search_ut:
  "only (UpdateTitleAction_search_product E c locs kw) (page_only (obj c))"
  unfolding UpdateTitleAction_search_product_def
  by (intro only_rules only_if allI impI conjI | simp split: option.split)+

lemma only_click_edit: "only (click_edit_button E c locs) (page_only (obj c))"
  unfolding click_edit_button_def
  by (intro only_rules only_if allI impI conjI | simp split: option.split)+

lemma only_update_field: "only (update_title_field E c locs t) (page_only (obj c))"
  unfolding update_title_field_def
  by (intro only_rules only_if allI impI conjI | simp split: option.split)+

lemma only_click_save: "only (click_save E c locs) (page_only (obj c))"
  unfolding click_save_def
  by (intro only_rules only_if allI impI conjI | simp split: option.split)+

lemma only_update_title:
  "only (UpdateTitleAction_do_action E c locs cx pl) (page_only (obj c))"
  unfolding UpdateTitleAction_do_action_def Let_def
  by (intro only_rules only_if only_search_ut only_click_edit only_update_field only_click_save allI impI conjI
      | simp split: option.split)+


lemma only_search_ps:
  "only (FetchProductSnapshotAction_search_product E c locs kw) (page_only (obj c))"
  unfolding FetchProductSnapshotAction_search_product_def
  by (intro only_rules only_if allI impI conjI | simp split: option.split)+

lemma only_weaken: "only m R \<Longrightarrow> (\<And>w w'. R w w' \<Longrightarrow> R' w w') \<Longrightarrow> only m R'"
  by (simp add: only_def)

lemma only_extract_products: "only (extract_products E c locs lim) (page_only (obj c))"
proof -
  have 1: "only (\<lambda>w. case find_elements E c l w of
              (Inl e, w') \<Rightarrow> (Inr [], w')
            | (Inr rows, w') \<Rightarrow>
                (case slice_to lim rows of
                   Inl e \<Rightarrow> (Inr [], w')
                 | Inr some_rows \<Rightarrow>
                     (Inr (List.map_filter (\<lambda>(i, r). extract_product_from_row r i)
                             (List.enumerate 0 some_rows)), w'))) (page_only (obj c))" for l
    unfolding only_def
  proof
    fix w
    have "page_only (obj c) w (snd (find_elements E c l w))"
      using only_prims(8) [of E c l] by (simp add: only_def)
    then show "page_only (obj c) w (snd (case find_elements E c l w of
              (Inl e, w') \<Rightarrow> (Inr [], w')
            | (Inr rows, w') \<Rightarrow>
                (case slice_to lim rows of
                   Inl e \<Rightarrow> (Inr [], w')
                 | Inr some_rows \<Rightarrow>
                     (Inr (List.map_filter (\<lambda>(i, r). extract_product_from_row r i)
                             (List.enumerate 0 some_rows)), w'))))"
      by (auto split: prod.splits sum.splits)
  qed
  show ?thesis
    unfolding extract_products_def Let_def
    by (intro only_rules 1)
qed

lemma only_snapshot:
  "only (FetchProductSnapshotAction_do_action E c locs cx pl) (page_only (obj c))"
  unfolding FetchProductSnapshotAction_do_action_def Let_def
  by (intro only_rules only_if only_search_ps only_extract_products allI impI conjI
      | simp split: option.split)+

lemma page_only_trans: "page_only n a b \<Longrightarrow> page_only n b c \<Longrightarrow> page_only n a c"
  using page_only_preorder [of n] unfolding preorder_on_worlds_def by blast

lemma page_only_refl: "page_only n a a"
  using page_only_preorder [of n] unfolding preorder_on_worlds_def by blast

lemma only_collect_metrics:
  "page_only (obj c) w (snd (collect_metrics E c locs fs acc w))"
proof (induction fs arbitrary: acc w)
  case Nil
  then show ?case by (simp add: page_only_refl)
next
  case (Cons f fs)
  obtain m k where f: "f = (m, k)" by (cases f)
  show ?case
  proof (cases "loc locs [''ads_center'', k]")
    case (Inl e)
    then show ?thesis by (simp add: f page_only_refl)
  next
    case (Inr lo)
    show ?thesis
    proof (cases lo)
      case None
      then show ?thesis using Inr Cons.IH by (simp add: f)
    next
      case (Some l)
      obtain r w1 where g: "get_text E c l w = (r, w1)" by (cases "get_text E c l w")
      have 1: "page_only (obj c) w w1"
        using only_prims(4) [of E c l] g by (metis only_def snd_conv)
      show ?thesis using Inr Some g 1 Cons.IH
        by (auto simp: f split: sum.splits option.splits intro: page_only_trans)
    qed
  qed
qed

lemma only_extract_summary: "only (extract_summary_data E c locs) (page_only (obj c))"
proof -
  have 1: "only (collect_metrics E c locs metric_fields []) (page_only (obj c))"
    by (simp add: only_def only_collect_metrics)
  have 2: "only (extract_by_fallback E c) (page_only (obj c))"
  proof (rule only_I)
    fix w r w' assume "extract_by_fallback E c w = (r, w')"
    then show "page_only (obj c) w w'"
      using only_D [OF only_prims(11), of E c w]
      by (auto simp: extract_by_fallback_def split: prod.splits)
  qed
  show ?thesis
    unfolding extract_summary_data_def
    by (intro only_rules only_if 1 2 allI impI conjI | simp split: option.split)+
qed

lemma only_select_date: "only (select_date_range E c locs d) (page_only (obj c))"
  unfolding select_date_range_def
  by (intro only_rules only_if allI impI conjI | simp split: option.split)+

lemma only_ads:
  "only (FetchAdsSummaryAction_do_action E c locs cx pl) (page_only (obj c))"
  unfolding FetchAdsSummaryAction_do_action_def Let_def
  by (intro only_rules only_if only_select_date only_extract_summary allI impI conjI
      | simp split: option.split)+

lemma only_do_action: "only (do_action cls E c locs cx pl) (page_only (obj c))"
  by (cases cls) (simp_all add: only_ads only_update_title only_snapshot)


lemma extends_preorder: "preorder_on_worlds (extends P)"
proof -
  have "extends P w w" for w
    unfolding extends_def by (rule exI [of _ "[]"]) simp
  moreover have "extends P a c" if "extends P a b" "extends P b c" for a b c
  proof -
    from that obtain es fs where "events b = events a @ es" "list_all P es"
      "events c = events b @ fs" "list_all P fs" unfolding extends_def by blast
    then have "events c = events a @ (es @ fs) \<and> list_all P (es @ fs)" by simp
    then show ?thesis unfolding extends_def by blast
  qed
  ultimately show ?thesis unfolding preorder_on_worlds_def by blast
qed

lemma extends_new_events: "extends P w w' \<Longrightarrow> list_all P (new_events w w')"
  by (auto simp: extends_def new_events_def)

lemma page_only_extends: "page_only n w w' \<Longrightarrow> (\<And>cl. P (Page n cl)) \<Longrightarrow> extends P w w'"
  unfolding page_only_def extends_def by (auto simp: list_all_iff)

lemma only_catch:
  assumes "preorder_on_worlds R" "only m R" "\<And>e. only (h e) R"
  shows "only (\<lambda>w. case m w of (Inr r, w') \<Rightarrow> (Inr r, w') | (Inl e, w') \<Rightarrow> h e w') R"
proof (rule only_I)
  fix w r w'
  assume a: "(case m w of (Inr r, w') \<Rightarrow> (Inr r, w') | (Inl e, w') \<Rightarrow> h e w') = (r, w')"
  obtain r1 w1 where m: "m w = (r1, w1)" by (cases "m w")
  have 1: "R w w1" using only_D [OF assms(2) m] .
  show "R w w'"
  proof (cases r1)
    case (Inl e)
    then have "h e w1 = (r, w')" using a m by simp
    then have "R w1 w'" using only_D [OF assms(3)] by blast
    then show ?thesis using 1 assms(1) unfolding preorder_on_worlds_def by blast
  next
    case (Inr x)
    then show ?thesis using a m 1 by simp
  qed
qed

lemma only_reader: "preorder_on_worlds R \<Longrightarrow> only (\<lambda>w. return_ex (g w) w) R"
  by (simp add: only_def return_ex_def preorder_on_worlds_def)

lemma only_execute:
  assumes R: "preorder_on_worlds R"
    and cap: "\<And>stage ty. only (capture E c (run_id cx) stage ty) R"
    and inner: "only (inner (get_locators (site cx)) cx pl) R"
  shows "only (execute E a inner c st cx pl) R"
proof -
  note rules = only_bind [OF R] only_return [OF R] only_catch [OF R] only_reader [OF R] only_if
  have ci: "only (capture_if E c st (run_id cx) stage ty) R" for stage ty
    unfolding capture_if_def by (intro rules cap)
  have t: "only (try_block E inner c st b cx pl) R" for b
    unfolding try_block_def by (intro rules cap inner)
  have h: "only (handler E a c st cx e) R" for e
    unfolding handler_def by (intro rules ci)
  show ?thesis
    unfolding execute_def by (intro rules ci t h)
qed

lemma screenshot_evidence_world:
  "screenshot_evidence E c run stage w = (r, w1) \<Longrightarrow>
   w1 = w\<lparr>events := events w @ [Page (obj c) (Screenshot (run @ ''_'' @ stage))]\<rparr>"
  by (cases "shot_reply E (events w) (Page (obj c) (Screenshot (run @ ''_'' @ stage)))")
     (auto simp: screenshot_evidence_def screenshot_def bind_ex_def return_ex_def ask_def issue_def)

lemma save_artifact_events:
  "save_artifact_record E run ty p w = (r, w2) \<Longrightarrow>
   events w2 = events w @ [Save_artifact run ty p]"
  by (cases "unit_reply E (events w) (Save_artifact run ty p)")
     (auto simp: save_artifact_record_def issue_def Let_def)

subsection \<open>update_title: validation and dry run\<close>

lemma validate_missing:
  "map_of pl ''product_id'' = None \<or> map_of pl ''new_title'' = None \<Longrightarrow>
   validate_payload pl [''product_id'', ''new_title''] =
     Some (Missing_field (if map_of pl ''product_id'' = None then ''product_id'' else ''new_title''))"
  by auto

lemma update_title_invalid:
  "map_of pl ''product_id'' = None \<or> map_of pl ''new_title'' = None \<Longrightarrow>
   UpdateTitleAction_do_action E c locs cx pl w =
     (Inr (failed ''update_title'' ''VALIDATION_ERROR''
        (Missing_field (if map_of pl ''product_id'' = None then ''product_id'' else ''new_title''))), w)"
  by (simp only: UpdateTitleAction_do_action_def validate_missing option.case return_ex_def)

lemma update_title_dry:
  "dry_run cx \<Longrightarrow> map_of pl ''product_id'' = Some p \<Longrightarrow> map_of pl ''new_title'' = Some t \<Longrightarrow>
   UpdateTitleAction_do_action E c locs cx pl w =
     (Inr (succeeded ''update_title''
        [(''product_id'', DJson p), (''new_title'', DJson t),
         (''dry_run'', DJson (JBool True)), (''message'', DMsg Dry_run_note)]), w)"
  by (simp add: UpdateTitleAction_do_action_def subscript_def return_ex_def)

lemma execute_no_store:
  "execute E a inner c False cx pl w =
    (case inner (get_locators (site cx)) cx pl w of
       (Inr r, w') \<Rightarrow> (Inr (r\<lparr>timing_ms := Some (elapsed_ms E (events w'))\<rparr>), w')
     | (Inl e, w') \<Rightarrow>
         (Inr \<lparr>ok = False, action = a, data = None, error_code = Some ''EXCEPTION'',
               error_message = Some (Exception_text e), evidence = None,
               timing_ms = Some (elapsed_ms E (events w'))\<rparr>, w'))"
  by (simp add: execute_def try_block_def handler_def capture_if_def bind_ex_def return_ex_def
      split: prod.splits sum.splits)

text \<open>
  Claim C7. For every payload in which \<open>product_id\<close> or \<open>new_title\<close> is absent, the
  update_title action returns an outcome with \<open>ok = False\<close> and error code
  \<open>VALIDATION_ERROR\<close> whose message names the first missing key, and the world it
  returns is the world it was given: no call was issued against the page session. The
  template method without a store returns the same outcome, again with no call.
\<close>

theorem update_title_missing_key:
  assumes "map_of pl ''product_id'' = None \<or> map_of pl ''new_title'' = None"
  shows "\<exists>r r'. UpdateTitleAction_do_action E c locs cx pl w = (Inr r, w)
      \<and> run_action E UpdateTitleAction c False cx pl w = (Inr r', w)
      \<and> \<not> ok r \<and> error_code r = Some ''VALIDATION_ERROR''
      \<and> error_message r =
          Some (Missing_field (if map_of pl ''product_id'' = None then ''product_id'' else ''new_title''))
      \<and> \<not> ok r' \<and> error_code r' = error_code r \<and> error_message r' = error_message r"
  using assms
  by (simp add: update_title_invalid run_action_def execute_no_store failed_def)

theorem update_title_missing_key_witness:
  "(map_of [(''product_id'', JStr ''42'')] ''product_id'' = None
     \<or> map_of [(''product_id'', JStr ''42'')] ''new_title'' = None)
   \<and> (\<exists>r r'. UpdateTitleAction_do_action env_ok controller0 SHOPEE_ID context0
               [(''product_id'', JStr ''42'')] world0 = (Inr r, world0)
      \<and> run_action env_ok UpdateTitleAction controller0 False context0
               [(''product_id'', JStr ''42'')] world0 = (Inr r', world0)
      \<and> \<not> ok r \<and> error_code r = Some ''VALIDATION_ERROR''
      \<and> error_message r = Some (Missing_field ''new_title'')
      \<and> \<not> ok r' \<and> error_code r' = error_code r \<and> error_message r' = error_message r)"
  using update_title_missing_key
    [of "[(''product_id'', JStr ''42'')]" env_ok controller0 SHOPEE_ID context0 world0]
  by simp

text \<open>
  Claim C9. In update_title the required keys are checked before the dry-run flag is read:
  with \<open>dry_run = True\<close> and a payload missing \<open>product_id\<close> or \<open>new_title\<close>, the
  outcome is \<open>ok = False\<close> with \<open>VALIDATION_ERROR\<close> and carries no data, so it is not
  the dry-run outcome.
\<close>

theorem validation_precedes_dry_run:
  assumes "dry_run cx"
    and "map_of pl ''product_id'' = None \<or> map_of pl ''new_title'' = None"
  shows "\<exists>r. UpdateTitleAction_do_action E c locs cx pl w = (Inr r, w)
      \<and> \<not> ok r \<and> error_code r = Some ''VALIDATION_ERROR'' \<and> data r = None"
  using assms(2) by (simp add: update_title_invalid failed_def)

theorem validation_precedes_dry_run_witness:
  "dry_run (context0\<lparr>dry_run := True\<rparr>)
   \<and> (map_of [(''new_title'', JStr ''n'')] ''product_id'' = None
        \<or> map_of [(''new_title'', JStr ''n'')] ''new_title'' = None)
   \<and> (\<exists>r. UpdateTitleAction_do_action env_ok controller0 SHOPEE_ID (context0\<lparr>dry_run := True\<rparr>)
              [(''new_title'', JStr ''n'')] world0 = (Inr r, world0)
      \<and> \<not> ok r \<and> error_code r = Some ''VALIDATION_ERROR'' \<and> data r = None)"
  using validation_precedes_dry_run
    [of "context0\<lparr>dry_run := True\<rparr>" "[(''new_title'', JStr ''n'')]" env_ok controller0 SHOPEE_ID world0]
  by simp

subsection \<open>Dry run\<close>

lemma capture_ok:
  assumes "capture_succeeds E c run stage ty"
  shows "\<exists>stamp. capture E c run stage ty w =
    (Inr (Png (run @ ''_'' @ stage) stamp),
     w\<lparr>events := events w @ [Page (obj c) (Screenshot (run @ ''_'' @ stage)),
                               Save_artifact run ty (Png (run @ ''_'' @ stage) stamp)],
       agent_artifacts := agent_artifacts w @
         [\<lparr>a_id = uuid4 E (events w @ [Page (obj c) (Screenshot (run @ ''_'' @ stage))]),
           a_run_id = run, a_type = ty, a_url = Png (run @ ''_'' @ stage) stamp\<rparr>]\<rparr>)"
proof -
  obtain stamp where
    s: "shot_reply E (events w) (Page (obj c) (Screenshot (run @ ''_'' @ stage))) = Inr stamp"
    using assms unfolding capture_succeeds_def by blast
  have u: "unit_reply E h (Save_artifact run ty shot) = None" for h shot
    using assms unfolding capture_succeeds_def by blast
  have "capture E c run stage ty w =
    (Inr (Png (run @ ''_'' @ stage) stamp),
     w\<lparr>events := events w @ [Page (obj c) (Screenshot (run @ ''_'' @ stage)),
                               Save_artifact run ty (Png (run @ ''_'' @ stage) stamp)],
       agent_artifacts := agent_artifacts w @
         [\<lparr>a_id = uuid4 E (events w @ [Page (obj c) (Screenshot (run @ ''_'' @ stage))]),
           a_run_id = run, a_type = ty, a_url = Png (run @ ''_'' @ stage) stamp\<rparr>]\<rparr>)"
    using s u
    by (simp add: capture_def screenshot_evidence_def screenshot_def save_artifact_record_def
        bind_ex_def return_ex_def ask_def issue_def Let_def)
  then show ?thesis by blast
qed

lemma capture_succeeds_env_ok: "capture_succeeds env_ok c run stage ty"
  by (simp add: capture_succeeds_def env_ok_def)

lemma capture_calls: "only (capture E c run stage ty) (extends capture_event)"
proof (rule only_I)
  fix w r w' assume a: "capture E c run stage ty w = (r, w')"
  obtain r1 w1 where s: "screenshot_evidence E c run stage w = (r1, w1)"
    by (cases "screenshot_evidence E c run stage w")
  have e1: "events w1 = events w @ [Page (obj c) (Screenshot (run @ ''_'' @ stage))]"
    using screenshot_evidence_world [OF s] by simp
  show "extends capture_event w w'"
  proof (cases r1)
    case (Inl e)
    then have "w' = w1" using a s by (simp add: capture_def bind_ex_def)
    then show ?thesis using e1 by (simp add: extends_def)
  next
    case (Inr shot)
    obtain r2 w2 where b: "save_artifact_record E run ty shot w1 = (r2, w2)"
      by (cases "save_artifact_record E run ty shot w1")
    have "w' = w2" using a s b Inr
      by (cases r2) (simp_all add: capture_def bind_ex_def return_ex_def)
    then show ?thesis using e1 save_artifact_events [OF b] by (simp add: extends_def)
  qed
qed

lemma capture_event_harmless: "capture_event ev \<Longrightarrow> \<not> mutating_event ev"
  by (cases ev rule: capture_event.cases) simp_all

lemma update_title_dry_calls:
  assumes "dry_run cx" and "map_of pl ''product_id'' = Some p"
    and "map_of pl ''new_title'' = Some t"
  shows "list_all capture_event (new_events w (snd (run_action E UpdateTitleAction c st cx pl w)))"
proof -
  note dry = update_title_dry [OF assms]
  have "only (UpdateTitleAction_do_action E c (get_locators (site cx)) cx pl) (extends capture_event)"
    using extends_preorder [of capture_event]
    by (simp add: only_def dry preorder_on_worlds_def)
  then have "only (run_action E UpdateTitleAction c st cx pl) (extends capture_event)"
    unfolding run_action_def do_action.simps
    by (intro only_execute extends_preorder capture_calls)
  then show ?thesis by (simp add: only_def extends_new_events)
qed

lemma update_title_dry_with_store:
  assumes "dry_run cx" and "map_of pl ''product_id'' = Some p"
    and "map_of pl ''new_title'' = Some t"
    and cb: "capture_succeeds E c (run_id cx) ''before'' BEFORE"
    and ca: "capture_succeeds E c (run_id cx) ''after'' AFTER"
  shows "\<exists>r w' s1 s2. run_action E UpdateTitleAction c True cx pl w = (Inr r, w') \<and> ok r
      \<and> data r = Some [(''product_id'', DJson p), (''new_title'', DJson t),
                       (''dry_run'', DJson (JBool True)), (''message'', DMsg Dry_run_note)]
      \<and> new_events w w' =
          [Page (obj c) (Screenshot (run_id cx @ ''_before'')),
           Save_artifact (run_id cx) BEFORE (Png (run_id cx @ ''_before'') s1),
           Page (obj c) (Screenshot (run_id cx @ ''_after'')),
           Save_artifact (run_id cx) AFTER (Png (run_id cx @ ''_after'') s2)]"
proof -
  note dry = update_title_dry [OF assms(1-3)]
  obtain s1 where c1': "capture E c (run_id cx) ''before'' BEFORE w =
      (Inr (Png (run_id cx @ ''_'' @ ''before'') s1),
       w\<lparr>events := events w @ [Page (obj c) (Screenshot (run_id cx @ ''_'' @ ''before'')),
              Save_artifact (run_id cx) BEFORE (Png (run_id cx @ ''_'' @ ''before'') s1)],
         agent_artifacts := agent_artifacts w @
           [\<lparr>a_id = uuid4 E (events w @ [Page (obj c) (Screenshot (run_id cx @ ''_'' @ ''before''))]),
             a_run_id = run_id cx, a_type = BEFORE,
             a_url = Png (run_id cx @ ''_'' @ ''before'') s1\<rparr>]\<rparr>)"
    using capture_ok [OF cb, of w] by blast
  define w1 where "w1 =
       w\<lparr>events := events w @ [Page (obj c) (Screenshot (run_id cx @ ''_'' @ ''before'')),
              Save_artifact (run_id cx) BEFORE (Png (run_id cx @ ''_'' @ ''before'') s1)],
         agent_artifacts := agent_artifacts w @
           [\<lparr>a_id = uuid4 E (events w @ [Page (obj c) (Screenshot (run_id cx @ ''_'' @ ''before''))]),
             a_run_id = run_id cx, a_type = BEFORE,
             a_url = Png (run_id cx @ ''_'' @ ''before'') s1\<rparr>]\<rparr>"
  have c1: "capture E c (run_id cx) ''before'' BEFORE w =
      (Inr (Png (run_id cx @ ''_'' @ ''before'') s1), w1)"
    using c1' unfolding w1_def .
  have e1: "events w1 = events w @
        [Page (obj c) (Screenshot (run_id cx @ ''_'' @ ''before'')),
         Save_artifact (run_id cx) BEFORE (Png (run_id cx @ ''_'' @ ''before'') s1)]"
    unfolding w1_def by simp
  obtain s2 where c2': "capture E c (run_id cx) ''after'' AFTER w1 =
      (Inr (Png (run_id cx @ ''_'' @ ''after'') s2),
       w1\<lparr>events := events w1 @ [Page (obj c) (Screenshot (run_id cx @ ''_'' @ ''after'')),
              Save_artifact (run_id cx) AFTER (Png (run_id cx @ ''_'' @ ''after'') s2)],
         agent_artifacts := agent_artifacts w1 @
           [\<lparr>a_id = uuid4 E (events w1 @ [Page (obj c) (Screenshot (run_id cx @ ''_'' @ ''after''))]),
             a_run_id = run_id cx, a_type = AFTER,
             a_url = Png (run_id cx @ ''_'' @ ''after'') s2\<rparr>]\<rparr>)"
    using capture_ok [OF ca, of w1] by blast
  define w2 where "w2 =
       w1\<lparr>events := events w1 @ [Page (obj c) (Screenshot (run_id cx @ ''_'' @ ''after'')),
              Save_artifact (run_id cx) AFTER (Png (run_id cx @ ''_'' @ ''after'') s2)],
         agent_artifacts := agent_artifacts w1 @
           [\<lparr>a_id = uuid4 E (events w1 @ [Page (obj c) (Screenshot (run_id cx @ ''_'' @ ''after''))]),
             a_run_id = run_id cx, a_type = AFTER,
             a_url = Png (run_id cx @ ''_'' @ ''after'') s2\<rparr>]\<rparr>"
  have c2: "capture E c (run_id cx) ''after'' AFTER w1 =
      (Inr (Png (run_id cx @ ''_'' @ ''after'') s2), w2)"
    using c2' unfolding w2_def .
  have e2: "events w2 = events w1 @
        [Page (obj c) (Screenshot (run_id cx @ ''_'' @ ''after'')),
         Save_artifact (run_id cx) AFTER (Png (run_id cx @ ''_'' @ ''after'') s2)]"
    unfolding w2_def by simp
  let ?d = "[(''product_id'', DJson p), (''new_title'', DJson t),
             (''dry_run'', DJson (JBool True)), (''message'', DMsg Dry_run_note)]"
  let ?r = "(succeeded ''update_title'' ?d)
      \<lparr>evidence := Some [(''before_png'', Some (Png (run_id cx @ ''_'' @ ''before'') s1)),
                          (''after_png'', Some (Png (run_id cx @ ''_'' @ ''after'') s2))],
       timing_ms := Some (elapsed_ms E (events w2))\<rparr>"
  have "run_action E UpdateTitleAction c True cx pl w = (Inr ?r, w2)"
    using c1 c2 dry
    by (simp add: run_action_def execute_def capture_if_def try_block_def bind_ex_def
        return_ex_def succeeded_def)
  moreover have "ok ?r \<and> data ?r = Some ?d" by (simp add: succeeded_def)
  moreover have "new_events w w2 =
          [Page (obj c) (Screenshot (run_id cx @ ''_before'')),
           Save_artifact (run_id cx) BEFORE (Png (run_id cx @ ''_before'') s1),
           Page (obj c) (Screenshot (run_id cx @ ''_after'')),
           Save_artifact (run_id cx) AFTER (Png (run_id cx @ ''_after'') s2)]"
    using e1 e2 by (simp add: new_events_def)
  ultimately show ?thesis by blast
qed

text \<open>
  Claim C4, as amended. For update_title with a payload that has \<open>product_id\<close> and
  \<open>new_title\<close>, \<open>dry_run = True\<close> makes the action return \<open>ok = True\<close> with
  \<open>data.dry_run = True\<close> without issuing any call. The template method returns an
  outcome with that \<open>ok\<close> and that data when no store is attached, issuing no call; and
  with a store attached when the captures before and after the action succeed, its calls
  being then exactly the two screenshots and the two inserts of artifact records.
  Whether or not a store is attached and whatever the captures do, every call the
  template method issues is a screenshot or an insert of an artifact record, so none is
  a mutating call. The two fetch actions do with \<open>dry_run = True\<close> exactly what they do
  without it.
\<close>

theorem update_title_dry_run:
  assumes "dry_run cx" and "map_of pl ''product_id'' = Some p"
    and "map_of pl ''new_title'' = Some t"
  shows "UpdateTitleAction_do_action E c locs cx pl w =
      (Inr (succeeded ''update_title''
         [(''product_id'', DJson p), (''new_title'', DJson t),
          (''dry_run'', DJson (JBool True)), (''message'', DMsg Dry_run_note)]), w)
    \<and> (\<exists>r. run_action E UpdateTitleAction c False cx pl w = (Inr r, w) \<and> ok r
          \<and> data r = Some [(''product_id'', DJson p), (''new_title'', DJson t),
                           (''dry_run'', DJson (JBool True)), (''message'', DMsg Dry_run_note)])
    \<and> (capture_succeeds E c (run_id cx) ''before'' BEFORE
         \<and> capture_succeeds E c (run_id cx) ''after'' AFTER \<longrightarrow>
       (\<exists>r w' s1 s2. run_action E UpdateTitleAction c True cx pl w = (Inr r, w') \<and> ok r
          \<and> data r = Some [(''product_id'', DJson p), (''new_title'', DJson t),
                           (''dry_run'', DJson (JBool True)), (''message'', DMsg Dry_run_note)]
          \<and> new_events w w' =
              [Page (obj c) (Screenshot (run_id cx @ ''_before'')),
               Save_artifact (run_id cx) BEFORE (Png (run_id cx @ ''_before'') s1),
               Page (obj c) (Screenshot (run_id cx @ ''_after'')),
               Save_artifact (run_id cx) AFTER (Png (run_id cx @ ''_after'') s2)]))
    \<and> list_all capture_event
         (new_events w (snd (run_action E UpdateTitleAction c st cx pl w)))
    \<and> list_all (\<lambda>ev. \<not> mutating_event ev)
         (new_events w (snd (run_action E UpdateTitleAction c st cx pl w)))
    \<and> do_action FetchAdsSummaryAction E c locs cx pl' =
        do_action FetchAdsSummaryAction E c locs (cx\<lparr>dry_run := False\<rparr>) pl'
    \<and> do_action FetchProductSnapshotAction E c locs cx pl' =
        do_action FetchProductSnapshotAction E c locs (cx\<lparr>dry_run := False\<rparr>) pl'"
proof -
  note dry = update_title_dry [OF assms]
  have 2: "\<exists>r. run_action E UpdateTitleAction c False cx pl w = (Inr r, w) \<and> ok r
          \<and> data r = Some [(''product_id'', DJson p), (''new_title'', DJson t),
                           (''dry_run'', DJson (JBool True)), (''message'', DMsg Dry_run_note)]"
    by (simp add: run_action_def execute_no_store dry succeeded_def)
  have 3: "capture_succeeds E c (run_id cx) ''before'' BEFORE
         \<and> capture_succeeds E c (run_id cx) ''after'' AFTER \<longrightarrow>
       (\<exists>r w' s1 s2. run_action E UpdateTitleAction c True cx pl w = (Inr r, w') \<and> ok r
          \<and> data r = Some [(''product_id'', DJson p), (''new_title'', DJson t),
                           (''dry_run'', DJson (JBool True)), (''message'', DMsg Dry_run_note)]
          \<and> new_events w w' =
              [Page (obj c) (Screenshot (run_id cx @ ''_before'')),
               Save_artifact (run_id cx) BEFORE (Png (run_id cx @ ''_before'') s1),
               Page (obj c) (Screenshot (run_id cx @ ''_after'')),
               Save_artifact (run_id cx) AFTER (Png (run_id cx @ ''_after'') s2)])"
    using update_title_dry_with_store [OF assms] by blast
  have 4: "list_all capture_event
         (new_events w (snd (run_action E UpdateTitleAction c st cx pl w)))"
    using update_title_dry_calls [OF assms] .
  have 5: "list_all (\<lambda>ev. \<not> mutating_event ev)
         (new_events w (snd (run_action E UpdateTitleAction c st cx pl w)))"
    using 4 capture_event_harmless by (simp add: list_all_iff)
  have 6: "do_action FetchAdsSummaryAction E c locs cx pl' =
        do_action FetchAdsSummaryAction E c locs (cx\<lparr>dry_run := False\<rparr>) pl'"
    by (simp add: FetchAdsSummaryAction_do_action_def)
  have 7: "do_action FetchProductSnapshotAction E c locs cx pl' =
        do_action FetchProductSnapshotAction E c locs (cx\<lparr>dry_run := False\<rparr>) pl'"
    by (simp add: FetchProductSnapshotAction_do_action_def)
  show ?thesis
    by (rule conjI [OF dry conjI [OF 2 conjI [OF 3 conjI [OF 4 conjI [OF 5 conjI [OF 6 7]]]]]])
qed

theorem update_title_dry_run_witness:
  "dry_run (context0\<lparr>dry_run := True\<rparr>)
   \<and> map_of [(''product_id'', JStr ''42''), (''new_title'', JStr ''n'')] ''product_id'' = Some (JStr ''42'')
   \<and> map_of [(''product_id'', JStr ''42''), (''new_title'', JStr ''n'')] ''new_title'' = Some (JStr ''n'')
   \<and> capture_succeeds env_ok controller0 (run_id (context0\<lparr>dry_run := True\<rparr>)) ''before'' BEFORE
   \<and> capture_succeeds env_ok controller0 (run_id (context0\<lparr>dry_run := True\<rparr>)) ''after'' AFTER
   \<and> UpdateTitleAction_do_action env_ok controller0 SHOPEE_ID (context0\<lparr>dry_run := True\<rparr>)
        [(''product_id'', JStr ''42''), (''new_title'', JStr ''n'')] world0 =
      (Inr (succeeded ''update_title''
         [(''product_id'', DJson (JStr ''42'')), (''new_title'', DJson (JStr ''n'')),
          (''dry_run'', DJson (JBool True)), (''message'', DMsg Dry_run_note)]), world0)
   \<and> (\<exists>r w' s1 s2.
        run_action env_ok UpdateTitleAction controller0 True (context0\<lparr>dry_run := True\<rparr>)
          [(''product_id'', JStr ''42''), (''new_title'', JStr ''n'')] world0 = (Inr r, w')
      \<and> ok r
      \<and> data r = Some [(''product_id'', DJson (JStr ''42'')), (''new_title'', DJson (JStr ''n'')),
                       (''dry_run'', DJson (JBool True)), (''message'', DMsg Dry_run_note)]
      \<and> new_events world0 w' =
          [Page (obj controller0) (Screenshot (run_id (context0\<lparr>dry_run := True\<rparr>) @ ''_before'')),
           Save_artifact (run_id (context0\<lparr>dry_run := True\<rparr>)) BEFORE
             (Png (run_id (context0\<lparr>dry_run := True\<rparr>) @ ''_before'') s1),
           Page (obj controller0) (Screenshot (run_id (context0\<lparr>dry_run := True\<rparr>) @ ''_after'')),
           Save_artifact (run_id (context0\<lparr>dry_run := True\<rparr>)) AFTER
             (Png (run_id (context0\<lparr>dry_run := True\<rparr>) @ ''_after'') s2)])
   \<and> list_all capture_event
        (new_events world0
          (snd (run_action env_ok UpdateTitleAction controller0 True (context0\<lparr>dry_run := True\<rparr>)
                 [(''product_id'', JStr ''42''), (''new_title'', JStr ''n'')] world0)))
   \<and> list_all (\<lambda>ev. \<not> mutating_event ev)
        (new_events world0
          (snd (run_action env_ok UpdateTitleAction controller0 True (context0\<lparr>dry_run := True\<rparr>)
                 [(''product_id'', JStr ''42''), (''new_title'', JStr ''n'')] world0)))"
  using update_title_dry_run
    [of "context0\<lparr>dry_run := True\<rparr>" "[(''product_id'', JStr ''42''), (''new_title'', JStr ''n'')]"
        "JStr ''42''" "JStr ''n''" env_ok controller0 SHOPEE_ID world0 True]
  by (simp add: capture_succeeds_env_ok)

lemmas example_defs =
  env_ok_def world0_def controller0_def context0_def shirt_row_def

lemmas run_defs =
  run_action_def execute_def try_block_def handler_def capture_if_def capture_def
  screenshot_evidence_def
  screenshot_def save_artifact_record_def bind_ex_def return_ex_def raise_ex_def of_sum_def
  total_def ask_def issue_def raised_def Let_def

lemma loc_id_search_input:
  "loc (get_locators ''id'') [''product_list'', ''search_input''] =
     Inr (Some (CSS_SELECTOR, ''input[placeholder*='Cari'], input[placeholder*='Search']''))"
  by (simp add: loc_def get_locators_def sites_def SHOPEE_ID_def parse_locator_def startswith_def)

lemma loc_id_product_row:
  "loc (get_locators ''id'') [''product_list'', ''product_row''] =
     Inr (Some (CSS_SELECTOR, ''.product-row, tr.product-item''))"
  by (simp add: loc_def get_locators_def sites_def SHOPEE_ID_def parse_locator_def startswith_def)

lemma entry_url_id_product_list:
  "section_get (get_locators ''id'') ''product_list'' ''entry_url'' =
     Inr (Some (LStr ''https://seller.shopee.co.id/portal/product/list/all''))"
  by (simp add: section_get_def get_locators_def sites_def SHOPEE_ID_def)

text \<open>
  Claim C4 as stated fails for the fetch actions, which never read \<open>dry_run\<close>: with
  \<open>dry_run = True\<close>, fetch_product_snapshot types the keyword into the search box and
  presses return, and its data carries no \<open>dry_run\<close> entry.
\<close>

theorem fetch_snapshot_ignores_dry_run:
  "run_action env_ok FetchProductSnapshotAction controller0 False (context0\<lparr>dry_run := True\<rparr>)
     [(''keyword'', JStr ''shirt'')] world0 =
   (Inr \<lparr>ok = True, action = ''fetch_product_snapshot'',
         data = Some [(''keyword'', DJson (JStr ''shirt'')), (''count'', DCount 1),
                      (''products'', DProducts
                         [\<lparr>p_index = 0, p_name = Some ''shirt'', p_sku = None,
                           p_price = Some ''1'', p_stock = None,
                           p_product_id = Some (Some ''9'')\<rparr>])],
         error_code = None, error_message = None, evidence = None, timing_ms = Some 5\<rparr>,
    world0\<lparr>events :=
      [Page 0 (Navigate (Some (LStr ''https://seller.shopee.co.id/portal/product/list/all''))),
       Page 0 (Safe_send_keys
                 (CSS_SELECTOR, ''input[placeholder*='Cari'], input[placeholder*='Search']'')
                 (JStr ''shirt'')),
       Page 0 (Wait_for_element
                 (CSS_SELECTOR, ''input[placeholder*='Cari'], input[placeholder*='Search']'')),
       Page 0 (Send_keys 0 Key_return),
       Page 0 (Find_elements (CSS_SELECTOR, ''.product-row, tr.product-item''))]\<rparr>)"
  by (simp add: run_action_def execute_no_store FetchProductSnapshotAction_do_action_def
      FetchProductSnapshotAction_search_product_def extract_products_def
      extract_product_from_row_def strip_def is_space_def get_or_def
      loc_id_search_input loc_id_product_row entry_url_id_product_list
      navigate_def safe_send_keys_def wait_for_element_def element_send_keys_def
      find_elements_def succeeded_def failed_def List.map_filter_def enumerate_eq_zip
      bind_ex_def return_ex_def of_sum_def total_def ask_def issue_def raised_def Let_def
      example_defs)

subsection \<open>The template method: outcomes and evidence\<close>

lemma capture_if_ok:
  assumes "st \<longrightarrow> capture_succeeds E c run stage ty"
  shows "\<exists>b w1 rows. capture_if E c st run stage ty w = (Inr b, w1)
     \<and> agent_artifacts w1 = agent_artifacts w @ rows
     \<and> map a_type rows = (if st then [ty] else [])
     \<and> list_all (\<lambda>row. a_run_id row = run) rows"
proof (cases st)
  case True
  then obtain stamp where "capture E c run stage ty w =
    (Inr (Png (run @ ''_'' @ stage) stamp),
     w\<lparr>events := events w @ [Page (obj c) (Screenshot (run @ ''_'' @ stage)),
                               Save_artifact run ty (Png (run @ ''_'' @ stage) stamp)],
       agent_artifacts := agent_artifacts w @
         [\<lparr>a_id = uuid4 E (events w @ [Page (obj c) (Screenshot (run @ ''_'' @ stage))]),
           a_run_id = run, a_type = ty, a_url = Png (run @ ''_'' @ stage) stamp\<rparr>]\<rparr>)"
    using assms capture_ok by blast
  then show ?thesis using True
    by (simp add: capture_if_def bind_ex_def return_ex_def)
next
  case False
  then show ?thesis by (simp add: capture_if_def return_ex_def)
qed

lemma handler_returns:
  assumes "st \<longrightarrow> capture_succeeds E c (run_id cx) ''error'' ERROR"
  shows "\<exists>r w' rows. handler E a c st cx e w = (Inr r, w') \<and> \<not> ok r
     \<and> error_code r = Some ''EXCEPTION'' \<and> error_message r = Some (Exception_text e)
     \<and> agent_artifacts w' = agent_artifacts w @ rows
     \<and> map a_type rows = (if st then [ERROR] else [])
     \<and> list_all (\<lambda>row. a_run_id row = run_id cx) rows"
proof -
  obtain b w1 rows where "capture_if E c st (run_id cx) ''error'' ERROR w = (Inr b, w1)"
    "agent_artifacts w1 = agent_artifacts w @ rows"
    "map a_type rows = (if st then [ERROR] else [])"
    "list_all (\<lambda>row. a_run_id row = run_id cx) rows"
    using capture_if_ok [OF assms, of w] by blast
  then show ?thesis
    by (simp add: handler_def bind_ex_def return_ex_def)
qed

lemma try_block_raises:
  "inner (get_locators (site cx)) cx pl w1 = (Inl e, w2) \<Longrightarrow>
   try_block E inner c st b cx pl w1 = (Inl e, w2)"
  by (simp add: try_block_def bind_ex_def)

lemma execute_returns:
  assumes "st \<longrightarrow> capture_succeeds E c (run_id cx) ''before'' BEFORE
                \<and> capture_succeeds E c (run_id cx) ''error'' ERROR"
  shows "\<exists>b w1 r w'.
      capture_if E c st (run_id cx) ''before'' BEFORE w = (Inr b, w1)
    \<and> execute E a inner c st cx pl w = (Inr r, w')
    \<and> (\<forall>e w2. inner (get_locators (site cx)) cx pl w1 = (Inl e, w2) \<longrightarrow>
          \<not> ok r \<and> error_code r = Some ''EXCEPTION''
          \<and> error_message r = Some (Exception_text e))
    \<and> (\<forall>e w2. try_block E inner c st b cx pl w1 = (Inl e, w2) \<longrightarrow>
          \<not> ok r \<and> error_code r = Some ''EXCEPTION''
          \<and> error_message r = Some (Exception_text e))"
proof -
  obtain b w1 where b: "capture_if E c st (run_id cx) ''before'' BEFORE w = (Inr b, w1)"
    using capture_if_ok [of st E c "run_id cx" "''before''" BEFORE w] assms by blast
  obtain res w2 where t: "try_block E inner c st b cx pl w1 = (res, w2)"
    by (cases "try_block E inner c st b cx pl w1")
  have ex: "execute E a inner c st cx pl w =
      (case res of Inr result \<Rightarrow> (Inr result, w2) | Inl e \<Rightarrow> handler E a c st cx e w2)"
    using b t by (simp add: execute_def bind_ex_def split: sum.splits)
  show ?thesis
  proof (cases res)
    case (Inr result)
    have "inner (get_locators (site cx)) cx pl w1 \<noteq> (Inl e, w3)" for e w3
      using try_block_raises [of inner cx pl w1 e w3 E c st b] t Inr by auto
    then show ?thesis using b ex t Inr by auto
  next
    case (Inl e)
    obtain r w' where h: "handler E a c st cx e w2 = (Inr r, w')" "\<not> ok r"
      "error_code r = Some ''EXCEPTION''" "error_message r = Some (Exception_text e)"
      using handler_returns [of st E c cx a e w2] assms by blast
    have "e' = e" if "inner (get_locators (site cx)) cx pl w1 = (Inl e', w3)" for e' w3
      using try_block_raises [of inner cx pl w1 e' w3 E c st b] that t Inl by simp
    then show ?thesis using b ex t Inl h by auto
  qed
qed

lemma execute_before_raises:
  "capture E c (run_id cx) ''before'' BEFORE w = (Inl e, w1) \<Longrightarrow>
   execute E a inner c True cx pl w = (Inl e, w1)"
  by (simp add: execute_def capture_if_def bind_ex_def)

lemma execute_handler_raises:
  "capture E c (run_id cx) ''before'' BEFORE w = (Inr b, w1) \<Longrightarrow>
   try_block E inner c True (Some b) cx pl w1 = (Inl e0, w2) \<Longrightarrow>
   capture E c (run_id cx) ''error'' ERROR w2 = (Inl e, w3) \<Longrightarrow>
   execute E a inner c True cx pl w = (Inl e, w3)"
  by (simp add: execute_def capture_if_def handler_def bind_ex_def return_ex_def)

text \<open>
  Claim C1, as amended. \<open>execute\<close> returns an outcome, for every inner action, context
  and payload, when no store is attached, and with a store attached when the capture
  before the action and the capture of the handler succeed; the capture after the action
  may fail. Where the inner action raises, and where the \<open>try\<close> block raises for any
  reason, the outcome is \<open>ok = False\<close> with error code \<open>EXCEPTION\<close> and the text of the
  exception. With a store attached, an exception of the capture before the action leaves
  \<open>execute\<close> as that exception; and when the \<open>try\<close> block raises and the capture of the
  handler raises in turn, the exception of that capture leaves \<open>execute\<close>.
\<close>

theorem execute_returns_outcome:
  "((st \<longrightarrow> capture_succeeds E c (run_id cx) ''before'' BEFORE
           \<and> capture_succeeds E c (run_id cx) ''error'' ERROR) \<longrightarrow>
      (\<exists>b w1 r w'.
          capture_if E c st (run_id cx) ''before'' BEFORE w = (Inr b, w1)
        \<and> execute E a inner c st cx pl w = (Inr r, w')
        \<and> (\<forall>e w2. inner (get_locators (site cx)) cx pl w1 = (Inl e, w2) \<longrightarrow>
              \<not> ok r \<and> error_code r = Some ''EXCEPTION''
              \<and> error_message r = Some (Exception_text e))
        \<and> (\<forall>e w2. try_block E inner c st b cx pl w1 = (Inl e, w2) \<longrightarrow>
              \<not> ok r \<and> error_code r = Some ''EXCEPTION''
              \<and> error_message r = Some (Exception_text e))))
   \<and> (\<forall>e w1. capture E c (run_id cx) ''before'' BEFORE w = (Inl e, w1) \<longrightarrow>
         execute E a inner c True cx pl w = (Inl e, w1))
   \<and> (\<forall>b w1 e0 w2 e w3.
         capture E c (run_id cx) ''before'' BEFORE w = (Inr b, w1)
       \<and> try_block E inner c True (Some b) cx pl w1 = (Inl e0, w2)
       \<and> capture E c (run_id cx) ''error'' ERROR w2 = (Inl e, w3) \<longrightarrow>
         execute E a inner c True cx pl w = (Inl e, w3))"
proof (intro conjI allI impI)
  assume "st \<longrightarrow> capture_succeeds E c (run_id cx) ''before'' BEFORE
                \<and> capture_succeeds E c (run_id cx) ''error'' ERROR"
  then show "\<exists>b w1 r w'.
          capture_if E c st (run_id cx) ''before'' BEFORE w = (Inr b, w1)
        \<and> execute E a inner c st cx pl w = (Inr r, w')
        \<and> (\<forall>e w2. inner (get_locators (site cx)) cx pl w1 = (Inl e, w2) \<longrightarrow>
              \<not> ok r \<and> error_code r = Some ''EXCEPTION''
              \<and> error_message r = Some (Exception_text e))
        \<and> (\<forall>e w2. try_block E inner c st b cx pl w1 = (Inl e, w2) \<longrightarrow>
              \<not> ok r \<and> error_code r = Some ''EXCEPTION''
              \<and> error_message r = Some (Exception_text e))"
    by (rule execute_returns)
next
  fix e w1 assume "capture E c (run_id cx) ''before'' BEFORE w = (Inl e, w1)"
  then show "execute E a inner c True cx pl w = (Inl e, w1)" by (rule execute_before_raises)
next
  fix b w1 e0 w2 e w3
  assume "capture E c (run_id cx) ''before'' BEFORE w = (Inr b, w1)
       \<and> try_block E inner c True (Some b) cx pl w1 = (Inl e0, w2)
       \<and> capture E c (run_id cx) ''error'' ERROR w2 = (Inl e, w3)"
  then show "execute E a inner c True cx pl w = (Inl e, w3)"
    using execute_handler_raises by blast
qed

theorem execute_returns_outcome_witness:
  "capture_succeeds env_after_fails controller0 (run_id context0) ''before'' BEFORE
   \<and> capture_succeeds env_after_fails controller0 (run_id context0) ''error'' ERROR
   \<and> (\<exists>b w1 r w'.
        capture_if env_after_fails controller0 True (run_id context0) ''before'' BEFORE world0
          = (Inr b, w1)
      \<and> execute env_after_fails ''fetch_ads_summary''
           (do_action FetchAdsSummaryAction env_after_fails controller0) controller0 True context0
           [(''date_range'', JArr [])] world0 = (Inr r, w')
      \<and> (\<forall>e w2. do_action FetchAdsSummaryAction env_after_fails controller0
                   (get_locators (site context0)) context0 [(''date_range'', JArr [])] w1
                   = (Inl e, w2) \<longrightarrow>
            \<not> ok r \<and> error_code r = Some ''EXCEPTION''
            \<and> error_message r = Some (Exception_text e)))
   \<and> capture env_dead_session controller0 (run_id context0) ''before'' BEFORE world0 =
       (Inl (Driver_error ''no such window''),
        world0\<lparr>events := [Page 0 (Screenshot ''r_before'')]\<rparr>)
   \<and> execute env_dead_session ''fetch_ads_summary''
        (do_action FetchAdsSummaryAction env_dead_session controller0) controller0 True context0
        [(''date_range'', JArr [])] world0 =
       (Inl (Driver_error ''no such window''),
        world0\<lparr>events := [Page 0 (Screenshot ''r_before'')]\<rparr>)
   \<and> capture env_session_dies controller0 (run_id (context0\<lparr>dry_run := True\<rparr>)) ''before'' BEFORE
        world0 =
       (Inr (Png ''r_before'' 0),
        world0\<lparr>events :=
            [Page 0 (Screenshot ''r_before''), Save_artifact ''r'' BEFORE (Png ''r_before'' 0)],
          agent_artifacts :=
            [\<lparr>a_id = ''u'', a_run_id = ''r'', a_type = BEFORE, a_url = Png ''r_before'' 0\<rparr>]\<rparr>)
   \<and> try_block env_session_dies (do_action UpdateTitleAction env_session_dies controller0)
        controller0 True (Some (Png ''r_before'' 0)) (context0\<lparr>dry_run := True\<rparr>)
        [(''product_id'', JStr ''42''), (''new_title'', JStr ''n'')]
        (world0\<lparr>events :=
            [Page 0 (Screenshot ''r_before''), Save_artifact ''r'' BEFORE (Png ''r_before'' 0)],
          agent_artifacts :=
            [\<lparr>a_id = ''u'', a_run_id = ''r'', a_type = BEFORE, a_url = Png ''r_before'' 0\<rparr>]\<rparr>) =
       (Inl (Driver_error ''no such window''),
        world0\<lparr>events :=
            [Page 0 (Screenshot ''r_before''), Save_artifact ''r'' BEFORE (Png ''r_before'' 0),
             Page 0 (Screenshot ''r_after'')],
          agent_artifacts :=
            [\<lparr>a_id = ''u'', a_run_id = ''r'', a_type = BEFORE, a_url = Png ''r_before'' 0\<rparr>]\<rparr>)
   \<and> capture env_session_dies controller0 (run_id (context0\<lparr>dry_run := True\<rparr>)) ''error'' ERROR
        (world0\<lparr>events :=
            [Page 0 (Screenshot ''r_before''), Save_artifact ''r'' BEFORE (Png ''r_before'' 0),
             Page 0 (Screenshot ''r_after'')],
          agent_artifacts :=
            [\<lparr>a_id = ''u'', a_run_id = ''r'', a_type = BEFORE, a_url = Png ''r_before'' 0\<rparr>]\<rparr>) =
       (Inl (Driver_error ''no such window''),
        world0\<lparr>events :=
            [Page 0 (Screenshot ''r_before''), Save_artifact ''r'' BEFORE (Png ''r_before'' 0),
             Page 0 (Screenshot ''r_after''), Page 0 (Screenshot ''r_error'')],
          agent_artifacts :=
            [\<lparr>a_id = ''u'', a_run_id = ''r'', a_type = BEFORE, a_url = Png ''r_before'' 0\<rparr>]\<rparr>)
   \<and> execute env_session_dies ''update_title''
        (do_action UpdateTitleAction env_session_dies controller0) controller0 True
        (context0\<lparr>dry_run := True\<rparr>)
        [(''product_id'', JStr ''42''), (''new_title'', JStr ''n'')] world0 =
       (Inl (Driver_error ''no such window''),
        world0\<lparr>events :=
            [Page 0 (Screenshot ''r_before''), Save_artifact ''r'' BEFORE (Png ''r_before'' 0),
             Page 0 (Screenshot ''r_after''), Page 0 (Screenshot ''r_error'')],
          agent_artifacts :=
            [\<lparr>a_id = ''u'', a_run_id = ''r'', a_type = BEFORE, a_url = Png ''r_before'' 0\<rparr>]\<rparr>)"
proof -
  note defs = capture_def screenshot_evidence_def screenshot_def save_artifact_record_def
    try_block_def bind_ex_def return_ex_def ask_def issue_def Let_def
    env_ok_def world0_def controller0_def context0_def
  have 1: "capture_succeeds env_after_fails controller0 (run_id context0) ''before'' BEFORE"
    by (simp add: capture_succeeds_def env_after_fails_def env_ok_def controller0_def context0_def)
  have 2: "capture_succeeds env_after_fails controller0 (run_id context0) ''error'' ERROR"
    by (simp add: capture_succeeds_def env_after_fails_def env_ok_def controller0_def context0_def)
  note thm1 = execute_returns_outcome
      [where st = True and E = env_after_fails and c = controller0 and cx = context0
         and a = "''fetch_ads_summary''"
         and inner = "do_action FetchAdsSummaryAction env_after_fails controller0"
         and pl = "[(''date_range'', JArr [])]" and w = world0]
  have 3: "\<exists>b w1 r w'.
        capture_if env_after_fails controller0 True (run_id context0) ''before'' BEFORE world0
          = (Inr b, w1)
      \<and> execute env_after_fails ''fetch_ads_summary''
           (do_action FetchAdsSummaryAction env_after_fails controller0) controller0 True context0
           [(''date_range'', JArr [])] world0 = (Inr r, w')
      \<and> (\<forall>e w2. do_action FetchAdsSummaryAction env_after_fails controller0
                   (get_locators (site context0)) context0 [(''date_range'', JArr [])] w1
                   = (Inl e, w2) \<longrightarrow>
            \<not> ok r \<and> error_code r = Some ''EXCEPTION''
            \<and> error_message r = Some (Exception_text e))"
    using 1 2 thm1 by blast
  have 4: "capture env_dead_session controller0 (run_id context0) ''before'' BEFORE world0 =
       (Inl (Driver_error ''no such window''),
        world0\<lparr>events := [Page 0 (Screenshot ''r_before'')]\<rparr>)"
    by (simp add: defs env_dead_session_def)
  have 5: "execute env_dead_session ''fetch_ads_summary''
        (do_action FetchAdsSummaryAction env_dead_session controller0) controller0 True context0
        [(''date_range'', JArr [])] world0 =
       (Inl (Driver_error ''no such window''),
        world0\<lparr>events := [Page 0 (Screenshot ''r_before'')]\<rparr>)"
    using 4 execute_returns_outcome
      [where E = env_dead_session and c = controller0 and cx = context0 and w = world0
         and a = "''fetch_ads_summary''"
         and inner = "do_action FetchAdsSummaryAction env_dead_session controller0"
         and pl = "[(''date_range'', JArr [])]"]
    by blast
  let ?cx = "context0\<lparr>dry_run := True\<rparr>"
  let ?pl = "[(''product_id'', JStr ''42''), (''new_title'', JStr ''n'')]"
  let ?w1 = "world0\<lparr>events :=
            [Page 0 (Screenshot ''r_before''), Save_artifact ''r'' BEFORE (Png ''r_before'' 0)],
          agent_artifacts :=
            [\<lparr>a_id = ''u'', a_run_id = ''r'', a_type = BEFORE, a_url = Png ''r_before'' 0\<rparr>]\<rparr>"
  let ?w2 = "world0\<lparr>events :=
            [Page 0 (Screenshot ''r_before''), Save_artifact ''r'' BEFORE (Png ''r_before'' 0),
             Page 0 (Screenshot ''r_after'')],
          agent_artifacts :=
            [\<lparr>a_id = ''u'', a_run_id = ''r'', a_type = BEFORE, a_url = Png ''r_before'' 0\<rparr>]\<rparr>"
  let ?w3 = "world0\<lparr>events :=
            [Page 0 (Screenshot ''r_before''), Save_artifact ''r'' BEFORE (Png ''r_before'' 0),
             Page 0 (Screenshot ''r_after''), Page 0 (Screenshot ''r_error'')],
          agent_artifacts :=
            [\<lparr>a_id = ''u'', a_run_id = ''r'', a_type = BEFORE, a_url = Png ''r_before'' 0\<rparr>]\<rparr>"
  have 6: "capture env_session_dies controller0 (run_id ?cx) ''before'' BEFORE world0 =
       (Inr (Png ''r_before'' 0), ?w1)"
    by (simp add: defs env_session_dies_def)
  have 7: "try_block env_session_dies (do_action UpdateTitleAction env_session_dies controller0)
        controller0 True (Some (Png ''r_before'' 0)) ?cx ?pl ?w1 =
       (Inl (Driver_error ''no such window''), ?w2)"
    by (simp add: defs env_session_dies_def update_title_dry succeeded_def)
  have 8: "capture env_session_dies controller0 (run_id ?cx) ''error'' ERROR ?w2 =
       (Inl (Driver_error ''no such window''), ?w3)"
    by (simp add: defs env_session_dies_def)
  have 9: "execute env_session_dies ''update_title''
        (do_action UpdateTitleAction env_session_dies controller0) controller0 True ?cx ?pl world0 =
       (Inl (Driver_error ''no such window''), ?w3)"
    using 6 7 8 execute_returns_outcome
      [where E = env_session_dies and c = controller0 and cx = ?cx and w = world0
         and a = "''update_title''"
         and inner = "do_action UpdateTitleAction env_session_dies controller0"
         and pl = ?pl]
    by blast
  show ?thesis
    by (rule conjI [OF 1 conjI [OF 2 conjI [OF 3 conjI [OF 4 conjI [OF 5
          conjI [OF 6 conjI [OF 7 conjI [OF 8 9]]]]]]]])
qed

text \<open>
  Claim C1 as stated fails: with a store attached, an exception of the screenshot taken
  before the action leaves \<open>execute\<close> as an exception, and no outcome is returned.
\<close>

theorem before_capture_failure_propagates:
  "run_action env_dead_session UpdateTitleAction controller0 True context0 [] world0 =
     (Inl (Driver_error ''no such window''),
      world0\<lparr>events := [Page 0 (Screenshot ''r_before'')]\<rparr>)"
  by (simp add: run_defs env_dead_session_def example_defs)

lemma do_action_keeps:
  assumes "do_action cls E c locs cx pl w1 = (res, w2)"
  shows "agent_artifacts w2 = agent_artifacts w1"
proof -
  have "page_only (obj c) w1 w2" using only_D [OF only_do_action assms] .
  then show ?thesis by (auto simp: page_only_def)
qed

text \<open>
  Claim C2, as amended. With a store attached and every capture succeeding, a registered
  action run by \<open>execute\<close> adds to the artifact table, all for the run of the context:
  one \<open>before\<close> row, then one \<open>after\<close> row if and only if the inner action returns
  \<open>ok = True\<close>, one \<open>error\<close> row if and only if it raises, and nothing more when it
  returns \<open>ok = False\<close>.
\<close>

theorem evidence_artifacts:
  assumes "capture_succeeds E c (run_id cx) ''before'' BEFORE"
    and "capture_succeeds E c (run_id cx) ''after'' AFTER"
    and "capture_succeeds E c (run_id cx) ''error'' ERROR"
  shows "\<exists>b w1 res w2.
      capture_if E c True (run_id cx) ''before'' BEFORE w = (Inr b, w1)
    \<and> do_action cls E c (get_locators (site cx)) cx pl w1 = (res, w2)
    \<and> map a_type (new_artifacts w (snd (run_action E cls c True cx pl w))) =
        BEFORE # (case res of Inr r \<Rightarrow> if ok r then [AFTER] else [] | Inl e \<Rightarrow> [ERROR])
    \<and> list_all (\<lambda>row. a_run_id row = run_id cx)
        (new_artifacts w (snd (run_action E cls c True cx pl w)))"
proof -
  let ?inner = "do_action cls E c"
  obtain b w1 rows1 where b: "capture_if E c True (run_id cx) ''before'' BEFORE w = (Inr b, w1)"
    and a1: "agent_artifacts w1 = agent_artifacts w @ rows1" "map a_type rows1 = [BEFORE]"
      "list_all (\<lambda>row. a_run_id row = run_id cx) rows1"
    using capture_if_ok [of True E c "run_id cx" "''before''" BEFORE w] assms(1) by auto
  obtain res w2 where i: "?inner (get_locators (site cx)) cx pl w1 = (res, w2)"
    by (cases "?inner (get_locators (site cx)) cx pl w1")
  have a2: "agent_artifacts w2 = agent_artifacts w1" using do_action_keeps [OF i] .
  have "\<exists>w' rows. snd (run_action E cls c True cx pl w) = w'
      \<and> agent_artifacts w' = agent_artifacts w2 @ rows
      \<and> map a_type rows = (case res of Inr r \<Rightarrow> if ok r then [AFTER] else [] | Inl e \<Rightarrow> [ERROR])
      \<and> list_all (\<lambda>row. a_run_id row = run_id cx) rows"
  proof (cases res)
    case (Inl e)
    then have t: "try_block E ?inner c True b cx pl w1 = (Inl e, w2)"
      using i by (simp add: try_block_def bind_ex_def)
    obtain r w' rows where "handler E (action_name cls) c True cx e w2 = (Inr r, w')"
      "agent_artifacts w' = agent_artifacts w2 @ rows" "map a_type rows = [ERROR]"
      "list_all (\<lambda>row. a_run_id row = run_id cx) rows"
      using handler_returns [of True E c cx "action_name cls" e w2] assms(3) by auto
    then show ?thesis using b t Inl
      by (simp add: run_action_def execute_def bind_ex_def)
  next
    case (Inr r)
    show ?thesis
    proof (cases "ok r")
      case True
      obtain stamp where "capture E c (run_id cx) ''after'' AFTER w2 =
        (Inr (Png (run_id cx @ ''_'' @ ''after'') stamp),
         w2\<lparr>events := events w2 @ [Page (obj c) (Screenshot (run_id cx @ ''_'' @ ''after'')),
                Save_artifact (run_id cx) AFTER (Png (run_id cx @ ''_'' @ ''after'') stamp)],
           agent_artifacts := agent_artifacts w2 @
             [\<lparr>a_id = uuid4 E (events w2 @ [Page (obj c) (Screenshot (run_id cx @ ''_'' @ ''after''))]),
               a_run_id = run_id cx, a_type = AFTER,
               a_url = Png (run_id cx @ ''_'' @ ''after'') stamp\<rparr>]\<rparr>)"
        using capture_ok [OF assms(2), of w2] by blast
      then show ?thesis using b i Inr True
        by (simp add: run_action_def execute_def try_block_def bind_ex_def return_ex_def)
    next
      case False
      then show ?thesis using b i Inr
        by (simp add: run_action_def execute_def try_block_def bind_ex_def return_ex_def)
    qed
  qed
  then obtain w' rows where w': "snd (run_action E cls c True cx pl w) = w'"
    "agent_artifacts w' = agent_artifacts w2 @ rows"
    "map a_type rows = (case res of Inr r \<Rightarrow> if ok r then [AFTER] else [] | Inl e \<Rightarrow> [ERROR])"
    "list_all (\<lambda>row. a_run_id row = run_id cx) rows" by blast
  have "new_artifacts w w' = rows1 @ rows"
    using a1(1) a2 w'(2) by (simp add: new_artifacts_def)
  then have "map a_type (new_artifacts w w') =
        BEFORE # (case res of Inr r \<Rightarrow> if ok r then [AFTER] else [] | Inl e \<Rightarrow> [ERROR])"
    "list_all (\<lambda>row. a_run_id row = run_id cx) (new_artifacts w w')"
    using a1 w' by simp_all
  then have "capture_if E c True (run_id cx) ''before'' BEFORE w = (Inr b, w1)
    \<and> do_action cls E c (get_locators (site cx)) cx pl w1 = (res, w2)
    \<and> map a_type (new_artifacts w (snd (run_action E cls c True cx pl w))) =
        BEFORE # (case res of Inr r \<Rightarrow> if ok r then [AFTER] else [] | Inl e \<Rightarrow> [ERROR])
    \<and> list_all (\<lambda>row. a_run_id row = run_id cx)
        (new_artifacts w (snd (run_action E cls c True cx pl w)))"
    using b i w'(1) by simp
  then show ?thesis by iprover
qed


theorem evidence_artifacts_witness:
  "capture_succeeds env_ok controller0 (run_id context0) ''before'' BEFORE
   \<and> capture_succeeds env_ok controller0 (run_id context0) ''after'' AFTER
   \<and> capture_succeeds env_ok controller0 (run_id context0) ''error'' ERROR
   \<and> (\<exists>b w1 res w2.
        capture_if env_ok controller0 True (run_id context0) ''before'' BEFORE world0 = (Inr b, w1)
      \<and> do_action UpdateTitleAction env_ok controller0 (get_locators (site context0)) context0
           [(''product_id'', JStr ''42'')] w1 = (res, w2)
      \<and> map a_type (new_artifacts world0
           (snd (run_action env_ok UpdateTitleAction controller0 True context0
                   [(''product_id'', JStr ''42'')] world0))) =
          BEFORE # (case res of Inr r \<Rightarrow> if ok r then [AFTER] else [] | Inl e \<Rightarrow> [ERROR])
      \<and> list_all (\<lambda>row. a_run_id row = run_id context0)
          (new_artifacts world0
            (snd (run_action env_ok UpdateTitleAction controller0 True context0
                    [(''product_id'', JStr ''42'')] world0))))"
  using evidence_artifacts
    [where E = env_ok and c = controller0 and cx = context0 and cls = UpdateTitleAction
       and pl = "[(''product_id'', JStr ''42'')]" and w = world0]
  by (simp add: capture_succeeds_env_ok)

text \<open>
  Claim C2 as stated fails when a capture fails: here the inner action returns
  \<open>ok = True\<close> and does not raise, the screenshot after it raises, and the run ends with
  the artifacts \<open>before\<close> and \<open>error\<close> and no \<open>after\<close>.
\<close>

theorem after_capture_failure_artifacts:
  "run_action env_after_fails UpdateTitleAction controller0 True (context0\<lparr>dry_run := True\<rparr>)
     [(''product_id'', JStr ''42''), (''new_title'', JStr ''n'')] world0 =
   (Inr \<lparr>ok = False, action = ''update_title'', data = None, error_code = Some ''EXCEPTION'',
         error_message = Some (Exception_text (Driver_error ''timeout'')),
         evidence = Some [(''error_png'', Some (Png ''r_error'' 3))], timing_ms = Some 5\<rparr>,
    world0\<lparr>events :=
        [Page 0 (Screenshot ''r_before''), Save_artifact ''r'' BEFORE (Png ''r_before'' 0),
         Page 0 (Screenshot ''r_after''),
         Page 0 (Screenshot ''r_error''), Save_artifact ''r'' ERROR (Png ''r_error'' 3)],
      agent_artifacts :=
        [\<lparr>a_id = ''u'', a_run_id = ''r'', a_type = BEFORE, a_url = Png ''r_before'' 0\<rparr>,
         \<lparr>a_id = ''u'', a_run_id = ''r'', a_type = ERROR, a_url = Png ''r_error'' 3\<rparr>]\<rparr>)
   \<and> UpdateTitleAction_do_action env_after_fails controller0 (get_locators ''id'')
        (context0\<lparr>dry_run := True\<rparr>)
        [(''product_id'', JStr ''42''), (''new_title'', JStr ''n'')]
        (world0\<lparr>events :=
            [Page 0 (Screenshot ''r_before''), Save_artifact ''r'' BEFORE (Png ''r_before'' 0)],
          agent_artifacts :=
            [\<lparr>a_id = ''u'', a_run_id = ''r'', a_type = BEFORE, a_url = Png ''r_before'' 0\<rparr>]\<rparr>) =
      (Inr (succeeded ''update_title''
         [(''product_id'', DJson (JStr ''42'')), (''new_title'', DJson (JStr ''n'')),
          (''dry_run'', DJson (JBool True)), (''message'', DMsg Dry_run_note)]),
       world0\<lparr>events :=
            [Page 0 (Screenshot ''r_before''), Save_artifact ''r'' BEFORE (Png ''r_before'' 0)],
          agent_artifacts :=
            [\<lparr>a_id = ''u'', a_run_id = ''r'', a_type = BEFORE, a_url = Png ''r_before'' 0\<rparr>]\<rparr>)"
  by (simp add: run_defs update_title_dry succeeded_def env_after_fails_def example_defs)

subsection \<open>Task selection\<close>

lemma sort_key_head_least:
  assumes "sort_key f xs = y # ys" and "u \<in> set xs"
  shows "f y \<le> f u"
proof -
  have "sorted (map f (y # ys))" using assms(1) sorted_sort_key [of f xs] by simp
  moreover have "u \<in> set (y # ys)" using assms by (metis set_sort)
  ultimately show ?thesis by auto
qed

lemma sort_key_head_mem:
  assumes "sort_key f xs = y # ys"
  shows "y \<in> set xs"
  using assms by (metis list.set_intros(1) set_sort)

lemma sort_key_Nil: "sort_key f xs = [] \<longleftrightarrow> xs = []"
  by (metis set_sort set_empty)

lemma example_selection:
  "map_option t_id (get_next_task three_tasks) = Some ''t1''
   \<and> map_option t_id (get_next_task (update_task_status ''t1'' RUNNING None three_tasks))
       = Some ''t3''
   \<and> map_option t_id
       (get_next_task (update_task_status ''t3'' RUNNING None
          (update_task_status ''t1'' RUNNING None three_tasks))) = Some ''t2''
   \<and> get_next_task (update_task_status ''t2'' RUNNING None
         (update_task_status ''t3'' RUNNING None
           (update_task_status ''t1'' RUNNING None three_tasks))) = None"
  by (simp add: get_next_task_def update_task_status_def issue_def three_tasks_def world0_def
      queued_task_def)

text \<open>
  Claim C6. \<open>get_next_task\<close> reports no task exactly when no task is queued. A task it
  returns is a queued row of the table (with its payload decoded) whose priority no
  queued row exceeds, and among the queued rows of that priority none was created
  earlier. For t1 and t3 at priority 5 and t2 at priority 1, created in the order t1, t2,
  t3, selecting and marking each selected task as running yields t1, t3, t2, and then
  no task.
\<close>

theorem get_next_task_order:
  "(get_next_task w = None \<longleftrightarrow> (\<forall>t \<in> set (agent_tasks w). t_status t \<noteq> QUEUED))
   \<and> (\<forall>task. get_next_task w = Some task \<longrightarrow>
        (\<exists>t \<in> set (agent_tasks w). t_status t = QUEUED
           \<and> task = t\<lparr>t_payload := Some (case t_payload t of None \<Rightarrow> [] | Some pl \<Rightarrow> pl)\<rparr>
           \<and> (\<forall>u \<in> set (agent_tasks w). t_status u = QUEUED \<longrightarrow>
                 t_priority u < t_priority t
                 \<or> (t_priority u = t_priority t \<and> t_created_at t \<le> t_created_at u))))
   \<and> map_option t_id (get_next_task three_tasks) = Some ''t1''
   \<and> map_option t_id (get_next_task (update_task_status ''t1'' RUNNING None three_tasks))
       = Some ''t3''
   \<and> map_option t_id
       (get_next_task (update_task_status ''t3'' RUNNING None
          (update_task_status ''t1'' RUNNING None three_tasks))) = Some ''t2''
   \<and> get_next_task (update_task_status ''t2'' RUNNING None
         (update_task_status ''t3'' RUNNING None
           (update_task_status ''t1'' RUNNING None three_tasks))) = None"
proof -
  let ?key = "\<lambda>t. (- t_priority t, t_created_at t)"
  let ?q = "filter (\<lambda>t. t_status t = QUEUED) (agent_tasks w)"
  have 1: "get_next_task w = None \<longleftrightarrow> (\<forall>t \<in> set (agent_tasks w). t_status t \<noteq> QUEUED)"
  proof -
    have "get_next_task w = None \<longleftrightarrow> sort_key ?key ?q = []"
      by (simp add: get_next_task_def split: list.splits)
    also have "\<dots> \<longleftrightarrow> ?q = []" by (rule sort_key_Nil)
    also have "\<dots> \<longleftrightarrow> (\<forall>t \<in> set (agent_tasks w). t_status t \<noteq> QUEUED)"
      by (simp add: filter_empty_conv)
    finally show ?thesis .
  qed
  have 2: "\<exists>t \<in> set (agent_tasks w). t_status t = QUEUED
           \<and> task = t\<lparr>t_payload := Some (case t_payload t of None \<Rightarrow> [] | Some pl \<Rightarrow> pl)\<rparr>
           \<and> (\<forall>u \<in> set (agent_tasks w). t_status u = QUEUED \<longrightarrow>
                 t_priority u < t_priority t
                 \<or> (t_priority u = t_priority t \<and> t_created_at t \<le> t_created_at u))"
    if "get_next_task w = Some task" for task
  proof -
    from that obtain t ts where s: "sort_key ?key ?q = t # ts"
      and task: "task = t\<lparr>t_payload := Some (case t_payload t of None \<Rightarrow> [] | Some pl \<Rightarrow> pl)\<rparr>"
      by (auto simp: get_next_task_def split: list.splits)
    have m: "t \<in> set ?q" using sort_key_head_mem [OF s] .
    have "t_priority u < t_priority t
          \<or> (t_priority u = t_priority t \<and> t_created_at t \<le> t_created_at u)"
      if "u \<in> set (agent_tasks w)" "t_status u = QUEUED" for u
    proof -
      have "u \<in> set ?q" using that by simp
      then have "?key t \<le> ?key u" using sort_key_head_least [OF s] by blast
      then show ?thesis by auto
    qed
    then show ?thesis using m task by auto
  qed
  show ?thesis using 1 2 example_selection by blast
qed


theorem get_next_task_order_witness:
  "get_next_task three_tasks = Some ((queued_task ''t1'' 5 1)\<lparr>t_payload := Some []\<rparr>)
   \<and> (\<exists>t \<in> set (agent_tasks three_tasks). t_status t = QUEUED
         \<and> (queued_task ''t1'' 5 1)\<lparr>t_payload := Some []\<rparr> =
             t\<lparr>t_payload := Some (case t_payload t of None \<Rightarrow> [] | Some pl \<Rightarrow> pl)\<rparr>
         \<and> (\<forall>u \<in> set (agent_tasks three_tasks). t_status u = QUEUED \<longrightarrow>
               t_priority u < t_priority t
               \<or> (t_priority u = t_priority t \<and> t_created_at t \<le> t_created_at u)))"
proof -
  have h: "get_next_task three_tasks = Some ((queued_task ''t1'' 5 1)\<lparr>t_payload := Some []\<rparr>)"
    by (simp add: get_next_task_def three_tasks_def world0_def queued_task_def)
  have "\<forall>task. get_next_task three_tasks = Some task \<longrightarrow>
        (\<exists>t \<in> set (agent_tasks three_tasks). t_status t = QUEUED
           \<and> task = t\<lparr>t_payload := Some (case t_payload t of None \<Rightarrow> [] | Some pl \<Rightarrow> pl)\<rparr>
           \<and> (\<forall>u \<in> set (agent_tasks three_tasks). t_status u = QUEUED \<longrightarrow>
                 t_priority u < t_priority t
                 \<or> (t_priority u = t_priority t \<and> t_created_at t \<le> t_created_at u)))"
    using get_next_task_order [of three_tasks] by (rule_tac conjunct1 [OF conjunct2])
  then show ?thesis using h by blast
qed

subsection \<open>Session pool\<close>

lemma gbs_cached:
  "map_of (active_browsers wk) s = Some h \<Longrightarrow>
   get_browser_for_shop E s wk w = (Inr (Some h), wk, w)"
  by (simp add: get_browser_for_shop_def)

lemma gbs_unmapped:
  "map_of (active_browsers wk) s = None \<Longrightarrow> \<not> mapped wk s \<Longrightarrow>
   get_browser_for_shop E s wk w = (Inr None, wk, w)"
  by (auto simp: get_browser_for_shop_def mapped_def split: option.splits)

text \<open>The events of an acquisition that reaches the start call.\<close>

lemma gbs_fresh:
  assumes "map_of (active_browsers wk) s = None"
    and "map_of (shop_browser_map wk) s = Some b" and "b \<noteq> []"
    and "get_browser_for_shop E s wk w = (r, wk', w')"
  shows "\<exists>es. w' = w\<lparr>events := events w @ Start_browser b headless # es\<rparr>
     \<and> list_all (\<lambda>ev. \<not> is_start_browser ev \<and> \<not> is_page ev \<and> \<not> is_status_write ev) es
     \<and> shop_browser_map wk' = shop_browser_map wk \<and> worker_id wk' = worker_id wk
     \<and> (case r of
           Inr (Some h) \<Rightarrow> active_browsers wk' = active_browsers wk @ [(s, h)]
         | _ \<Rightarrow> active_browsers wk' = active_browsers wk)"
proof (cases "start_browser_reply E (events w) (Start_browser b headless)")
  case (Start_failed err)
  then have "w' = w\<lparr>events := events w @ Start_browser b headless # []\<rparr>" "wk' = wk" "r = Inr None"
    using assms by (simp_all add: get_browser_for_shop_def start_browser_def ask_def issue_def)
  then show ?thesis by (intro exI [of _ "[]"]) simp
next
  case (Started port ctype cversion dl)
  let ?w1 = "w\<lparr>events := events w @ [Start_browser b headless]\<rparr>"
  show ?thesis
  proof (cases "core_major cversion")
    case (Inl e)
    then have "w' = w\<lparr>events := events w @ Start_browser b headless # []\<rparr>" "wk' = wk" "r = Inl e"
      using assms Started
      by (simp_all add: get_browser_for_shop_def start_browser_def ask_def issue_def)
    then show ?thesis by (intro exI [of _ "[]"]) simp
  next
    case (Inr major)
    show ?thesis
    proof (cases "unit_reply E (events ?w1) (Create_controller port major)")
      case (Some e)
      then have "w' = w\<lparr>events := events w @ Start_browser b headless # [Create_controller port major]\<rparr>"
        "wk' = wk" "r = Inl e"
        using assms Started Inr
        by (simp_all add: get_browser_for_shop_def start_browser_def ask_def issue_def)
      then show ?thesis by (intro exI [of _ "[Create_controller port major]"]) simp
    next
      case None
      let ?c = "\<lparr>obj = objects wk, debugging_port = port, core_version = major\<rparr>"
      let ?w2 = "w\<lparr>events := events w @ [Start_browser b headless, Create_controller port major]\<rparr>"
      show ?thesis
      proof (cases "bool_reply E (events ?w2) (Connect (objects wk))")
        case True
        then have "w' = w\<lparr>events := events w @ Start_browser b headless
                      # [Create_controller port major, Connect (objects wk)]\<rparr>"
          "wk' = wk\<lparr>objects := Suc (objects wk), active_browsers := active_browsers wk @ [(s, ?c)]\<rparr>"
          "r = Inr (Some ?c)"
          using assms Started Inr None
          by (simp_all add: get_browser_for_shop_def start_browser_def ask_def issue_def Let_def)
        then show ?thesis by (intro exI [of _ "[Create_controller port major, Connect (objects wk)]"]) simp
      next
        case False
        then have "w' = w\<lparr>events := events w @ Start_browser b headless
                      # [Create_controller port major, Connect (objects wk)]\<rparr>"
          "wk' = wk\<lparr>objects := Suc (objects wk)\<rparr>" "r = Inr None"
          using assms Started Inr None
          by (simp_all add: get_browser_for_shop_def start_browser_def ask_def issue_def Let_def)
        then show ?thesis by (intro exI [of _ "[Create_controller port major, Connect (objects wk)]"]) simp
      qed
    qed
  qed
qed


lemma gbs_success_live:
  assumes "get_browser_for_shop E s wk w = (Inr (Some h), wk1, w1)"
  shows "map_of (active_browsers wk1) s = Some h"
proof (cases "map_of (active_browsers wk) s")
  case (Some h')
  then show ?thesis using assms gbs_cached [OF Some, of E w] by simp
next
  case None
  have "mapped wk s"
  proof (rule ccontr)
    assume "\<not> mapped wk s"
    then show False using gbs_unmapped [OF None, of E w] assms by simp
  qed
  then obtain b where b: "map_of (shop_browser_map wk) s = Some b" "b \<noteq> []"
    unfolding mapped_def by blast
  have "active_browsers wk1 = active_browsers wk @ [(s, h)]"
    using gbs_fresh [OF None b assms] by auto
  then show ?thesis using None by (simp add: map_add_def)
qed

lemma gbs_keeps_live:
  assumes "get_browser_for_shop E t wk w = (r, wk', w')"
    and "map_of (active_browsers wk) s = Some h"
  shows "map_of (active_browsers wk') s = Some h"
proof (cases "map_of (active_browsers wk) t")
  case (Some h')
  then show ?thesis using assms gbs_cached [OF Some, of E w] by simp
next
  case None
  show ?thesis
  proof (cases "mapped wk t")
    case False
    then show ?thesis using gbs_unmapped [OF None False, of E w] assms by simp
  next
    case True
    then obtain b where b: "map_of (shop_browser_map wk) t = Some b" "b \<noteq> []"
      unfolding mapped_def by blast
    have "active_browsers wk' = active_browsers wk
        \<or> (\<exists>h'. active_browsers wk' = active_browsers wk @ [(t, h')])"
      using gbs_fresh [OF None b assms(1)] by (auto split: sum.splits option.splits)
    then show ?thesis using assms(2) by (auto simp: map_add_def)
  qed
qed

lemma gbs_provisioning:
  assumes "get_browser_for_shop E t wk w = (r, wk', w')"
  shows "provisioning_calls w w' =
    (if map_of (active_browsers wk) t = None \<and> mapped wk t then 1 else 0)"
proof (cases "map_of (active_browsers wk) t")
  case (Some h')
  then show ?thesis using assms gbs_cached [OF Some, of E w]
    by (simp add: provisioning_calls_def new_events_def)
next
  case None
  show ?thesis
  proof (cases "mapped wk t")
    case False
    then show ?thesis using gbs_unmapped [OF None False, of E w] assms
      by (simp add: provisioning_calls_def new_events_def)
  next
    case True
    then obtain b where b: "map_of (shop_browser_map wk) t = Some b" "b \<noteq> []"
      unfolding mapped_def by blast
    obtain es where "w' = w\<lparr>events := events w @ Start_browser b headless # es\<rparr>"
      "list_all (\<lambda>ev. \<not> is_start_browser ev \<and> \<not> is_page ev \<and> \<not> is_status_write ev) es"
      using gbs_fresh [OF None b assms] by blast
    then have "new_events w w' = Start_browser b headless # es" "filter is_start_browser es = []"
      by (auto simp: new_events_def list_all_iff filter_empty_conv)
    then show ?thesis using None True by (simp add: provisioning_calls_def)
  qed
qed

text \<open>
  Claim C5, as amended. After a successful acquire for a tenant, every later acquire for
  it returns the same controller object and leaves the worker and the world as they are,
  so it issues no start call; this also holds after an acquire for any other tenant. An
  acquire for a tenant issues exactly one start call when the tenant has no live session
  and a non-empty mapped identifier, and none otherwise.
\<close>

theorem session_affinity:
  assumes "get_browser_for_shop E s wk w = (Inr (Some h), wk1, w1)"
  shows "get_browser_for_shop E s wk1 w2 = (Inr (Some h), wk1, w2)
    \<and> provisioning_calls w2 (snd (snd (get_browser_for_shop E t wk1 w2))) =
        (if map_of (active_browsers wk1) t = None \<and> mapped wk1 t then 1 else 0)
    \<and> get_browser_for_shop E s (fst (snd (get_browser_for_shop E t wk1 w2))) w3 =
        (Inr (Some h), fst (snd (get_browser_for_shop E t wk1 w2)), w3)"
proof -
  have live: "map_of (active_browsers wk1) s = Some h" using gbs_success_live [OF assms] .
  obtain r wk2 w' where t: "get_browser_for_shop E t wk1 w2 = (r, wk2, w')"
    by (cases "get_browser_for_shop E t wk1 w2")
  have "map_of (active_browsers wk2) s = Some h" using gbs_keeps_live [OF t live] .
  then show ?thesis using gbs_cached live gbs_provisioning [OF t] t by simp
qed

theorem session_affinity_witness:
  "get_browser_for_shop env_ok ''shop_a'' worker0 world0 =
     (Inr (Some controller0),
      worker0\<lparr>objects := 1, active_browsers := [(''shop_a'', controller0)]\<rparr>,
      world0\<lparr>events := [Start_browser ''101'' False, Create_controller 9222 ''131'', Connect 0]\<rparr>)
   \<and> get_browser_for_shop env_ok ''shop_a''
        (worker0\<lparr>objects := 1, active_browsers := [(''shop_a'', controller0)]\<rparr>) world0 =
       (Inr (Some controller0),
        worker0\<lparr>objects := 1, active_browsers := [(''shop_a'', controller0)]\<rparr>, world0)
   \<and> provisioning_calls world0
        (snd (snd (get_browser_for_shop env_ok ''shop_b''
           (worker0\<lparr>objects := 1, active_browsers := [(''shop_a'', controller0)]\<rparr>) world0))) = 0"
proof -
  have h: "get_browser_for_shop env_ok ''shop_a'' worker0 world0 =
     (Inr (Some controller0),
      worker0\<lparr>objects := 1, active_browsers := [(''shop_a'', controller0)]\<rparr>,
      world0\<lparr>events := [Start_browser ''101'' False, Create_controller 9222 ''131'', Connect 0]\<rparr>)"
    by (simp add: get_browser_for_shop_def start_browser_def core_major_def ask_def issue_def
        headless_def worker0_def example_defs Let_def)
  show ?thesis
    using h session_affinity [OF h, of world0 "''shop_b''" world0]
    by (simp add: mapped_def worker0_def)
qed

text \<open>
  Claim C5 as stated fails for a different tenant that has no mapped identifier: the
  acquire returns \<open>None\<close> before any start call, and the history stays as it was.
\<close>

theorem unmapped_tenant_no_provisioning:
  "get_browser_for_shop env_ok ''shop_a'' worker0 world0 =
     (Inr (Some controller0),
      worker0\<lparr>objects := 1, active_browsers := [(''shop_a'', controller0)]\<rparr>,
      world0\<lparr>events := [Start_browser ''101'' False, Create_controller 9222 ''131'', Connect 0]\<rparr>)
   \<and> get_browser_for_shop env_ok ''shop_b''
        (worker0\<lparr>objects := 1, active_browsers := [(''shop_a'', controller0)]\<rparr>)
        (world0\<lparr>events := [Start_browser ''101'' False, Create_controller 9222 ''131'', Connect 0]\<rparr>) =
       (Inr None,
        worker0\<lparr>objects := 1, active_browsers := [(''shop_a'', controller0)]\<rparr>,
        world0\<lparr>events := [Start_browser ''101'' False, Create_controller 9222 ''131'', Connect 0]\<rparr>)"
  by (simp add: get_browser_for_shop_def start_browser_def core_major_def ask_def issue_def
      headless_def worker0_def example_defs Let_def)

subsection \<open>Worker: task life cycle\<close>

lemma quiet_preorder: "preorder_on_worlds quiet"
proof -
  have e: "preorder_on_worlds (extends (\<lambda>ev. \<not> is_status_write ev))" by (rule extends_preorder)
  then show ?thesis unfolding preorder_on_worlds_def quiet_def by (metis (no_types, lifting))
qed

lemma page_only_quiet: "page_only n w w' \<Longrightarrow> quiet w w'"
proof -
  assume p: "page_only n w w'"
  then have "extends (\<lambda>ev. \<not> is_status_write ev) w w'" by (rule page_only_extends) simp
  moreover have "agent_tasks w' = agent_tasks w \<and> agent_runs w' = agent_runs w"
    using p by (auto simp: page_only_def)
  ultimately show ?thesis by (simp add: quiet_def)
qed

lemma capture_quiet: "only (capture E c run stage ty) quiet"
proof (rule only_I)
  fix w r w' assume a: "capture E c run stage ty w = (r, w')"
  obtain r1 w1 where s: "screenshot_evidence E c run stage w = (r1, w1)"
    by (cases "screenshot_evidence E c run stage w")
  have w1: "w1 = w\<lparr>events := events w @ [Page (obj c) (Screenshot (run @ ''_'' @ stage))]\<rparr>"
    using screenshot_evidence_world [OF s] .
  show "quiet w w'"
  proof (cases r1)
    case (Inl e)
    then have "w' = w1" using a s by (simp add: capture_def bind_ex_def)
    then show ?thesis using w1
      by (simp add: quiet_def extends_def)
  next
    case (Inr shot)
    obtain r2 w2 where b: "save_artifact_record E run ty shot w1 = (r2, w2)"
      by (cases "save_artifact_record E run ty shot w1")
    have "w' = w2" using a s b Inr
      by (cases r2) (simp_all add: capture_def bind_ex_def return_ex_def)
    moreover have "events w2 = events w1 @ [Save_artifact run ty shot]"
      using save_artifact_events [OF b] .
    moreover have "agent_tasks w2 = agent_tasks w1 \<and> agent_runs w2 = agent_runs w1"
      using b by (cases "unit_reply E (events w1) (Save_artifact run ty shot)")
        (auto simp: save_artifact_record_def issue_def Let_def)
    ultimately show ?thesis using w1 by (simp add: quiet_def extends_def)
  qed
qed

lemma run_action_quiet: "only (run_action E cls c st cx pl) quiet"
  unfolding run_action_def
proof (rule only_execute [OF quiet_preorder capture_quiet])
  show "only (do_action cls E c (get_locators (site cx)) cx pl) quiet"
    by (rule only_weaken [OF only_do_action]) (rule page_only_quiet)
qed

lemma gbs_quiet:
  assumes "get_browser_for_shop E s wk w = (r, wk', w')"
  shows "\<exists>es. w' = w\<lparr>events := events w @ es\<rparr>
     \<and> list_all (\<lambda>ev. \<not> is_page ev \<and> \<not> is_status_write ev) es"
proof (cases "map_of (active_browsers wk) s")
  case (Some h)
  then have "w' = w" using assms gbs_cached [OF Some, of E w] by simp
  then show ?thesis by (intro exI [of _ "[]"]) simp
next
  case None
  show ?thesis
  proof (cases "mapped wk s")
    case False
    then have "w' = w" using gbs_unmapped [OF None False, of E w] assms by simp
    then show ?thesis by (intro exI [of _ "[]"]) simp
  next
    case True
    then obtain b where b: "map_of (shop_browser_map wk) s = Some b" "b \<noteq> []"
      unfolding mapped_def by blast
    obtain es where "w' = w\<lparr>events := events w @ Start_browser b headless # es\<rparr>"
      "list_all (\<lambda>ev. \<not> is_start_browser ev \<and> \<not> is_page ev \<and> \<not> is_status_write ev) es"
      using gbs_fresh [OF None b assms] by blast
    then show ?thesis by (intro exI [of _ "Start_browser b headless # es"]) (simp add: list_all_iff)
  qed
qed

lemma quiet_refl: "quiet w w"
  using quiet_preorder unfolding preorder_on_worlds_def by blast

lemma quiet_trans: "quiet a b \<Longrightarrow> quiet b c \<Longrightarrow> quiet a c"
  using quiet_preorder unfolding preorder_on_worlds_def by blast

lemma finishes_raised:
  "quiet w2 wX \<Longrightarrow> finishes tid rid w2 (task_raised tid rid e wX) FAILED"
  unfolding finishes_def task_raised_def by blast

lemma finishes_result:
  "quiet w2 wX \<Longrightarrow>
   finishes tid rid w2
     (update_task_status tid SUCCESS None (complete_run rid res rerr wX)) SUCCESS"
  "quiet w2 wX \<Longrightarrow>
   finishes tid rid w2
     (update_task_status tid FAILED (Some err) (complete_run rid res rerr wX)) FAILED"
  unfolding finishes_def by blast+

lemma execute_task_finishes:
  "\<exists>st wk' w'. execute_task E task wk w = (st = SUCCESS, wk', w')
     \<and> finishes (t_id task)
          (fst (create_run E (t_id task) (worker_id wk)
                 (update_task_status (t_id task) RUNNING None w)))
          (snd (create_run E (t_id task) (worker_id wk)
                 (update_task_status (t_id task) RUNNING None w))) w' st"
proof -
  let ?tid = "t_id task"
  let ?cr = "create_run E ?tid (worker_id wk) (update_task_status ?tid RUNNING None w)"
  obtain rid w2 where cr: "?cr = (rid, w2)" by (cases ?cr)
  obtain r0 wk' w3 where g: "get_browser_for_shop E (t_shop_id task) wk w2 = (r0, wk', w3)"
    by (cases "get_browser_for_shop E (t_shop_id task) wk w2")
  have q23: "quiet w2 w3"
  proof -
    obtain es where "w3 = w2\<lparr>events := events w2 @ es\<rparr>"
      "list_all (\<lambda>ev. \<not> is_page ev \<and> \<not> is_status_write ev) es"
      using gbs_quiet [OF g] by blast
    then show ?thesis by (auto simp: quiet_def extends_def list_all_iff)
  qed
  have raised3: "finishes ?tid rid w2 (task_raised ?tid rid e w3) FAILED" for e
    using finishes_raised [OF q23] .
  have "\<exists>st w'. execute_task E task wk w = (st = SUCCESS, wk', w') \<and> finishes ?tid rid w2 w' st"
  proof (cases r0)
    case (Inl e)
    then have "execute_task E task wk w = (FAILED = SUCCESS, wk', task_raised ?tid rid e w3)"
      using cr g by (simp add: execute_task_def Let_def)
    then show ?thesis using raised3 by blast
  next
    case (Inr bo)
    show ?thesis
    proof (cases bo)
      case None
      then have "execute_task E task wk w =
          (FAILED = SUCCESS, wk', task_raised ?tid rid (No_browser (t_shop_id task)) w3)"
        using cr g Inr by (simp add: execute_task_def Let_def)
      then show ?thesis using raised3 by blast
    next
      case (Some browser)
      show ?thesis
      proof (cases "get_action_class (t_action task)")
        case (Inl e)
        then have "execute_task E task wk w = (FAILED = SUCCESS, wk', task_raised ?tid rid e w3)"
          using cr g Inr Some by (simp add: execute_task_def Let_def)
        then show ?thesis using raised3 by blast
      next
        case cls: (Inr cls)
        show ?thesis
        proof (cases "locale_site (t_payload task)")
          case (Inl e)
          then have "execute_task E task wk w = (FAILED = SUCCESS, wk', task_raised ?tid rid e w3)"
            using cr g Inr Some cls by (simp add: execute_task_def Let_def)
          then show ?thesis using raised3 by blast
        next
          case sp: (Inr sp)
          obtain st pl where sp': "sp = (st, pl)" by (cases sp)
          let ?cx = "\<lparr>task_id = ?tid, run_id = rid, shop_id = t_shop_id task, site = st,
                      dry_run = t_dry_run task\<rparr>"
          obtain ra w4 where ra: "run_action E cls browser True ?cx pl w3 = (ra, w4)"
            by (cases "run_action E cls browser True ?cx pl w3")
          have q24: "quiet w2 w4"
            using quiet_trans [OF q23 only_D [OF run_action_quiet ra]] .
          show ?thesis
          proof (cases ra)
            case (Inl e)
            then have "execute_task E task wk w = (FAILED = SUCCESS, wk', task_raised ?tid rid e w4)"
              using cr g Inr Some cls sp sp' ra by (simp add: execute_task_def Let_def)
            then show ?thesis using finishes_raised [OF q24] by blast
          next
            case res: (Inr result)
            show ?thesis
            proof (cases "ok result")
              case True
              then have "execute_task E task wk w =
                  (SUCCESS = SUCCESS, wk',
                   update_task_status ?tid SUCCESS None
                     (complete_run rid (Result_of result) None w4))"
                using cr g Inr Some cls sp sp' ra res by (simp add: execute_task_def Let_def)
              then show ?thesis using finishes_result(1) [OF q24] by blast
            next
              case False
              then have "execute_task E task wk w =
                  (FAILED = SUCCESS, wk',
                   update_task_status ?tid FAILED
                     (Some (Code_and_message (error_code result) (error_message result)))
                     (complete_run rid (Result_of result) (error_message result) w4))"
                using cr g Inr Some cls sp sp' ra res by (simp add: execute_task_def Let_def)
              then show ?thesis using finishes_result(2) [OF q24] by blast
            qed
          qed
        qed
      qed
    qed
  qed
  then show ?thesis using cr by auto
qed

text \<open>
  \<open>execute_task\<close> returns \<open>True\<close> exactly when the action of the task returned an
  outcome with \<open>ok = True\<close>.
\<close>

lemma execute_task_outcome:
  "fst (execute_task E task wk w) \<longleftrightarrow> (\<exists>r. action_outcome E task wk w = Inr r \<and> ok r)"
proof -
  let ?tid = "t_id task"
  let ?cr = "create_run E ?tid (worker_id wk) (update_task_status ?tid RUNNING None w)"
  obtain rid w2 where cr: "?cr = (rid, w2)" by (cases ?cr)
  obtain r0 wk' w3 where g: "get_browser_for_shop E (t_shop_id task) wk w2 = (r0, wk', w3)"
    by (cases "get_browser_for_shop E (t_shop_id task) wk w2")
  show ?thesis
  proof (cases r0)
    case (Inl e)
    then show ?thesis using cr g by (simp add: execute_task_def action_outcome_def Let_def)
  next
    case (Inr bo)
    show ?thesis
    proof (cases bo)
      case None
      then show ?thesis using cr g Inr by (simp add: execute_task_def action_outcome_def Let_def)
    next
      case (Some browser)
      show ?thesis
      proof (cases "get_action_class (t_action task)")
        case (Inl e)
        then show ?thesis using cr g Inr Some
          by (simp add: execute_task_def action_outcome_def Let_def)
      next
        case cls: (Inr cls)
        show ?thesis
        proof (cases "locale_site (t_payload task)")
          case (Inl e)
          then show ?thesis using cr g Inr Some cls
            by (simp add: execute_task_def action_outcome_def Let_def)
        next
          case sp: (Inr sp)
          obtain st pl where sp': "sp = (st, pl)" by (cases sp)
          let ?cx = "\<lparr>task_id = ?tid, run_id = rid, shop_id = t_shop_id task, site = st,
                      dry_run = t_dry_run task\<rparr>"
          obtain ra w4 where ra: "run_action E cls browser True ?cx pl w3 = (ra, w4)"
            by (cases "run_action E cls browser True ?cx pl w3")
          show ?thesis
          proof (cases ra)
            case (Inl e)
            then show ?thesis using cr g Inr Some cls sp sp' ra
              by (simp add: execute_task_def action_outcome_def Let_def)
          next
            case res: (Inr result)
            then show ?thesis using cr g Inr Some cls sp sp' ra
              by (cases "ok result") (simp_all add: execute_task_def action_outcome_def Let_def)
          qed
        qed
      qed
    qed
  qed
qed

lemma map_filter_write_of_quiet:
  "list_all (\<lambda>ev. \<not> is_status_write ev) es \<Longrightarrow> List.map_filter write_of es = []"
proof (induction es)
  case Nil
  then show ?case by (simp add: List.map_filter_simps)
next
  case (Cons ev es)
  then show ?case by (cases ev) (simp_all add: List.map_filter_simps)
qed

lemma map_filter_append:
  "List.map_filter f (xs @ ys) = List.map_filter f xs @ List.map_filter f ys"
  by (simp add: List.map_filter_def)

lemma create_run_world:
  "create_run E tid wid w1 = (rid, w2) \<Longrightarrow>
   events w2 = events w1 @ [Create_run rid tid wid] \<and> agent_tasks w2 = agent_tasks w1
   \<and> agent_artifacts w2 = agent_artifacts w1
   \<and> agent_runs w2 = agent_runs w1 @
        [\<lparr>r_id = rid, r_task_id = tid, r_worker_id = wid, r_result = None, r_error = None\<rparr>]"
  by (auto simp: create_run_def issue_def Let_def)

lemma finishes_effect:
  assumes cr: "create_run E tid wid (update_task_status tid RUNNING None w) = (rid, w2)"
    and f: "finishes tid rid w2 w' st"
  shows "status_writes w w' = [(tid, RUNNING), (tid, st)]"
    and "map (\<lambda>t. (t_id t, t_status t)) (agent_tasks w') =
         map (\<lambda>t. (t_id t, if t_id t = tid then st else t_status t)) (agent_tasks w)"
proof -
  obtain wX res rerr err where w': "w' = update_task_status tid st err (complete_run rid res rerr wX)"
    and q: "quiet w2 wX" using f unfolding finishes_def by blast
  obtain es where es: "events wX = events w2 @ es" "list_all (\<lambda>ev. \<not> is_status_write ev) es"
    and tX: "agent_tasks wX = agent_tasks w2"
    using q unfolding quiet_def extends_def by blast
  have e2: "events w2 = events w @ [Update_task_status tid RUNNING None, Create_run rid tid wid]"
    and t2: "agent_tasks w2 = agent_tasks (update_task_status tid RUNNING None w)"
    using create_run_world [OF cr] by (simp_all add: update_task_status_def issue_def)
  have "events w' = events w @ ([Update_task_status tid RUNNING None, Create_run rid tid wid] @ es
          @ [Complete_run rid res rerr, Update_task_status tid st err])"
    using w' es(1) e2 by (simp add: update_task_status_def complete_run_def issue_def)
  then have "new_events w w' = [Update_task_status tid RUNNING None, Create_run rid tid wid] @ es
          @ [Complete_run rid res rerr, Update_task_status tid st err]"
    by (simp add: new_events_def)
  then show "status_writes w w' = [(tid, RUNNING), (tid, st)]"
    using map_filter_write_of_quiet [OF es(2)]
    by (simp add: status_writes_def map_filter_append List.map_filter_simps)
  have "agent_tasks w' =
      agent_tasks (update_task_status tid st err (update_task_status tid RUNNING None w))"
    using w' tX t2 by (simp add: update_task_status_def complete_run_def issue_def)
  then show "map (\<lambda>t. (t_id t, t_status t)) (agent_tasks w') =
         map (\<lambda>t. (t_id t, if t_id t = tid then st else t_status t)) (agent_tasks w)"
    by (simp add: update_task_status_def issue_def)
qed

lemma get_next_task_Some:
  assumes "get_next_task w = Some task"
  shows "\<exists>t \<in> set (agent_tasks w). t_status t = QUEUED \<and> t_id task = t_id t"
proof -
  let ?key = "\<lambda>t. (- t_priority t, t_created_at t)"
  let ?q = "filter (\<lambda>t. t_status t = QUEUED) (agent_tasks w)"
  from assms obtain t ts where s: "sort_key ?key ?q = t # ts"
    and task: "task = t\<lparr>t_payload := Some (case t_payload t of None \<Rightarrow> [] | Some pl \<Rightarrow> pl)\<rparr>"
    by (auto simp: get_next_task_def split: list.splits)
  have "t \<in> set ?q" using sort_key_head_mem [OF s] .
  then show ?thesis using task by auto
qed

lemma execute_task_cycle:
  "\<exists>st. status_writes w (snd (snd (execute_task E task wk w))) =
          [(t_id task, RUNNING), (t_id task, st)]
      \<and> (st = SUCCESS \<or> st = FAILED)
      \<and> (st = SUCCESS \<longleftrightarrow> fst (execute_task E task wk w))
      \<and> map (\<lambda>t. (t_id t, t_status t)) (agent_tasks (snd (snd (execute_task E task wk w)))) =
          map (\<lambda>t. (t_id t, if t_id t = t_id task then st else t_status t)) (agent_tasks w)"
proof -
  let ?cr = "create_run E (t_id task) (worker_id wk) (update_task_status (t_id task) RUNNING None w)"
  obtain st wk' w' where e: "execute_task E task wk w = (st = SUCCESS, wk', w')"
    and f: "finishes (t_id task) (fst ?cr) (snd ?cr) w' st"
    using execute_task_finishes [of E task wk w] by blast
  have cr: "?cr = (fst ?cr, snd ?cr)" by simp
  have "st = SUCCESS \<or> st = FAILED"
    using f unfolding finishes_def by blast
  then show ?thesis
    using e finishes_effect [OF cr f]
    by (intro exI [of _ st]) simp
qed

lemma forward_row:
  assumes "st = SUCCESS \<or> st = FAILED"
  shows "status_step\<^sup>*\<^sup>* QUEUED st"
proof -
  have "status_step QUEUED RUNNING" "status_step RUNNING st" using assms by auto
  then show ?thesis by (meson converse_rtranclp_into_rtranclp r_into_rtranclp)
qed

lemma run_once_forward:
  assumes d: "distinct (map t_id (agent_tasks w))"
    and r: "run_once E wk w = (b, wk1, w1)"
  shows "list_all2 (\<lambda>t t'. t_id t' = t_id t \<and> status_step\<^sup>*\<^sup>* (t_status t) (t_status t'))
           (agent_tasks w) (agent_tasks w1)
       \<and> distinct (map t_id (agent_tasks w1))"
proof (cases "get_next_task w")
  case None
  then have "w1 = w" using r by (simp add: run_once_def)
  then show ?thesis using d by (simp add: list_all2_same)
next
  case (Some task)
  then have w1: "w1 = snd (snd (execute_task E task wk w))"
    using r by (auto simp: run_once_def split: prod.splits)
  obtain st where st: "st = SUCCESS \<or> st = FAILED"
    and tbl: "map (\<lambda>t. (t_id t, t_status t)) (agent_tasks w1) =
              map (\<lambda>t. (t_id t, if t_id t = t_id task then st else t_status t)) (agent_tasks w)"
    using execute_task_cycle [of w E task wk] w1 by auto
  obtain t0 where t0: "t0 \<in> set (agent_tasks w)" "t_status t0 = QUEUED" "t_id task = t_id t0"
    using get_next_task_Some [OF Some] by blast
  have q: "t_status t = QUEUED" if "t \<in> set (agent_tasks w)" "t_id t = t_id task" for t
  proof -
    have "t = t0" using d that t0 by (metis distinct_map inj_onD)
    then show ?thesis using t0 by simp
  qed
  have "map fst (map (\<lambda>t. (t_id t, t_status t)) (agent_tasks w1)) =
        map fst (map (\<lambda>t. (t_id t, if t_id t = t_id task then st else t_status t)) (agent_tasks w))"
    using tbl by simp
  then have ids: "map t_id (agent_tasks w1) = map t_id (agent_tasks w)"
    by (simp add: comp_def)
  have len: "length (agent_tasks w1) = length (agent_tasks w)"
    using ids by (metis length_map)
  have "list_all2 (\<lambda>t t'. t_id t' = t_id t \<and> status_step\<^sup>*\<^sup>* (t_status t) (t_status t'))
           (agent_tasks w) (agent_tasks w1)"
  proof (rule list_all2_all_nthI)
    show "length (agent_tasks w) = length (agent_tasks w1)" using len by simp
  next
    fix i assume i: "i < length (agent_tasks w)"
    let ?t = "agent_tasks w ! i" and ?t' = "agent_tasks w1 ! i"
    have "map (\<lambda>t. (t_id t, t_status t)) (agent_tasks w1) ! i =
          map (\<lambda>t. (t_id t, if t_id t = t_id task then st else t_status t)) (agent_tasks w) ! i"
      using tbl by simp
    then have p: "t_id ?t' = t_id ?t"
      "t_status ?t' = (if t_id ?t = t_id task then st else t_status ?t)"
      using i len by simp_all
    have m: "?t \<in> set (agent_tasks w)" using i by simp
    show "t_id ?t' = t_id ?t \<and> status_step\<^sup>*\<^sup>* (t_status ?t) (t_status ?t')"
    proof (cases "t_id ?t = t_id task")
      case True
      then show ?thesis using p q [OF m True] forward_row [OF st] by simp
    next
      case False
      then show ?thesis using p by simp
    qed
  qed
  then show ?thesis using d ids by simp
qed

lemma run_cycles_forward:
  "distinct (map t_id (agent_tasks w)) \<Longrightarrow>
   list_all2 (\<lambda>t t'. t_id t' = t_id t \<and> status_step\<^sup>*\<^sup>* (t_status t) (t_status t'))
     (agent_tasks w) (agent_tasks (snd (run_cycles E n wk w)))"
proof (induction n arbitrary: wk w)
  case 0
  then show ?case by (simp add: list_all2_same)
next
  case (Suc n)
  obtain b wk1 w1 where r: "run_once E wk w = (b, wk1, w1)" by (cases "run_once E wk w")
  have 1: "list_all2 (\<lambda>t t'. t_id t' = t_id t \<and> status_step\<^sup>*\<^sup>* (t_status t) (t_status t'))
           (agent_tasks w) (agent_tasks w1)"
    and d1: "distinct (map t_id (agent_tasks w1))"
    using run_once_forward [OF Suc.prems r] by simp_all
  have 2: "list_all2 (\<lambda>t t'. t_id t' = t_id t \<and> status_step\<^sup>*\<^sup>* (t_status t) (t_status t'))
           (agent_tasks w1) (agent_tasks (snd (run_cycles E n wk1 w1)))"
    using Suc.IH [OF d1] .
  have "list_all2 (\<lambda>t t'. t_id t' = t_id t \<and> status_step\<^sup>*\<^sup>* (t_status t) (t_status t'))
           (agent_tasks w) (agent_tasks (snd (run_cycles E n wk1 w1)))"
    using 1 2 by (rule list_all2_trans [rotated]) auto
  then show ?case using r by simp
qed

text \<open>
  Claim C3. From a task table with distinct ids: a cycle that finds a task issues exactly
  two status writes, both for that task, first \<open>running\<close> and then one of \<open>success\<close>
  and \<open>failed\<close>. It is \<open>success\<close> exactly when \<open>execute_task\<close> returns \<open>True\<close>, and
  exactly when the action of this task, run for this task, returned an outcome with
  \<open>ok = True\<close>; it is \<open>failed\<close> exactly when that action returned an outcome with
  \<open>ok = False\<close> (a handled failure) or an exception was raised. The rows the cycle
  writes were \<open>queued\<close>, and every other row keeps its status. A cycle that finds no
  task changes nothing. After any number of cycles every row has moved only forward
  along queued, running, success or failed.
\<close>

theorem task_status_forward:
  assumes "distinct (map t_id (agent_tasks w))"
  shows "(\<forall>task. get_next_task w = Some task \<longrightarrow>
           (\<exists>st. status_writes w (snd (snd (run_once E wk w))) =
                   [(t_id task, RUNNING), (t_id task, st)]
              \<and> (st = SUCCESS \<or> st = FAILED)
              \<and> (st = SUCCESS \<longleftrightarrow> fst (execute_task E task wk w))
              \<and> (st = SUCCESS \<longleftrightarrow> (\<exists>r. action_outcome E task wk w = Inr r \<and> ok r))
              \<and> (st = FAILED \<longleftrightarrow>
                   (\<exists>r. action_outcome E task wk w = Inr r \<and> \<not> ok r)
                 \<or> (\<exists>e. action_outcome E task wk w = Inl e))
              \<and> (\<forall>t \<in> set (agent_tasks w). t_id t = t_id task \<longrightarrow> t_status t = QUEUED)
              \<and> map (\<lambda>t. (t_id t, t_status t)) (agent_tasks (snd (snd (run_once E wk w)))) =
                  map (\<lambda>t. (t_id t, if t_id t = t_id task then st else t_status t))
                    (agent_tasks w)))
     \<and> (get_next_task w = None \<longrightarrow> run_once E wk w = (False, wk, w))
     \<and> list_all2 (\<lambda>t t'. t_id t' = t_id t \<and> status_step\<^sup>*\<^sup>* (t_status t) (t_status t'))
         (agent_tasks w) (agent_tasks (snd (run_cycles E n wk w)))"
proof (intro conjI allI impI)
  fix task assume g: "get_next_task w = Some task"
  have r: "snd (snd (run_once E wk w)) = snd (snd (execute_task E task wk w))"
    using g by (simp add: run_once_def split: prod.splits)
  obtain t0 where t0: "t0 \<in> set (agent_tasks w)" "t_status t0 = QUEUED" "t_id task = t_id t0"
    using get_next_task_Some [OF g] by blast
  have q: "\<forall>t \<in> set (agent_tasks w). t_id t = t_id task \<longrightarrow> t_status t = QUEUED"
  proof (intro ballI impI)
    fix t assume "t \<in> set (agent_tasks w)" "t_id t = t_id task"
    then have "t = t0" using assms t0 by (metis distinct_map inj_onD)
    then show "t_status t = QUEUED" using t0 by simp
  qed
  obtain st where c: "status_writes w (snd (snd (execute_task E task wk w))) =
          [(t_id task, RUNNING), (t_id task, st)]"
      "st = SUCCESS \<or> st = FAILED" "st = SUCCESS \<longleftrightarrow> fst (execute_task E task wk w)"
      "map (\<lambda>t. (t_id t, t_status t)) (agent_tasks (snd (snd (execute_task E task wk w)))) =
       map (\<lambda>t. (t_id t, if t_id t = t_id task then st else t_status t)) (agent_tasks w)"
    using execute_task_cycle [of w E task wk] by blast
  have s: "st = SUCCESS \<longleftrightarrow> (\<exists>r. action_outcome E task wk w = Inr r \<and> ok r)"
    using c(3) execute_task_outcome [of E task wk w] by simp
  have f: "st = FAILED \<longleftrightarrow>
             (\<exists>r. action_outcome E task wk w = Inr r \<and> \<not> ok r)
           \<or> (\<exists>e. action_outcome E task wk w = Inl e)"
  proof (cases "action_outcome E task wk w")
    case (Inl e)
    then show ?thesis using s c(2) by auto
  next
    case (Inr r)
    then show ?thesis using s c(2) by auto
  qed
  show "\<exists>st. status_writes w (snd (snd (run_once E wk w))) =
                   [(t_id task, RUNNING), (t_id task, st)]
              \<and> (st = SUCCESS \<or> st = FAILED)
              \<and> (st = SUCCESS \<longleftrightarrow> fst (execute_task E task wk w))
              \<and> (st = SUCCESS \<longleftrightarrow> (\<exists>r. action_outcome E task wk w = Inr r \<and> ok r))
              \<and> (st = FAILED \<longleftrightarrow>
                   (\<exists>r. action_outcome E task wk w = Inr r \<and> \<not> ok r)
                 \<or> (\<exists>e. action_outcome E task wk w = Inl e))
              \<and> (\<forall>t \<in> set (agent_tasks w). t_id t = t_id task \<longrightarrow> t_status t = QUEUED)
              \<and> map (\<lambda>t. (t_id t, t_status t)) (agent_tasks (snd (snd (run_once E wk w)))) =
                  map (\<lambda>t. (t_id t, if t_id t = t_id task then st else t_status t))
                    (agent_tasks w)"
    unfolding r
    by (rule exI [of _ st])
       (rule conjI [OF c(1) conjI [OF c(2) conjI [OF c(3) conjI [OF s conjI [OF f conjI [OF q c(4)]]]]]])
next
  assume "get_next_task w = None"
  then show "run_once E wk w = (False, wk, w)" by (simp add: run_once_def)
next
  show "list_all2 (\<lambda>t t'. t_id t' = t_id t \<and> status_step\<^sup>*\<^sup>* (t_status t) (t_status t'))
         (agent_tasks w) (agent_tasks (snd (run_cycles E n wk w)))"
    using run_cycles_forward [OF assms] .
qed

theorem task_status_forward_witness:
  "distinct (map t_id (agent_tasks three_tasks))
   \<and> get_next_task three_tasks = Some task1
   \<and> action_outcome env_ok task1 worker0 three_tasks = Inl (No_browser ''shop'')
   \<and> (\<exists>st. status_writes three_tasks (snd (snd (run_once env_ok worker0 three_tasks))) =
             [(t_id task1, RUNNING), (t_id task1, st)]
        \<and> st = FAILED
        \<and> (st = SUCCESS \<longleftrightarrow> fst (execute_task env_ok task1 worker0 three_tasks))
        \<and> (\<forall>t \<in> set (agent_tasks three_tasks). t_id t = t_id task1 \<longrightarrow> t_status t = QUEUED)
        \<and> map (\<lambda>t. (t_id t, t_status t))
             (agent_tasks (snd (snd (run_once env_ok worker0 three_tasks)))) =
            map (\<lambda>t. (t_id t, if t_id t = t_id task1 then st else t_status t))
              (agent_tasks three_tasks))
   \<and> list_all2 (\<lambda>t t'. t_id t' = t_id t \<and> status_step\<^sup>*\<^sup>* (t_status t) (t_status t'))
       (agent_tasks three_tasks) (agent_tasks (snd (run_cycles env_ok 3 worker0 three_tasks)))"
proof -
  have d: "distinct (map t_id (agent_tasks three_tasks))"
    by (simp add: three_tasks_def world0_def queued_task_def)
  have h: "get_next_task three_tasks = Some task1"
    by (simp add: get_next_task_def three_tasks_def world0_def queued_task_def task1_def)
  have a: "action_outcome env_ok task1 worker0 three_tasks = Inl (No_browser ''shop'')"
    by (simp add: action_outcome_def create_run_def get_browser_for_shop_def worker0_def
        task1_def queued_task_def Let_def)
  show ?thesis
    using d h a task_status_forward [OF d, of env_ok worker0 3] by blast
qed

lemma pool_ok_initial: "active_browsers wk = [] \<Longrightarrow> pool_ok wk"
  by (simp add: pool_ok_def)

lemma pool_ok_gbs:
  assumes "pool_ok wk" and "get_browser_for_shop E s wk w = (r, wk', w')"
  shows "pool_ok wk'"
proof (cases "map_of (active_browsers wk) s")
  case (Some h)
  then show ?thesis using assms gbs_cached [OF Some, of E w] by simp
next
  case None
  show ?thesis
  proof (cases "mapped wk s")
    case False
    then show ?thesis using gbs_unmapped [OF None False, of E w] assms by simp
  next
    case True
    then obtain b where b: "map_of (shop_browser_map wk) s = Some b" "b \<noteq> []"
      unfolding mapped_def by blast
    have m: "shop_browser_map wk' = shop_browser_map wk"
      and a: "active_browsers wk' = active_browsers wk
        \<or> (\<exists>h'. active_browsers wk' = active_browsers wk @ [(s, h')])"
      using gbs_fresh [OF None b assms(2)] by (auto split: sum.splits option.splits)
    show ?thesis
      unfolding pool_ok_def
    proof (intro allI impI)
      fix t h assume l: "map_of (active_browsers wk') t = Some h"
      have "map_of (active_browsers wk) t = Some h \<or> t = s"
        using a l by (auto simp: map_add_def split: option.splits if_splits)
      then show "mapped wk' t"
        using assms(1) True m unfolding pool_ok_def mapped_def by auto
    qed
  qed
qed

lemma execute_task_worker:
  "\<exists>w3. fst (snd (execute_task E task wk w)) =
      fst (snd (get_browser_for_shop E (t_shop_id task) wk w3))"
proof -
  let ?cr = "create_run E (t_id task) (worker_id wk) (update_task_status (t_id task) RUNNING None w)"
  have "fst (snd (execute_task E task wk w)) =
      fst (snd (get_browser_for_shop E (t_shop_id task) wk (snd ?cr)))"
    by (simp add: execute_task_def Let_def split: prod.splits sum.splits option.splits)
  then show ?thesis by blast
qed

lemma pool_ok_execute_task:
  assumes "pool_ok wk"
  shows "pool_ok (fst (snd (execute_task E task wk w)))"
proof -
  obtain w3 where "fst (snd (execute_task E task wk w)) =
      fst (snd (get_browser_for_shop E (t_shop_id task) wk w3))"
    using execute_task_worker by blast
  then show ?thesis
    using pool_ok_gbs [OF assms, of E "t_shop_id task" w3] by (metis prod.collapse)
qed

lemma pool_ok_run_cycles: "pool_ok wk \<Longrightarrow> pool_ok (fst (run_cycles E n wk w))"
proof (induction n arbitrary: wk w)
  case 0
  then show ?case by simp
next
  case (Suc n)
  obtain b wk1 w1 where r: "run_once E wk w = (b, wk1, w1)" by (cases "run_once E wk w")
  have "pool_ok wk1"
  proof (cases "get_next_task w")
    case None
    then show ?thesis using r Suc.prems by (simp add: run_once_def)
  next
    case (Some task)
    then have "wk1 = fst (snd (execute_task E task wk w))"
      using r by (auto simp: run_once_def split: prod.splits)
    then show ?thesis using pool_ok_execute_task [OF Suc.prems] by simp
  qed
  then show ?case using Suc.IH r by simp
qed

lemma execute_task_no_browser:
  assumes cr: "create_run E (t_id task) (worker_id wk)
                 (update_task_status (t_id task) RUNNING None w) = (rid, w2)"
    and g: "fst (get_browser_for_shop E (t_shop_id task) wk w2) = Inr None"
  shows "\<exists>wk' es. execute_task E task wk w =
      (False, wk',
       task_raised (t_id task) rid (No_browser (t_shop_id task))
         (w2\<lparr>events := events w2 @ es\<rparr>))
    \<and> list_all (\<lambda>ev. \<not> is_page ev \<and> \<not> is_status_write ev) es"
proof -
  obtain wk' w3 where g': "get_browser_for_shop E (t_shop_id task) wk w2 = (Inr None, wk', w3)"
    using g by (metis prod.collapse)
  obtain es where es: "w3 = w2\<lparr>events := events w2 @ es\<rparr>"
    "list_all (\<lambda>ev. \<not> is_page ev \<and> \<not> is_status_write ev) es"
    using gbs_quiet [OF g'] by blast
  have "execute_task E task wk w =
      (False, wk', task_raised (t_id task) rid (No_browser (t_shop_id task)) w3)"
    using cr g' by (simp add: execute_task_def Let_def)
  then show ?thesis using es by blast
qed

lemma gbs_start_failed:
  assumes "map_of (active_browsers wk) shop = None"
    and "map_of (shop_browser_map wk) shop = Some b" and "b \<noteq> []"
    and "start_browser_reply E (events wa) (Start_browser b headless) = Start_failed err"
  shows "fst (get_browser_for_shop E shop wk wa) = Inr None"
  using assms by (simp add: get_browser_for_shop_def start_browser_def ask_def)

lemma gbs_connect_failed:
  assumes "map_of (active_browsers wk) shop = None"
    and "map_of (shop_browser_map wk) shop = Some b" and "b \<noteq> []"
    and "start_browser_reply E (events wa) (Start_browser b headless) = Started port ct cv dl"
    and "core_major cv = Inr major"
    and "unit_reply E (events wa @ [Start_browser b headless]) (Create_controller port major) = None"
    and "\<not> bool_reply E (events wa @ [Start_browser b headless, Create_controller port major])
            (Connect (objects wk))"
  shows "fst (get_browser_for_shop E shop wk wa) = Inr None"
  using assms
  by (simp add: get_browser_for_shop_def start_browser_def ask_def issue_def Let_def)

lemma no_browser_effect:
  assumes cr: "create_run E (t_id task) (worker_id wk)
                 (update_task_status (t_id task) RUNNING None w) = (rid, w2)"
    and g: "fst (get_browser_for_shop E (t_shop_id task) wk w2) = Inr None"
  shows "\<not> fst (execute_task E task wk w)"
    and "status_writes w (snd (snd (execute_task E task wk w))) =
           [(t_id task, RUNNING), (t_id task, FAILED)]"
    and "filter is_page (new_events w (snd (snd (execute_task E task wk w)))) = []"
    and "agent_artifacts (snd (snd (execute_task E task wk w))) = agent_artifacts w"
    and "agent_tasks (snd (snd (execute_task E task wk w))) =
           map (\<lambda>t. if t_id t = t_id task
                     then t\<lparr>t_status := FAILED,
                            t_error := Some (Str_of (No_browser (t_shop_id task)))\<rparr>
                     else t) (agent_tasks w)"
    and "\<exists>row \<in> set (agent_runs (snd (snd (execute_task E task wk w)))).
           r_id row = rid \<and> r_task_id row = t_id task \<and> r_result row = Some Empty_result
           \<and> r_error row = Some (Exception_text (No_browser (t_shop_id task)))"
proof -
  let ?tid = "t_id task" and ?e = "No_browser (t_shop_id task)"
  obtain wk' es where x: "execute_task E task wk w =
      (False, wk', task_raised ?tid rid ?e (w2\<lparr>events := events w2 @ es\<rparr>))"
    and es: "list_all (\<lambda>ev. \<not> is_page ev \<and> \<not> is_status_write ev) es"
    using execute_task_no_browser [OF cr g] by blast
  have w2: "events w2 = events w @ [Update_task_status ?tid RUNNING None, Create_run rid ?tid (worker_id wk)]"
    "agent_tasks w2 = agent_tasks (update_task_status ?tid RUNNING None w)"
    "agent_artifacts w2 = agent_artifacts w"
    "agent_runs w2 = agent_runs w @
        [\<lparr>r_id = rid, r_task_id = ?tid, r_worker_id = worker_id wk, r_result = None, r_error = None\<rparr>]"
    using create_run_world [OF cr] by (simp_all add: update_task_status_def issue_def)
  let ?w' = "snd (snd (execute_task E task wk w))"
  have w': "?w' = task_raised ?tid rid ?e (w2\<lparr>events := events w2 @ es\<rparr>)" using x by simp
  show "\<not> fst (execute_task E task wk w)" using x by simp
  have ne: "new_events w ?w' =
      [Update_task_status ?tid RUNNING None, Create_run rid ?tid (worker_id wk)] @ es
        @ [Complete_run rid Empty_result (Some (Exception_text ?e)),
           Update_task_status ?tid FAILED (Some (Str_of ?e))]"
    unfolding w' using w2(1)
    by (simp add: new_events_def task_raised_def update_task_status_def complete_run_def issue_def)
  have "list_all (\<lambda>ev. \<not> is_status_write ev) es" using es by (simp add: list_all_iff)
  then show "status_writes w ?w' = [(?tid, RUNNING), (?tid, FAILED)]"
    unfolding ne status_writes_def
    by (simp add: map_filter_append map_filter_write_of_quiet List.map_filter_simps)
  have "filter is_page es = []" using es by (simp add: list_all_iff filter_empty_conv)
  then show "filter is_page (new_events w ?w') = []" unfolding ne by simp
  show "agent_artifacts ?w' = agent_artifacts w"
    unfolding w' using w2(3)
    by (simp add: task_raised_def update_task_status_def complete_run_def issue_def)
  show "agent_tasks ?w' =
           map (\<lambda>t. if t_id t = ?tid
                     then t\<lparr>t_status := FAILED, t_error := Some (Str_of ?e)\<rparr>
                     else t) (agent_tasks w)"
    unfolding w' using w2(2)
    by (simp add: task_raised_def update_task_status_def complete_run_def issue_def)
  have "agent_runs ?w' =
      map (\<lambda>r. if r_id r = rid
                then r\<lparr>r_result := Some Empty_result, r_error := Some (Exception_text ?e)\<rparr>
                else r)
        (agent_runs w @
          [\<lparr>r_id = rid, r_task_id = ?tid, r_worker_id = worker_id wk,
            r_result = None, r_error = None\<rparr>])"
    unfolding w' using w2(4)
    by (simp add: task_raised_def update_task_status_def complete_run_def issue_def)
  then show "\<exists>row \<in> set (agent_runs ?w').
           r_id row = rid \<and> r_task_id row = ?tid \<and> r_result row = Some Empty_result
           \<and> r_error row = Some (Exception_text ?e)"
    by simp
qed

text \<open>
  Claim C8. In a worker whose live sessions are all mapped, session acquisition returns
  \<open>None\<close> for a tenant with no entry in the table, and likewise when the start call
  reports failure or the connection check fails. Whenever the acquisition for a task's
  tenant returns \<open>None\<close>, \<open>execute_task\<close> returns \<open>False\<close>, its status writes are
  \<open>running\<close> and then \<open>failed\<close>, the task row carries the error, the run row is
  completed with the error and an empty result, no call is issued against a page session
  (no action is invoked), and no artifact is recorded.
\<close>

theorem acquisition_failure_fails_task:
  assumes "pool_ok wk"
  shows "(map_of (shop_browser_map wk) shop = None \<longrightarrow>
            get_browser_for_shop E shop wk wa = (Inr None, wk, wa))
    \<and> (\<forall>b err. map_of (active_browsers wk) shop = None
          \<and> map_of (shop_browser_map wk) shop = Some b \<and> b \<noteq> []
          \<and> start_browser_reply E (events wa) (Start_browser b headless) = Start_failed err \<longrightarrow>
          fst (get_browser_for_shop E shop wk wa) = Inr None)
    \<and> (\<forall>b port ct cv dl major. map_of (active_browsers wk) shop = None
          \<and> map_of (shop_browser_map wk) shop = Some b \<and> b \<noteq> []
          \<and> start_browser_reply E (events wa) (Start_browser b headless) = Started port ct cv dl
          \<and> core_major cv = Inr major
          \<and> unit_reply E (events wa @ [Start_browser b headless]) (Create_controller port major)
              = None
          \<and> \<not> bool_reply E (events wa @ [Start_browser b headless, Create_controller port major])
                (Connect (objects wk)) \<longrightarrow>
          fst (get_browser_for_shop E shop wk wa) = Inr None)
    \<and> (fst (get_browser_for_shop E (t_shop_id task) wk
              (snd (create_run E (t_id task) (worker_id wk)
                     (update_task_status (t_id task) RUNNING None w)))) = Inr None \<longrightarrow>
         \<not> fst (execute_task E task wk w)
       \<and> status_writes w (snd (snd (execute_task E task wk w))) =
           [(t_id task, RUNNING), (t_id task, FAILED)]
       \<and> filter is_page (new_events w (snd (snd (execute_task E task wk w)))) = []
       \<and> agent_artifacts (snd (snd (execute_task E task wk w))) = agent_artifacts w
       \<and> agent_tasks (snd (snd (execute_task E task wk w))) =
           map (\<lambda>t. if t_id t = t_id task
                     then t\<lparr>t_status := FAILED,
                            t_error := Some (Str_of (No_browser (t_shop_id task)))\<rparr>
                     else t) (agent_tasks w)
       \<and> (\<exists>row \<in> set (agent_runs (snd (snd (execute_task E task wk w)))).
             r_id row = fst (create_run E (t_id task) (worker_id wk)
                               (update_task_status (t_id task) RUNNING None w))
           \<and> r_task_id row = t_id task \<and> r_result row = Some Empty_result
           \<and> r_error row = Some (Exception_text (No_browser (t_shop_id task)))))"
proof (intro conjI allI impI)
  assume u: "map_of (shop_browser_map wk) shop = None"
  then have "\<not> mapped wk shop" by (simp add: mapped_def)
  moreover from this have "map_of (active_browsers wk) shop = None"
    using assms unfolding pool_ok_def by (cases "map_of (active_browsers wk) shop") auto
  ultimately show "get_browser_for_shop E shop wk wa = (Inr None, wk, wa)"
    by (simp add: gbs_unmapped)
next
  fix b err
  assume "map_of (active_browsers wk) shop = None
          \<and> map_of (shop_browser_map wk) shop = Some b \<and> b \<noteq> []
          \<and> start_browser_reply E (events wa) (Start_browser b headless) = Start_failed err"
  then show "fst (get_browser_for_shop E shop wk wa) = Inr None"
    using gbs_start_failed by blast
next
  fix b port ct cv dl major
  assume "map_of (active_browsers wk) shop = None
          \<and> map_of (shop_browser_map wk) shop = Some b \<and> b \<noteq> []
          \<and> start_browser_reply E (events wa) (Start_browser b headless) = Started port ct cv dl
          \<and> core_major cv = Inr major
          \<and> unit_reply E (events wa @ [Start_browser b headless]) (Create_controller port major)
              = None
          \<and> \<not> bool_reply E (events wa @ [Start_browser b headless, Create_controller port major])
                (Connect (objects wk))"
  then show "fst (get_browser_for_shop E shop wk wa) = Inr None"
    using gbs_connect_failed by blast
next
  let ?cr = "create_run E (t_id task) (worker_id wk) (update_task_status (t_id task) RUNNING None w)"
  assume g: "fst (get_browser_for_shop E (t_shop_id task) wk (snd ?cr)) = Inr None"
  have cr: "?cr = (fst ?cr, snd ?cr)" by simp
  note eff = no_browser_effect [OF cr g]
  show "\<not> fst (execute_task E task wk w)" by (rule eff(1))
  show "status_writes w (snd (snd (execute_task E task wk w))) =
           [(t_id task, RUNNING), (t_id task, FAILED)]" by (rule eff(2))
  show "filter is_page (new_events w (snd (snd (execute_task E task wk w)))) = []" by (rule eff(3))
  show "agent_artifacts (snd (snd (execute_task E task wk w))) = agent_artifacts w" by (rule eff(4))
  show "agent_tasks (snd (snd (execute_task E task wk w))) =
           map (\<lambda>t. if t_id t = t_id task
                     then t\<lparr>t_status := FAILED,
                            t_error := Some (Str_of (No_browser (t_shop_id task)))\<rparr>
                     else t) (agent_tasks w)" by (rule eff(5))
  show "\<exists>row \<in> set (agent_runs (snd (snd (execute_task E task wk w)))).
             r_id row = fst ?cr
           \<and> r_task_id row = t_id task \<and> r_result row = Some Empty_result
           \<and> r_error row = Some (Exception_text (No_browser (t_shop_id task)))" by (rule eff(6))
qed

theorem acquisition_failure_fails_task_witness:
  "pool_ok worker0
   \<and> map_of (shop_browser_map worker0) ''shop'' = None
   \<and> get_browser_for_shop env_ok ''shop'' worker0 world0 = (Inr None, worker0, world0)
   \<and> fst (get_browser_for_shop env_ok (t_shop_id task1) worker0
             (snd (create_run env_ok (t_id task1) (worker_id worker0)
                    (update_task_status (t_id task1) RUNNING None three_tasks)))) = Inr None
   \<and> \<not> fst (execute_task env_ok task1 worker0 three_tasks)
   \<and> status_writes three_tasks (snd (snd (execute_task env_ok task1 worker0 three_tasks))) =
       [(t_id task1, RUNNING), (t_id task1, FAILED)]
   \<and> filter is_page (new_events three_tasks
        (snd (snd (execute_task env_ok task1 worker0 three_tasks)))) = []
   \<and> agent_artifacts (snd (snd (execute_task env_ok task1 worker0 three_tasks))) =
       agent_artifacts three_tasks"
proof -
  have p: "pool_ok worker0" by (simp add: pool_ok_def worker0_def)
  have u: "map_of (shop_browser_map worker0) ''shop'' = None" by (simp add: worker0_def)
  have s: "t_shop_id task1 = ''shop''" by (simp add: task1_def queued_task_def)
  have g: "fst (get_browser_for_shop env_ok (t_shop_id task1) worker0
             (snd (create_run env_ok (t_id task1) (worker_id worker0)
                    (update_task_status (t_id task1) RUNNING None three_tasks)))) = Inr None"
    unfolding s by (simp add: get_browser_for_shop_def worker0_def)
  show ?thesis
    using p u g
      acquisition_failure_fails_task [OF p, of "''shop''" env_ok world0 task1 three_tasks]
    by blast
qed

subsection \<open>Locator lookup\<close>

lemma map_of_sites_None:
  "s \<notin> {''id'', ''my'', ''th'', ''vn'', ''ph'', ''sg''} \<Longrightarrow> map_of sites s = None"
  by (simp add: sites_def)

lemma do_action_site:
  "do_action cls E c locs (cx\<lparr>site := s\<rparr>) pl = do_action cls E c locs cx pl"
  by (cases cls)
     (simp_all add: UpdateTitleAction_do_action_def FetchAdsSummaryAction_do_action_def
        FetchProductSnapshotAction_do_action_def)

lemma run_action_site:
  assumes "get_locators s = get_locators s'"
  shows "run_action E cls c st (cx\<lparr>site := s\<rparr>) pl = run_action E cls c st (cx\<lparr>site := s'\<rparr>) pl"
  using assms
  by (simp add: run_action_def execute_def try_block_def handler_def do_action_site
      cong: if_cong prod.case_cong sum.case_cong)

text \<open>
  Claim C10. The per-site locator lookup is total and falls back silently: for every site
  string outside id, my, th, vn, ph, sg, \<open>get_locators\<close> returns the Indonesian table
  \<open>SHOPEE_ID\<close> (its result type has no error value), and a registered action run with
  such a site code does exactly what it does with the site code \<open>id\<close>.
\<close>

theorem get_locators_fallback:
  assumes "s \<notin> {''id'', ''my'', ''th'', ''vn'', ''ph'', ''sg''}"
  shows "get_locators s = SHOPEE_ID
    \<and> run_action E cls c st (cx\<lparr>site := s\<rparr>) pl w =
        run_action E cls c st (cx\<lparr>site := ''id''\<rparr>) pl w"
proof -
  have 1: "get_locators s = SHOPEE_ID"
    using assms by (simp add: get_locators_def map_of_sites_None)
  have 2: "get_locators ''id'' = SHOPEE_ID" by (simp add: get_locators_def sites_def)
  show ?thesis using 1 run_action_site [of s "''id''"] 2 by simp
qed

theorem get_locators_fallback_witness:
  "''br'' \<notin> {''id'', ''my'', ''th'', ''vn'', ''ph'', ''sg''}
   \<and> get_locators ''br'' = SHOPEE_ID
   \<and> run_action env_ok FetchAdsSummaryAction controller0 False (context0\<lparr>site := ''br''\<rparr>) []
         world0 =
       run_action env_ok FetchAdsSummaryAction controller0 False (context0\<lparr>site := ''id''\<rparr>) []
         world0"
  using get_locators_fallback
    [of "''br''" env_ok FetchAdsSummaryAction controller0 False context0 "[]" world0]
  by simp

end
